(* ===== verification/Go_Prelude.thy ===== *)
theory Go_Prelude
  imports Main "HOL-Library.Word" "HOL-Library.Signed_Division"
begin

text \<open>
  Shared vocabulary of the development: the types that stand for the Go types used all over
  the repository (\<open>uuid.UUID\<close>, \<open>time.Time\<close>, \<open>time.Duration\<close>, \<open>json.RawMessage\<close>, \<open>error\<close>), the
  parts of the Go standard library the sources call (\<open>strings.TrimSpace\<close>, \<open>errors.Is\<close>), and the
  generic lemmas on tables, that is on lists of rows, which carry the component proofs.

  \<^item> A UUID is its 16 bytes, a \<open>128 word\<close>; \<open>uuid.Nil\<close> is 0.
  \<^item> An instant is an \<open>int\<close>, the nanoseconds since the zero \<open>time.Time\<close>, so that \<open>IsZero\<close> is
    equality with 0.  A \<open>time.Duration\<close> is Go's signed 64-bit nanosecond count and is kept as a
    \<open>64 word\<close>, because the back-off computations of the scheduler multiply it without a cap.
  \<^item> A Go string is a sequence of bytes and so is a \<open>string\<close>.
  \<^item> An \<open>error\<close> is a value of \<open>go_error\<close>; \<open>fmt.Errorf\<close> with the wrapping verb is \<open>Wrapped\<close>.
\<close>

named_theorems tx_simps \<open>equations that run a transaction along its successful path\<close>
named_theorems table_simps \<open>rows of a table after a statement\<close>
named_theorems run_simps \<open>equations that run a transaction when no round trip fails\<close>

section \<open>Basic types\<close>

type_synonym uuid = "128 word"
type_synonym time = int
type_synonym duration = "64 word"
type_synonym json = string

abbreviation uuid_Nil :: uuid where
  "uuid_Nil \<equiv> 0"

abbreviation Second :: duration where
  "Second \<equiv> 1000000000"

abbreviation Minute :: duration where
  "Minute \<equiv> 60000000000"

definition time_Add :: "time \<Rightarrow> duration \<Rightarrow> time" where
  "time_Add t d = t + sint d"

text \<open>\<open>int(d.Seconds())\<close> and \<open>d.Milliseconds()\<close>: both truncate towards zero.\<close>

definition duration_Seconds :: "duration \<Rightarrow> int" where
  "duration_Seconds d = sint d sdiv 1000000000"

definition duration_Milliseconds :: "duration \<Rightarrow> int" where
  "duration_Milliseconds d = sint d sdiv 1000000"

text \<open>\<open>n * interval '1 second'\<close> in a statement, as a difference of instants.\<close>

definition interval_seconds :: "int \<Rightarrow> int" where
  "interval_seconds n = n * 1000000000"

text \<open>The range of a PostgreSQL \<open>INT\<close> column.\<close>

definition int4 :: "int \<Rightarrow> bool" where
  "int4 n \<longleftrightarrow> - (2 ^ 31) \<le> n \<and> n < 2 ^ 31"

text \<open>Go's \<open>int\<close> and \<open>int64\<close> arithmetic wraps modulo \<open>2 ^ 64\<close>.\<close>

definition wrap64 :: "int \<Rightarrow> int" where
  "wrap64 n = sint (word_of_int n :: 64 word)"

lemma sint_word_of_int_64:
  assumes "- (2 ^ 63) \<le> n" and "n < 2 ^ 63"
  shows "sint (word_of_int n :: 64 word) = n"
proof -
  have "signed_take_bit 63 n = n"
    using assms by (intro signed_take_bit_int_eq_self) simp_all
  then show ?thesis
    by (simp add: sint_sbintrunc')
qed

lemma wrap64_id: "- (2 ^ 63) \<le> n \<Longrightarrow> n < 2 ^ 63 \<Longrightarrow> wrap64 n = n"
  unfolding wrap64_def by (rule sint_word_of_int_64)

lemma wrap64_range: "- (2 ^ 63) \<le> wrap64 n \<and> wrap64 n < 2 ^ 63"
  using sint_range_size [of "word_of_int n :: 64 word"]
  by (simp add: wrap64_def size_word_def)

section \<open>Errors\<close>

text \<open>
  The sentinels of internal/errors/errors.go, the sentinels of the packages the code tests
  for, \<open>worker.ExecutionError\<close>, and the two ways the code builds errors itself:
  \<open>errors.New\<close> (\<open>ErrorString\<close>) and \<open>fmt.Errorf\<close> with a wrapped cause between two texts.
\<close>

datatype go_error =
    ErrNotFound
  | ErrInvalidInput
  | ErrInvalidTransition
  | ErrConflict
  | ErrIdempotency
  | ErrUnauthorized
  | ErrForbidden
  | ErrDependency
  | AuthErrUnauthorized
  | PgxErrNoRows
  | PgError (pg_Message: string) (pg_Code: string)
  | RedisNil
  | ContextCanceled
  | ContextDeadlineExceeded
  | ExecutionError (ee_Code: string) (ee_Message: string) (ee_Retryable: bool)
      (ee_RetryAfter: duration) (ee_Metadata: json)
  | ErrorString string
  | Wrapped string go_error string

fun errors_Is :: "go_error \<Rightarrow> go_error \<Rightarrow> bool" where
  "errors_Is (Wrapped p e q) t \<longleftrightarrow> Wrapped p e q = t \<or> errors_Is e t"
| "errors_Is e t \<longleftrightarrow> e = t"

lemma errors_Is_refl [simp]: "errors_Is e e"
  by (cases e) simp_all

text \<open>\<open>err.Error()\<close>.\<close>

primrec error_Error :: "go_error \<Rightarrow> string" where
  "error_Error ErrNotFound = ''not found''"
| "error_Error ErrInvalidInput = ''invalid input''"
| "error_Error ErrInvalidTransition = ''invalid status transition''"
| "error_Error ErrConflict = ''conflict''"
| "error_Error ErrIdempotency = ''idempotency conflict''"
| "error_Error ErrUnauthorized = ''unauthorized''"
| "error_Error ErrForbidden = ''forbidden''"
| "error_Error ErrDependency = ''dependency unavailable''"
| "error_Error AuthErrUnauthorized = ''invalid API key''"
| "error_Error PgxErrNoRows = ''no rows in result set''"
| "error_Error (PgError m c) = ''ERROR: '' @ m @ '' (SQLSTATE '' @ c @ '')''"
| "error_Error RedisNil = ''redis: nil''"
| "error_Error ContextCanceled = ''context canceled''"
| "error_Error ContextDeadlineExceeded = ''context deadline exceeded''"
| "error_Error (ExecutionError c m r a d) = m"
| "error_Error (ErrorString s) = s"
| "error_Error (Wrapped p e q) = p @ error_Error e @ q"

text \<open>\<open>errors.As(err, &pgErr)\<close> followed by a test of the SQLSTATE code.\<close>

fun pg_code_is :: "string \<Rightarrow> go_error \<Rightarrow> bool" where
  "pg_code_is code (PgError m c) \<longleftrightarrow> c = code"
| "pg_code_is code (Wrapped p e q) \<longleftrightarrow> pg_code_is code e"
| "pg_code_is code e \<longleftrightarrow> False"

section \<open>strings.TrimSpace\<close>

text \<open>
  \<open>strings.TrimSpace\<close> removes leading and trailing runes with the Unicode White\_Space property.
  \<open>space_runes\<close> lists their UTF-8 encodings; \<open>strip\<close> removes them from the front of a byte
  sequence, and the back is stripped by reversing.
\<close>

definition space_runes :: "string list" where
  "space_runes =
    [[CHR 0x09], [CHR 0x0A], [CHR 0x0B], [CHR 0x0C], [CHR 0x0D], [CHR 0x20],
     [CHR 0xC2, CHR 0x85], [CHR 0xC2, CHR 0xA0], [CHR 0xE1, CHR 0x9A, CHR 0x80],
     [CHR 0xE2, CHR 0x80, CHR 0x80], [CHR 0xE2, CHR 0x80, CHR 0x81],
     [CHR 0xE2, CHR 0x80, CHR 0x82], [CHR 0xE2, CHR 0x80, CHR 0x83],
     [CHR 0xE2, CHR 0x80, CHR 0x84], [CHR 0xE2, CHR 0x80, CHR 0x85],
     [CHR 0xE2, CHR 0x80, CHR 0x86], [CHR 0xE2, CHR 0x80, CHR 0x87],
     [CHR 0xE2, CHR 0x80, CHR 0x88], [CHR 0xE2, CHR 0x80, CHR 0x89],
     [CHR 0xE2, CHR 0x80, CHR 0x8A], [CHR 0xE2, CHR 0x80, CHR 0xA8],
     [CHR 0xE2, CHR 0x80, CHR 0xA9], [CHR 0xE2, CHR 0x80, CHR 0xAF],
     [CHR 0xE2, CHR 0x81, CHR 0x9F], [CHR 0xE3, CHR 0x80, CHR 0x80]]"

definition starts_with :: "string \<Rightarrow> string \<Rightarrow> bool" where
  "starts_with s r \<longleftrightarrow> r \<noteq> [] \<and> take (length r) s = r"

function strip :: "string list \<Rightarrow> string \<Rightarrow> string" where
  "strip rs s =
     (case find (starts_with s) rs of None \<Rightarrow> s | Some r \<Rightarrow> strip rs (drop (length r) s))"
  by pat_completeness auto
termination
proof (relation "measure (\<lambda>(rs, s). length s)", goal_cases)
  case 1
  show ?case by simp
next
  case (2 rs s r)
  then have "starts_with s r"
    by (auto simp: find_Some_iff)
  then show ?case
    by (cases s) (auto simp: starts_with_def)
qed

declare strip.simps [simp del]

definition TrimSpace :: "string \<Rightarrow> string" where
  "TrimSpace s = rev (strip (map rev space_runes) (rev (strip space_runes s)))"

lemma strip_fixed: "find (starts_with (strip rs s)) rs = None"
proof (induction rs s rule: strip.induct)
  case (1 rs s)
  show ?case
    by (cases "find (starts_with s) rs")
       (simp_all add: strip.simps [of rs s] "1.IH")
qed

lemma strip_idem [simp]: "strip rs (strip rs s) = strip rs s"
  by (subst strip.simps) (simp add: strip_fixed)

lemma length_strip: "length (strip rs s) \<le> length s"
proof (induction rs s rule: strip.induct)
  case (1 rs s)
  show ?case
  proof (cases "find (starts_with s) rs")
    case None
    then show ?thesis by (simp add: strip.simps [of rs s])
  next
    case (Some r)
    with "1.IH" [OF Some] show ?thesis by (simp add: strip.simps [of rs s])
  qed
qed

lemma length_TrimSpace: "length (TrimSpace s) \<le> length s"
proof -
  have "length (TrimSpace s) \<le> length (rev (strip space_runes s))"
    unfolding TrimSpace_def length_rev by (rule order.trans [OF length_strip]) simp
  then show ?thesis
    using length_strip [of space_runes s] by simp
qed

section \<open>strings.ToLower on ASCII text\<close>

text \<open>The code lower-cases status names only, which are ASCII.\<close>

definition lower_char :: "char \<Rightarrow> char" where
  "lower_char c =
     (case map_of (zip ''ABCDEFGHIJKLMNOPQRSTUVWXYZ'' ''abcdefghijklmnopqrstuvwxyz'') c of
        None \<Rightarrow> c | Some l \<Rightarrow> l)"

definition ToLower :: "string \<Rightarrow> string" where
  "ToLower s = map lower_char s"

end
