(* ===== verification/Engine.thy ===== *)
theory Engine
  imports Go_Prelude
begin

text \<open>
  internal/scheduler/engine.go: the status strings, the transition table with \<open>CanTransition\<close>, and
  the retry rule \<open>DecideFailure\<close> with its exponential back-off \<open>NextRetryAt\<close>.  Durations are
  64-bit and the doubling loop multiplies them without a cap, so \<open>NextRetryAt\<close> is modelled on
  words; the lemmas say up to which attempt the schedule is the intended one.
\<close>

section \<open>The transition table\<close>

abbreviation "EngPending \<equiv> ''PENDING''"
abbreviation "EngScheduled \<equiv> ''SCHEDULED''"
abbreviation "EngRunning \<equiv> ''RUNNING''"
abbreviation "EngSucceeded \<equiv> ''SUCCEEDED''"
abbreviation "EngFailed \<equiv> ''FAILED''"
abbreviation "EngRetryScheduled \<equiv> ''RETRY_SCHEDULED''"
abbreviation "EngDeadLettered \<equiv> ''DEAD_LETTERED''"
abbreviation "EngCancelled \<equiv> ''CANCELLED''"
abbreviation "EngPaused \<equiv> ''PAUSED''"

definition transitions :: "string \<Rightarrow> string list option" where
  "transitions = map_of
     [(EngPending, [EngRunning, EngCancelled, EngPaused]),
      (EngScheduled, [EngRunning, EngCancelled, EngPaused]),
      (EngRunning, [EngSucceeded, EngFailed, EngRetryScheduled, EngDeadLettered, EngCancelled]),
      (EngFailed, [EngRetryScheduled, EngDeadLettered]),
      (EngRetryScheduled, [EngRunning, EngCancelled, EngDeadLettered]),
      (EngPaused, [EngScheduled]),
      (EngDeadLettered, [EngRetryScheduled])]"

definition CanTransition :: "string \<Rightarrow> string \<Rightarrow> bool" where
  "CanTransition from to =
     (case transitions from of None \<Rightarrow> False | Some next \<Rightarrow> to \<in> set next)"

section \<open>Retry and dead-letter decisions\<close>

record FailureDecision =
  fd_Status :: string
  fd_NextRetryCount :: int
  fd_NextRunAt :: time

text \<open>The loop \<open>for i := 1; i < attemptNumber; i++ { delay *= 2 }\<close>.\<close>

function double_delay :: "int \<Rightarrow> int \<Rightarrow> duration \<Rightarrow> duration" where
  "double_delay i attemptNumber delay =
     (if i < attemptNumber then double_delay (i + 1) attemptNumber (delay * 2) else delay)"
  by pat_completeness auto
termination
  by (relation "measure (\<lambda>(i, n, d). nat (n - i))") auto

declare double_delay.simps [simp del]

definition NextRetryAt :: "time \<Rightarrow> int \<Rightarrow> int \<Rightarrow> time" where
  "NextRetryAt now baseBackoffSeconds attemptNumber =
     (let base = (if baseBackoffSeconds \<le> 0 then 30 else baseBackoffSeconds);
          n = (if attemptNumber < 1 then 1 else attemptNumber);
          delay = (word_of_int base :: duration) * Second
      in time_Add now (double_delay 1 n delay))"

definition DecideFailure :: "time \<Rightarrow> int \<Rightarrow> int \<Rightarrow> int \<Rightarrow> FailureDecision" where
  "DecideFailure now retryCount maxRetries retryBackoffSeconds =
     (let nextRetryCount = retryCount + 1 in
      if nextRetryCount > maxRetries
      then \<lparr>fd_Status = EngDeadLettered, fd_NextRetryCount = nextRetryCount, fd_NextRunAt = 0\<rparr>
      else \<lparr>fd_Status = EngRetryScheduled, fd_NextRetryCount = nextRetryCount,
            fd_NextRunAt = NextRetryAt now retryBackoffSeconds nextRetryCount\<rparr>)"

section \<open>The doubling loop\<close>

lemma double_delay_eq:
  "double_delay i n d = d * 2 ^ nat (n - i)"
proof (induction i n d rule: double_delay.induct)
  case (1 i n d)
  show ?case
  proof (cases "i < n")
    case True
    then have "nat (n - i) = Suc (nat (n - (i + 1)))" by simp
    with True 1 show ?thesis
      by (simp add: double_delay.simps [of i n d] mult.assoc)
  next
    case False
    then show ?thesis by (simp add: double_delay.simps [of i n d])
  qed
qed

text \<open>The base the code computes with: 30 seconds unless a positive one is configured.\<close>

definition backoff_base :: "int \<Rightarrow> int" where
  "backoff_base b = (if b \<le> 0 then 30 else b)"

lemma backoff_base_pos: "0 < backoff_base b"
  by (simp add: backoff_base_def)

lemma NextRetryAt_eq:
  "NextRetryAt now b n =
     now + wrap64 (backoff_base b * 1000000000 * 2 ^ nat (max 1 n - 1))"
proof -
  have "NextRetryAt now b n =
      now + sint ((word_of_int (backoff_base b) :: duration) * Second * 2 ^ nat (max 1 n - 1))"
    by (simp add: NextRetryAt_def Let_def time_Add_def double_delay_eq backoff_base_def max_def)
  also have "(word_of_int (backoff_base b) :: duration) * Second * 2 ^ nat (max 1 n - 1)
      = word_of_int (backoff_base b * 1000000000 * 2 ^ nat (max 1 n - 1))"
    by simp
  finally show ?thesis
    by (simp add: wrap64_def)
qed

lemma NextRetryAt_exact:
  assumes "backoff_base b * 1000000000 * 2 ^ nat (max 1 n - 1) < 2 ^ 63"
  shows "NextRetryAt now b n = now + backoff_base b * 1000000000 * 2 ^ nat (max 1 n - 1)"
proof -
  have "0 \<le> backoff_base b * 1000000000 * (2::int) ^ nat (max 1 n - 1)"
    using backoff_base_pos [of b] by simp
  then have "wrap64 (backoff_base b * 1000000000 * 2 ^ nat (max 1 n - 1))
      = backoff_base b * 1000000000 * 2 ^ nat (max 1 n - 1)"
    using assms by (intro wrap64_id) simp_all
  then show ?thesis
    by (simp add: NextRetryAt_eq)
qed

section \<open>Decisions\<close>

lemma DecideFailure_count [simp]:
  "fd_NextRetryCount (DecideFailure now rc mr b) = rc + 1"
  by (simp add: DecideFailure_def Let_def)

lemma DecideFailure_status:
  "fd_Status (DecideFailure now rc mr b) = (if rc < mr then EngRetryScheduled else EngDeadLettered)"
  by (simp add: DecideFailure_def Let_def)

lemma DecideFailure_run_at:
  "fd_NextRunAt (DecideFailure now rc mr b) =
     (if rc < mr then NextRetryAt now b (rc + 1) else 0)"
  by (simp add: DecideFailure_def Let_def)

lemma CanTransition_iff:
  "CanTransition from to \<longleftrightarrow>
     from = EngPending \<and> to \<in> {EngRunning, EngCancelled, EngPaused} \<or>
     from = EngScheduled \<and> to \<in> {EngRunning, EngCancelled, EngPaused} \<or>
     from = EngRunning \<and>
       to \<in> {EngSucceeded, EngFailed, EngRetryScheduled, EngDeadLettered, EngCancelled} \<or>
     from = EngFailed \<and> to \<in> {EngRetryScheduled, EngDeadLettered} \<or>
     from = EngRetryScheduled \<and> to \<in> {EngRunning, EngCancelled, EngDeadLettered} \<or>
     from = EngPaused \<and> to = EngScheduled \<or>
     from = EngDeadLettered \<and> to = EngRetryScheduled"
  by (simp add: CanTransition_def transitions_def)

end
