(* ===== verification/Pg_Tx.thy ===== *)
theory Pg_Tx
  imports Go_Prelude
begin

text \<open>
  How the sources talk to PostgreSQL.  A table is the list of its rows; an \<open>UPDATE\<close> is
  \<open>upd_where\<close>, its \<open>RowsAffected()\<close> is \<open>rows_affected\<close>, a \<open>SELECT\<close> is a \<open>filter\<close>.  A function of
  the repository runs in a \<open>world\<close>: the committed database together with everything the
  function reads from outside, namely

  \<^item> the outcome of every round trip to the server (\<open>w_faults\<close>: \<open>Some e\<close> makes the next
    \<open>Begin\<close>, statement or \<open>Commit\<close> fail with \<open>e\<close>, an exhausted list means that the server is healthy),
  \<^item> the values of \<open>uuid.New()\<close> and of \<open>time.Now()\<close>, in the order of the calls,
  \<^item> \<open>now()\<close> of each transaction, which PostgreSQL fixes when the transaction starts,
  \<^item> for each transaction the rows other transactions hold locked (\<open>SKIP LOCKED\<close> leaves them out).

  \<open>in_tx\<close> is the shape \<open>Begin; defer Rollback; ...; Commit\<close>: any error on the way leaves the
  database as it was at \<open>Begin\<close>.
\<close>

section \<open>Tables\<close>

definition upd_where :: "('r \<Rightarrow> bool) \<Rightarrow> ('r \<Rightarrow> 'r) \<Rightarrow> 'r list \<Rightarrow> 'r list" where
  "upd_where P f rs = map (\<lambda>r. if P r then f r else r) rs"

definition rows_affected :: "('r \<Rightarrow> bool) \<Rightarrow> 'r list \<Rightarrow> nat" where
  "rows_affected P rs = length (filter P rs)"

lemma upd_where_Nil [simp]: "upd_where P f [] = []"
  by (simp add: upd_where_def)

lemma upd_where_Cons [simp]:
  "upd_where P f (r # rs) = (if P r then f r else r) # upd_where P f rs"
  by (simp add: upd_where_def)

lemma upd_where_append [simp]: "upd_where P f (rs @ ss) = upd_where P f rs @ upd_where P f ss"
  by (simp add: upd_where_def)

lemma length_upd_where [simp]: "length (upd_where P f rs) = length rs"
  by (simp add: upd_where_def)

lemma set_upd_where [table_simps]:
  "set (upd_where P f rs) = f ` {r \<in> set rs. P r} \<union> {r \<in> set rs. \<not> P r}"
  by (auto simp: upd_where_def)

lemma in_upd_where:
  "r' \<in> set (upd_where P f rs) \<longleftrightarrow> (\<exists>r\<in>set rs. r' = (if P r then f r else r))"
  by (auto simp: upd_where_def)

lemma upd_whereE:
  assumes "r' \<in> set (upd_where P f rs)"
  obtains (changed) r where "r \<in> set rs" and "P r" and "r' = f r"
    | (same) "r' \<in> set rs" and "\<not> P r'"
  using assms by (auto simp: in_upd_where split: if_splits)

lemma map_upd_where:
  assumes "\<And>r. k (f r) = k r"
  shows "map k (upd_where P f rs) = map k rs"
  using assms by (simp add: upd_where_def)

lemma filter_upd_where:
  assumes "\<And>r. Q (f r) = Q r"
  shows "filter Q (upd_where P f rs) = upd_where P f (filter Q rs)"
  using assms by (induction rs) auto

lemma upd_where_none: "rows_affected P rs = 0 \<Longrightarrow> upd_where P f rs = rs"
  unfolding rows_affected_def upd_where_def
  by (rule map_idI) (simp add: filter_empty_conv)

lemma rows_affected_0 [table_simps]: "rows_affected P rs = 0 \<longleftrightarrow> (\<forall>r\<in>set rs. \<not> P r)"
  by (simp add: rows_affected_def filter_empty_conv)

text \<open>A primary key makes the row with a given key unique.\<close>

lemma key_unique:
  assumes "distinct (map k rs)" and "r \<in> set rs" and "s \<in> set rs" and "k r = k s"
  shows "r = s"
  using assms by (auto simp: distinct_map dest: inj_onD)

lemma filter_key_unique:
  assumes "distinct (map k rs)" and "r \<in> set rs"
  shows "filter (\<lambda>s. k s = k r) rs = [r]"
  using assms
proof (induction rs)
  case Nil
  then show ?case by simp
next
  case (Cons s rs)
  show ?case
  proof (cases "r = s")
    case True
    with Cons.prems have "filter (\<lambda>t. k t = k r) rs = []"
      by (auto simp: filter_empty_conv image_iff)
    with True show ?thesis by simp
  next
    case False
    with Cons show ?thesis by (auto simp: image_iff)
  qed
qed

lemma find_key:
  assumes "distinct (map k rs)" and "r \<in> set rs"
  shows "find (\<lambda>s. k s = k r) rs = Some r"
proof -
  have "find (\<lambda>s. k s = k r) rs = (case filter (\<lambda>s. k s = k r) rs of [] \<Rightarrow> None | s # _ \<Rightarrow> Some s)"
    by (induction rs) auto
  then show ?thesis
    using filter_key_unique [OF assms] by simp
qed

lemma find_SomeD:
  assumes "find P xs = Some x"
  shows "x \<in> set xs" and "P x"
  using assms by (auto simp: find_Some_iff)

section \<open>The world of a transaction\<close>

record 'd world =
  w_db :: 'd
  w_faults :: "go_error option list"
  w_fresh :: "nat \<Rightarrow> uuid"
  w_used :: nat
  w_clock :: "nat \<Rightarrow> time"
  w_ticks :: nat
  w_dbclock :: "nat \<Rightarrow> time"
  w_txs :: nat
  w_locked :: "nat \<Rightarrow> uuid \<Rightarrow> bool"

type_synonym ('d, 'a) tx = "'d world \<Rightarrow> (go_error + 'a) \<times> 'd world"

definition w_now :: "'d world \<Rightarrow> time" where
  "w_now w = w_dbclock w (w_txs w)"

definition skip_locked :: "'d world \<Rightarrow> uuid \<Rightarrow> bool" where
  "skip_locked w = w_locked w (w_txs w)"

definition healthy :: "'d world \<Rightarrow> bool" where
  "healthy w \<longleftrightarrow> (case w_faults w of Some e # _ \<Rightarrow> False | _ \<Rightarrow> True)"

definition no_faults :: "'d world \<Rightarrow> bool" where
  "no_faults w \<longleftrightarrow> w_faults w = []"

lemma w_now_upd [simp]:
  "w_now (w\<lparr>w_db := d\<rparr>) = w_now w"
  "w_now (w\<lparr>w_faults := fs\<rparr>) = w_now w"
  "w_now (w\<lparr>w_used := n\<rparr>) = w_now w"
  "w_now (w\<lparr>w_ticks := n\<rparr>) = w_now w"
  by (simp_all add: w_now_def)

lemma skip_locked_upd [simp]:
  "skip_locked (w\<lparr>w_db := d\<rparr>) = skip_locked w"
  "skip_locked (w\<lparr>w_faults := fs\<rparr>) = skip_locked w"
  "skip_locked (w\<lparr>w_used := n\<rparr>) = skip_locked w"
  "skip_locked (w\<lparr>w_ticks := n\<rparr>) = skip_locked w"
  by (simp_all add: skip_locked_def)

lemma no_faults_healthy [simp]: "no_faults w \<Longrightarrow> healthy w"
  by (simp add: no_faults_def healthy_def)

section \<open>Sequencing\<close>

definition return_tx :: "'a \<Rightarrow> ('d, 'a) tx" where
  "return_tx x w = (Inr x, w)"

definition fail_tx :: "go_error \<Rightarrow> ('d, 'a) tx" where
  "fail_tx e w = (Inl e, w)"

definition bind_tx :: "('d, 'a) tx \<Rightarrow> ('a \<Rightarrow> ('d, 'b) tx) \<Rightarrow> ('d, 'b) tx" where
  "bind_tx m k w = (case m w of (Inl e, w') \<Rightarrow> (Inl e, w') | (Inr x, w') \<Rightarrow> k x w')"

text \<open>\<open>x, err := ...\<close> where the caller looks at \<open>err\<close> itself instead of returning it.\<close>

definition try_tx :: "('d, 'a) tx \<Rightarrow> ('d, go_error + 'a) tx" where
  "try_tx m w = (case m w of (r, w') \<Rightarrow> (Inr r, w'))"

definition uuid_New :: "('d, uuid) tx" where
  "uuid_New w = (Inr (w_fresh w (w_used w)), w\<lparr>w_used := Suc (w_used w)\<rparr>)"

definition time_Now :: "('d, time) tx" where
  "time_Now w = (Inr (w_clock w (w_ticks w)), w\<lparr>w_ticks := Suc (w_ticks w)\<rparr>)"

text \<open>\<open>for _, x := range xs { ... }\<close> where the body may return early with an error.\<close>

fun for_tx :: "('b \<Rightarrow> ('d, 'a) tx) \<Rightarrow> 'b list \<Rightarrow> ('d, 'a list) tx" where
  "for_tx body [] = return_tx []"
| "for_tx body (x # xs) =
     bind_tx (body x) (\<lambda>y. bind_tx (for_tx body xs) (\<lambda>ys. return_tx (y # ys)))"

text \<open>One round trip to the server: the statement sees \<open>now()\<close> and the current database.\<close>

definition stmt :: "('d world \<Rightarrow> 'd \<Rightarrow> go_error + 'a \<times> 'd) \<Rightarrow> ('d, 'a) tx" where
  "stmt f w =
     (case w_faults w of
        Some e # fs \<Rightarrow> (Inl e, w\<lparr>w_faults := fs\<rparr>)
      | fs \<Rightarrow>
          (case f w (w_db w) of
             Inl e \<Rightarrow> (Inl e, w\<lparr>w_faults := tl fs\<rparr>)
           | Inr (x, d) \<Rightarrow> (Inr x, w\<lparr>w_faults := tl fs, w_db := d\<rparr>)))"

definition query :: "('d world \<Rightarrow> 'd \<Rightarrow> 'a) \<Rightarrow> ('d, 'a) tx" where
  "query f = stmt (\<lambda>w d. Inr (f w d, d))"

text \<open>A statement sent through the pool is a transaction of its own.\<close>

definition new_tx :: "('d, unit) tx" where
  "new_tx w = (Inr (), w\<lparr>w_txs := Suc (w_txs w)\<rparr>)"

definition pool_stmt :: "('d world \<Rightarrow> 'd \<Rightarrow> go_error + 'a \<times> 'd) \<Rightarrow> ('d, 'a) tx" where
  "pool_stmt f = bind_tx new_tx (\<lambda>_. stmt f)"

definition pool_query :: "('d world \<Rightarrow> 'd \<Rightarrow> 'a) \<Rightarrow> ('d, 'a) tx" where
  "pool_query f = pool_stmt (\<lambda>w d. Inr (f w d, d))"

text \<open>The body of a transaction ends in \<open>Commit\<close> or leaves by the deferred \<open>Rollback\<close>.\<close>

datatype 'a tx_end = Commit 'a | Abort 'a

definition commit_tx :: "'a \<Rightarrow> ('d, 'a tx_end) tx" where
  "commit_tx x = return_tx (Commit x)"

definition abort_tx :: "'a \<Rightarrow> ('d, 'a tx_end) tx" where
  "abort_tx x = return_tx (Abort x)"

definition in_tx :: "('d, 'a tx_end) tx \<Rightarrow> ('d, 'a) tx" where
  "in_tx body w =
     (case pool_stmt (\<lambda>_ d. Inr ((), d)) w of
        (Inl e, w1) \<Rightarrow> (Inl e, w1)
      | (Inr _, w1) \<Rightarrow>
          (case body w1 of
             (Inl e, w2) \<Rightarrow> (Inl e, w2\<lparr>w_db := w_db w\<rparr>)
           | (Inr (Abort x), w2) \<Rightarrow> (Inr x, w2\<lparr>w_db := w_db w\<rparr>)
           | (Inr (Commit x), w2) \<Rightarrow>
               (case stmt (\<lambda>_ d. Inr ((), d)) w2 of
                  (Inl e, w3) \<Rightarrow> (Inl e, w3\<lparr>w_db := w_db w\<rparr>)
                | (Inr _, w3) \<Rightarrow> (Inr x, w3))))"

section \<open>Running along the successful path\<close>

text \<open>
  Each combinator has one equation that says when it succeeds and with what world; together they
  turn a successful run of a repository function into the conjunction of its statements.
\<close>

lemma return_tx_ok [tx_simps]: "return_tx x w = (Inr y, w') \<longleftrightarrow> y = x \<and> w' = w"
  by (auto simp: return_tx_def)

lemma fail_tx_ok [tx_simps]: "fail_tx e w = (Inr y, w') \<longleftrightarrow> False"
  by (simp add: fail_tx_def)

lemma bind_tx_ok [tx_simps]:
  "bind_tx m k w = (Inr y, w') \<longleftrightarrow> (\<exists>x w1. m w = (Inr x, w1) \<and> k x w1 = (Inr y, w'))"
  by (auto simp: bind_tx_def split: prod.splits sum.splits)

lemma try_tx_ok [tx_simps]: "try_tx m w = (Inr r, w') \<longleftrightarrow> m w = (r, w')"
  by (auto simp: try_tx_def split: prod.splits)

lemma uuid_New_ok [tx_simps]:
  "uuid_New w = (Inr u, w') \<longleftrightarrow> u = w_fresh w (w_used w) \<and> w' = w\<lparr>w_used := Suc (w_used w)\<rparr>"
  by (auto simp: uuid_New_def)

lemma time_Now_ok [tx_simps]:
  "time_Now w = (Inr t, w') \<longleftrightarrow> t = w_clock w (w_ticks w) \<and> w' = w\<lparr>w_ticks := Suc (w_ticks w)\<rparr>"
  by (auto simp: time_Now_def)

lemma new_tx_ok [tx_simps]:
  "new_tx w = (Inr u, w') \<longleftrightarrow> w' = w\<lparr>w_txs := Suc (w_txs w)\<rparr>"
  by (auto simp: new_tx_def)

lemma stmt_ok [tx_simps]:
  "stmt f w = (Inr x, w') \<longleftrightarrow>
     healthy w \<and>
     (\<exists>d. f w (w_db w) = Inr (x, d) \<and> w' = w\<lparr>w_faults := tl (w_faults w), w_db := d\<rparr>)"
  by (auto simp: stmt_def healthy_def split: list.splits option.splits sum.splits prod.splits)

lemma query_ok [tx_simps]:
  "query f w = (Inr x, w') \<longleftrightarrow>
     healthy w \<and> x = f w (w_db w) \<and> w' = w\<lparr>w_faults := tl (w_faults w)\<rparr>"
  unfolding query_def stmt_ok by (auto intro: world.equality)

lemma commit_tx_ok [tx_simps]: "commit_tx x w = (Inr y, w') \<longleftrightarrow> y = Commit x \<and> w' = w"
  by (auto simp: commit_tx_def tx_simps)

lemma abort_tx_ok [tx_simps]: "abort_tx x w = (Inr y, w') \<longleftrightarrow> y = Abort x \<and> w' = w"
  by (auto simp: abort_tx_def tx_simps)

text \<open>The world in which the body of a transaction starts.\<close>

definition begun :: "'d world \<Rightarrow> 'd world" where
  "begun w = w\<lparr>w_txs := Suc (w_txs w), w_faults := tl (w_faults w)\<rparr>"

lemma begun_sel [simp]:
  "w_db (begun w) = w_db w"
  "w_fresh (begun w) = w_fresh w"
  "w_used (begun w) = w_used w"
  "w_clock (begun w) = w_clock w"
  "w_ticks (begun w) = w_ticks w"
  "w_faults (begun w) = tl (w_faults w)"
  "w_txs (begun w) = Suc (w_txs w)"
  by (simp_all add: begun_def)

lemma healthy_txs [simp]: "healthy (w\<lparr>w_txs := n\<rparr>) = healthy w"
  by (simp add: healthy_def)

lemma in_tx_ok:
  "in_tx body w = (Inr x, w') \<longleftrightarrow>
     healthy w \<and>
     (\<exists>w2. body (begun w) = (Inr (Commit x), w2) \<and> healthy w2 \<and>
           w' = w2\<lparr>w_faults := tl (w_faults w2)\<rparr> \<or>
           body (begun w) = (Inr (Abort x), w2) \<and> w' = w2\<lparr>w_db := w_db w\<rparr>)"
proof -
  have *: "pool_stmt (\<lambda>_ d. Inr ((), d)) w = (Inr (), begun w)" if "healthy w"
    using that by (auto simp: pool_stmt_def begun_def tx_simps intro: world.equality)
  have **: "\<exists>e w1. pool_stmt (\<lambda>_ d. Inr ((), d)) w = (Inl e, w1)" if "\<not> healthy w"
    using that
    by (auto simp: pool_stmt_def bind_tx_def new_tx_def stmt_def healthy_def
        split: list.splits option.splits)
  have ***: "(case stmt (\<lambda>_ d. Inr ((), d)) w2 of
                (Inl e, w3) \<Rightarrow> (Inl e, w3\<lparr>w_db := w_db w\<rparr>) | (Inr _, w3) \<Rightarrow> (Inr y, w3)) = (Inr x, w')
             \<longleftrightarrow> y = x \<and> healthy w2 \<and> w' = w2\<lparr>w_faults := tl (w_faults w2)\<rparr>" for w2 y
    by (auto simp: stmt_def healthy_def split: list.splits option.splits)
  show ?thesis
  proof (cases "healthy w")
    case True
    show ?thesis
      unfolding in_tx_def * [OF True] using True
      by (auto simp: *** split: prod.splits sum.splits tx_end.splits)
  next
    case False
    then show ?thesis
      using ** [OF False] by (auto simp: in_tx_def)
  qed
qed

lemma in_txE:
  assumes "in_tx body w = (Inr x, w')"
    and "\<And>y w2. body (begun w) \<noteq> (Inr (Abort y), w2)"
  obtains w2 where "body (begun w) = (Inr (Commit x), w2)" and "w_db w' = w_db w2"
  using assms by (auto simp: in_tx_ok)

section \<open>Atomicity and invariants\<close>

text \<open>An error leaves the database as it was.\<close>

definition atomic_tx :: "('d, 'a) tx \<Rightarrow> bool" where
  "atomic_tx m \<longleftrightarrow> (\<forall>w e w'. m w = (Inl e, w') \<longrightarrow> w_db w' = w_db w)"

lemma atomic_stmt: "atomic_tx (stmt f)"
  by (auto simp: atomic_tx_def stmt_def split: list.splits option.splits sum.splits prod.splits)

lemma atomic_pool_stmt: "atomic_tx (pool_stmt f)"
  using atomic_stmt [of f]
  by (auto simp: atomic_tx_def pool_stmt_def bind_tx_def new_tx_def)

lemma atomic_in_tx: "atomic_tx (in_tx body)"
  using atomic_pool_stmt [of "\<lambda>_ d. Inr ((), d)"]
  by (auto simp: atomic_tx_def in_tx_def split: prod.splits sum.splits tx_end.splits)

lemma atomic_txD: "atomic_tx m \<Longrightarrow> m w = (Inl e, w') \<Longrightarrow> w_db w' = w_db w"
  by (simp add: atomic_tx_def)

text \<open>A function that keeps a property of the database whatever its outcome.\<close>

definition keeps :: "('d \<Rightarrow> bool) \<Rightarrow> ('d, 'a) tx \<Rightarrow> bool" where
  "keeps I m \<longleftrightarrow> (\<forall>w r w'. I (w_db w) \<longrightarrow> m w = (r, w') \<longrightarrow> I (w_db w'))"

lemma keepsI:
  assumes "atomic_tx m"
    and "\<And>w x w'. I (w_db w) \<Longrightarrow> m w = (Inr x, w') \<Longrightarrow> I (w_db w')"
  shows "keeps I m"
  unfolding keeps_def
proof (intro allI impI)
  fix w r w'
  assume I: "I (w_db w)" and m: "m w = (r, w')"
  show "I (w_db w')"
  proof (cases r)
    case (Inl e)
    with m have "m w = (Inl e, w')" by simp
    from atomic_txD [OF assms(1) this] I show ?thesis by simp
  next
    case (Inr x)
    with m I assms(2) show ?thesis by blast
  qed
qed

lemma keepsD: "keeps I m \<Longrightarrow> I (w_db w) \<Longrightarrow> m w = (r, w') \<Longrightarrow> I (w_db w')"
  by (auto simp: keeps_def)

lemma for_tx_ok [tx_simps]:
  "for_tx body (x # xs) w = (Inr ys, w') \<longleftrightarrow>
     (\<exists>y zs w1. body x w = (Inr y, w1) \<and> for_tx body xs w1 = (Inr zs, w') \<and> ys = y # zs)"
  "for_tx body [] w = (Inr ys, w') \<longleftrightarrow> ys = [] \<and> w' = w"
  by (auto simp: tx_simps)

text \<open>Induction over the iterations of a loop that ran to its end.\<close>

lemma for_tx_induct:
  assumes "for_tx body xs w = (Inr ys, w')"
    and "P xs w"
    and "\<And>x xs w y w1. P (x # xs) w \<Longrightarrow> body x w = (Inr y, w1) \<Longrightarrow> P xs w1"
  shows "P [] w'"
  using assms(1,2)
proof (induction xs arbitrary: w ys)
  case Nil
  then show ?case by (simp add: tx_simps)
next
  case (Cons x xs)
  then show ?case
    using assms(3) by (fastforce simp: tx_simps)
qed

end
