(* ===== verification/Job_Model.thy ===== *)
theory Job_Model
  imports Engine Pg_Tx "HOL-Library.Product_Lexorder"
begin

text \<open>
  The data of the job package (internal/job/model.go, internal/job/dto.go) and the tables of the
  migrations.  A struct is a record with the fields in the order of the source.  The columns a row
  of \<open>jobs\<close> shares with the Go struct \<open>Job\<close> are the record \<open>job_cols\<close>; the struct adds the two
  claim fields that are never stored, the row adds the column that is never scanned.
\<close>

section \<open>Statuses\<close>

datatype Status =
    StatusPending
  | StatusScheduled
  | StatusRunning
  | StatusSucceeded
  | StatusFailed
  | StatusRetryScheduled
  | StatusDeadLettered
  | StatusCancelled
  | StatusPaused

primrec status_string :: "Status \<Rightarrow> string" where
  "status_string StatusPending = ''PENDING''"
| "status_string StatusScheduled = ''SCHEDULED''"
| "status_string StatusRunning = ''RUNNING''"
| "status_string StatusSucceeded = ''SUCCEEDED''"
| "status_string StatusFailed = ''FAILED''"
| "status_string StatusRetryScheduled = ''RETRY_SCHEDULED''"
| "status_string StatusDeadLettered = ''DEAD_LETTERED''"
| "status_string StatusCancelled = ''CANCELLED''"
| "status_string StatusPaused = ''PAUSED''"

lemma status_string_inj [simp]: "status_string s = status_string t \<longleftrightarrow> s = t"
  by (cases s; cases t) simp_all

text \<open>The transition table of the scheduler package, read on the persisted statuses.\<close>

definition can_move :: "Status \<Rightarrow> Status \<Rightarrow> bool" where
  "can_move s t \<longleftrightarrow> CanTransition (status_string s) (status_string t)"

lemma can_move_simps [simp]:
  "can_move StatusPending t \<longleftrightarrow> t \<in> {StatusRunning, StatusCancelled, StatusPaused}"
  "can_move StatusScheduled t \<longleftrightarrow> t \<in> {StatusRunning, StatusCancelled, StatusPaused}"
  "can_move StatusRunning t \<longleftrightarrow>
     t \<in> {StatusSucceeded, StatusFailed, StatusRetryScheduled, StatusDeadLettered, StatusCancelled}"
  "can_move StatusFailed t \<longleftrightarrow> t \<in> {StatusRetryScheduled, StatusDeadLettered}"
  "can_move StatusRetryScheduled t \<longleftrightarrow> t \<in> {StatusRunning, StatusCancelled, StatusDeadLettered}"
  "can_move StatusPaused t \<longleftrightarrow> t = StatusScheduled"
  "can_move StatusDeadLettered t \<longleftrightarrow> t = StatusRetryScheduled"
  "can_move StatusSucceeded t \<longleftrightarrow> False"
  "can_move StatusCancelled t \<longleftrightarrow> False"
  by (cases t; simp add: can_move_def CanTransition_def transitions_def)+

section \<open>Jobs\<close>

record job_cols =
  j_ID :: uuid
  j_TenantID :: uuid
  j_Name :: string
  j_JobType :: string
  j_Payload :: json
  j_Status :: Status
  j_Priority :: int
  j_RunAt :: time
  j_LockedUntil :: "time option"
  j_LockedBy :: "string option"
  j_RetryCount :: int
  j_MaxRetries :: int
  j_RetryBackoffSeconds :: int
  j_TimeoutSeconds :: int
  j_LastError :: "string option"
  j_CreatedBy :: "string option"
  j_CreatedAt :: time
  j_UpdatedAt :: time
  j_CompletedAt :: "time option"
  j_FailedAt :: "time option"
  j_CancelledAt :: "time option"
  j_IdempotencyKey :: "string option"
  j_RequestHash :: "string option"

record Job = job_cols +
  j_ActiveAttemptID :: uuid
  j_AttemptNumber :: int

record jobs_row = job_cols +
  r_SourceDeadLetterID :: "uuid option"

text \<open>\<open>scanJob\<close>: the columns of a row, with the claim fields at their zero values.\<close>

definition scanJob :: "jobs_row \<Rightarrow> Job" where
  "scanJob r = job_cols.extend (job_cols.truncate r)
     (Job.fields uuid_Nil 0)"

section \<open>Attempts, dead letters, events\<close>

datatype attempt_status = AttemptRunning | AttemptSucceeded | AttemptFailed | AttemptCancelled

record Attempt =
  a_ID :: uuid
  a_JobID :: uuid
  a_WorkerID :: string
  a_AttemptNumber :: int
  a_Status :: attempt_status
  a_StartedAt :: time
  a_CompletedAt :: "time option"
  a_FailedAt :: "time option"
  a_ErrorMessage :: "string option"
  a_ExecutionDurationMS :: "int option"
  a_CreatedAt :: time
  a_Result :: "json option"
  a_ErrorCode :: "string option"
  a_Retryable :: "bool option"

record attempts_row = Attempt +
  a_TenantID :: uuid

record DeadLetterJob =
  d_ID :: uuid
  d_OriginalJobID :: uuid
  d_Name :: string
  d_JobType :: string
  d_Payload :: json
  d_FinalError :: string
  d_RetryCount :: int
  d_FailedAt :: time
  d_CreatedAt :: time
  d_TenantID :: uuid
  d_RequeuedAt :: "time option"
  d_RequeuedJobID :: "uuid option"

text \<open>
  The payload of an event is the map given to \<open>insertJobEvent\<close>; its values are of the few types
  the callers use.
\<close>

datatype jval =
    JStr string
  | JInt int
  | JBool bool
  | JTime time
  | JUuid uuid
  | JStatus Status

type_synonym event_payload = "(string \<times> jval) list"

record Event =
  e_ID :: uuid
  e_JobID :: uuid
  e_TenantID :: uuid
  e_EventType :: string
  e_Source :: string
  e_SchemaVersion :: int
  e_CorrelationID :: "string option"
  e_CausationID :: "uuid option"
  e_Payload :: event_payload
  e_CreatedAt :: time
  e_PublishedAt :: "time option"
  e_PublishAttempts :: int
  e_LastPublishError :: "string option"

record events_row = Event +
  e_NextPublishAt :: time
  e_ClaimedBy :: "string option"
  e_ClaimedUntil :: "time option"

record ExecutionResult =
  x_Metadata :: json
  x_ErrorCode :: string
  x_Retryable :: bool
  x_Message :: string

section \<open>Tenants and API clients\<close>

record tenants_row =
  t_ID :: uuid
  t_Slug :: string
  t_Name :: string
  t_CreatedAt :: time

record api_clients_row =
  c_ID :: uuid
  c_TenantID :: uuid
  c_Name :: string
  c_KeyPrefix :: string
  c_KeyHash :: string
  c_Role :: string
  c_Enabled :: bool
  c_CreatedAt :: time
  c_LastUsedAt :: "time option"
  c_RevokedAt :: "time option"

section \<open>The database\<close>

record db =
  jobs :: "jobs_row list"
  job_attempts :: "attempts_row list"
  dead_letter_jobs :: "DeadLetterJob list"
  job_events :: "events_row list"
  tenants :: "tenants_row list"
  api_clients :: "api_clients_row list"

type_synonym pg_world = "db world"

section \<open>Requests, filters, pages\<close>

record CreateRequest =
  cr_Name :: string
  cr_JobType :: string
  cr_Payload :: json
  cr_RunAt :: time
  cr_Priority :: int
  cr_MaxRetries :: int
  cr_RetryBackoffSeconds :: int
  cr_TimeoutSeconds :: int
  cr_IdempotencyKey :: string

record CreateResponse =
  resp_JobID :: uuid
  resp_Status :: Status
  resp_Replayed :: bool

record ListFilter =
  lf_Status :: string
  lf_JobType :: string
  lf_Page :: int
  lf_PageSize :: int
  lf_Sort :: string
  lf_Order :: string
  lf_CreatedAfter :: "time option"
  lf_CreatedBefore :: "time option"

record Page =
  pg_Items :: "Job list"
  pg_Page :: int
  pg_PageSize :: int
  pg_Total :: nat

section \<open>Selecting the columns of a scanned row\<close>

lemma scanJob_sel [simp]:
  "j_ID (scanJob r) = j_ID r"
  "j_TenantID (scanJob r) = j_TenantID r"
  "j_Name (scanJob r) = j_Name r"
  "j_JobType (scanJob r) = j_JobType r"
  "j_Payload (scanJob r) = j_Payload r"
  "j_Status (scanJob r) = j_Status r"
  "j_Priority (scanJob r) = j_Priority r"
  "j_RunAt (scanJob r) = j_RunAt r"
  "j_LockedUntil (scanJob r) = j_LockedUntil r"
  "j_LockedBy (scanJob r) = j_LockedBy r"
  "j_RetryCount (scanJob r) = j_RetryCount r"
  "j_MaxRetries (scanJob r) = j_MaxRetries r"
  "j_RetryBackoffSeconds (scanJob r) = j_RetryBackoffSeconds r"
  "j_TimeoutSeconds (scanJob r) = j_TimeoutSeconds r"
  "j_CreatedAt (scanJob r) = j_CreatedAt r"
  "j_IdempotencyKey (scanJob r) = j_IdempotencyKey r"
  "j_RequestHash (scanJob r) = j_RequestHash r"
  "j_ActiveAttemptID (scanJob r) = uuid_Nil"
  "j_AttemptNumber (scanJob r) = 0"
  by (simp_all add: scanJob_def job_cols.defs Job.defs)

end
