(* ===== verification/Repository.thy ===== *)
theory Repository
  imports Job_Model
begin

text \<open>
  internal/job/repository.go: every method of \<open>PostgresRepository\<close>, statement by statement, on the
  tables of \<open>Job_Model\<close> and the transactions of \<open>Pg_Tx\<close>.  The effect of a statement literal is
  written as an update of the rows its \<open>WHERE\<close> clause selects; the constraints of the migrations
  (primary keys, the unique tenant and idempotency key index, the tenant foreign key, the range
  of \<open>INT\<close> columns) are branches of the inserting statements.  A comparison with a NULL column is not
  true, so \<open>locked_by=$2\<close> is \<open>j_LockedBy r = Some w\<close>.
\<close>

section \<open>SQLSTATE values the code or the schema can produce\<close>

abbreviation unique_violation :: go_error where
  "unique_violation \<equiv> PgError ''duplicate key value violates unique constraint'' ''23505''"

abbreviation foreign_key_violation :: go_error where
  "foreign_key_violation \<equiv> PgError ''insert or update violates foreign key constraint'' ''23503''"

abbreviation numeric_out_of_range :: go_error where
  "numeric_out_of_range \<equiv> PgError ''integer out of range'' ''22003''"

abbreviation negative_limit :: go_error where
  "negative_limit \<equiv> PgError ''LIMIT must not be negative'' ''2201W''"

abbreviation negative_offset :: go_error where
  "negative_offset \<equiv> PgError ''OFFSET must not be negative'' ''2201X''"

section \<open>Statement shapes\<close>

definition update_jobs ::
  "(jobs_row \<Rightarrow> bool) \<Rightarrow> (time \<Rightarrow> jobs_row \<Rightarrow> jobs_row) \<Rightarrow> (db, nat) tx" where
  "update_jobs P f = stmt (\<lambda>w d.
     Inr (rows_affected P (jobs d), d\<lparr>jobs := upd_where P (f (w_now w)) (jobs d)\<rparr>))"

definition update_attempts ::
  "(attempts_row \<Rightarrow> bool) \<Rightarrow> (time \<Rightarrow> attempts_row \<Rightarrow> attempts_row) \<Rightarrow> (db, nat) tx" where
  "update_attempts P f = stmt (\<lambda>w d.
     Inr (rows_affected P (job_attempts d),
          d\<lparr>job_attempts := upd_where P (f (w_now w)) (job_attempts d)\<rparr>))"

definition update_dead_letters ::
  "(DeadLetterJob \<Rightarrow> bool) \<Rightarrow> (time \<Rightarrow> DeadLetterJob \<Rightarrow> DeadLetterJob) \<Rightarrow> (db, nat) tx" where
  "update_dead_letters P f = stmt (\<lambda>w d.
     Inr (rows_affected P (dead_letter_jobs d),
          d\<lparr>dead_letter_jobs := upd_where P (f (w_now w)) (dead_letter_jobs d)\<rparr>))"

text \<open>Binding a Go \<open>int\<close> to an \<open>INT\<close> parameter.\<close>

definition bind_int4 :: "int list \<Rightarrow> (db, unit) tx" where
  "bind_int4 ns = (if list_all int4 ns then return_tx () else fail_tx numeric_out_of_range)"

section \<open>validator.go: initialStatus\<close>

definition initialStatus :: "time \<Rightarrow> time \<Rightarrow> Status" where
  "initialStatus runAt now = (if now < runAt then StatusScheduled else StatusPending)"

section \<open>Inserting rows\<close>

text \<open>
  \<open>json.Marshal\<close> on the payload maps fails only for a \<open>time.Time\<close> whose year is outside 0 to 9999.
\<close>

definition jval_ok :: "jval \<Rightarrow> bool" where
  "jval_ok v = (case v of
     JTime t \<Rightarrow> - 31622400000000000 \<le> t \<and> t < 315537897600000000000 | _ \<Rightarrow> True)"

definition json_Marshal :: "event_payload \<Rightarrow> go_error + event_payload" where
  "json_Marshal p =
     (if list_all (\<lambda>(k, v). jval_ok v) p then Inr p
      else Inl (ErrorString ''Time.MarshalJSON: year outside of range [0,9999]''))"

definition new_event ::
  "time \<Rightarrow> uuid \<Rightarrow> 'a job_cols_scheme \<Rightarrow> string \<Rightarrow> string \<Rightarrow> event_payload \<Rightarrow> events_row" where
  "new_event now eid j eventType source body =
     \<lparr>e_ID = eid, e_JobID = j_ID j, e_TenantID = j_TenantID j, e_EventType = eventType,
      e_Source = source, e_SchemaVersion = 1, e_CorrelationID = None, e_CausationID = None,
      e_Payload = body, e_CreatedAt = now, e_PublishedAt = None, e_PublishAttempts = 0,
      e_LastPublishError = None, e_NextPublishAt = now, e_ClaimedBy = None, e_ClaimedUntil = None\<rparr>"

definition insertJobEvent ::
  "'a job_cols_scheme \<Rightarrow> string \<Rightarrow> string \<Rightarrow> event_payload \<Rightarrow> (db, unit) tx" where
  "insertJobEvent j eventType source payload =
     (case json_Marshal payload of
        Inl e \<Rightarrow> fail_tx e
      | Inr body \<Rightarrow>
          bind_tx uuid_New (\<lambda>eid. stmt (\<lambda>w d.
            if eid \<in> set (map e_ID (job_events d)) then Inl unique_violation
            else Inr ((), d\<lparr>job_events :=
                   job_events d @ [new_event (w_now w) eid j eventType source body]\<rparr>))))"

definition insert_job :: "(time \<Rightarrow> jobs_row) \<Rightarrow> (db, Job) tx" where
  "insert_job mk = stmt (\<lambda>w d.
     let r = mk (w_now w) in
     if \<not> list_all int4 [j_Priority r, j_RetryCount r, j_MaxRetries r, j_RetryBackoffSeconds r,
                         j_TimeoutSeconds r]
     then Inl numeric_out_of_range
     else if j_ID r \<in> set (map j_ID (jobs d)) \<or>
             j_IdempotencyKey r \<noteq> None \<and>
             (j_TenantID r, j_IdempotencyKey r) \<in>
               set (map (\<lambda>s. (j_TenantID s, j_IdempotencyKey s)) (jobs d))
     then Inl unique_violation
     else if j_TenantID r \<notin> set (map t_ID (tenants d)) then Inl foreign_key_violation
     else Inr (scanJob r, d\<lparr>jobs := jobs d @ [r]\<rparr>))"

text \<open>The row \<open>Create\<close> inserts: the listed columns, the others at their defaults.\<close>

definition create_row :: "Job \<Rightarrow> time \<Rightarrow> jobs_row" where
  "create_row j now =
     \<lparr>j_ID = j_ID j, j_TenantID = j_TenantID j, j_Name = j_Name j, j_JobType = j_JobType j,
      j_Payload = j_Payload j, j_Status = j_Status j, j_Priority = j_Priority j,
      j_RunAt = j_RunAt j, j_LockedUntil = None, j_LockedBy = None,
      j_RetryCount = j_RetryCount j, j_MaxRetries = j_MaxRetries j,
      j_RetryBackoffSeconds = j_RetryBackoffSeconds j, j_TimeoutSeconds = j_TimeoutSeconds j,
      j_LastError = None, j_CreatedBy = j_CreatedBy j, j_CreatedAt = now, j_UpdatedAt = now,
      j_CompletedAt = None, j_FailedAt = None, j_CancelledAt = None,
      j_IdempotencyKey = j_IdempotencyKey j, j_RequestHash = j_RequestHash j,
      r_SourceDeadLetterID = None\<rparr>"

section \<open>Create and the reads\<close>

definition getByIdempotencyKey :: "uuid \<Rightarrow> string \<Rightarrow> (db, Job) tx" where
  "getByIdempotencyKey tenantID key = pool_stmt (\<lambda>w d.
     case find (\<lambda>r. j_TenantID r = tenantID \<and> j_IdempotencyKey r = Some key) (jobs d) of
       None \<Rightarrow> Inl PgxErrNoRows
     | Some r \<Rightarrow> Inr (scanJob r, d))"

text \<open>
  The transaction of \<open>Create\<close>.  A unique violation of a request with an idempotency key leaves it by
  \<open>Rollback\<close>; the existing job is then looked up outside.
\<close>

definition create_body :: "Job \<Rightarrow> (db, Job option tx_end) tx" where
  "create_body j =
     bind_tx (try_tx (insert_job (create_row j))) (\<lambda>res.
       case res of
         Inl err \<Rightarrow>
           if pg_code_is ''23505'' err \<and> j_IdempotencyKey j \<noteq> None then abort_tx None
           else fail_tx err
       | Inr inserted \<Rightarrow>
           bind_tx (insertJobEvent inserted ''job.created'' ''scheduler-api''
                      [(''status'', JStatus (j_Status inserted)),
                       (''run_at'', JTime (j_RunAt inserted)),
                       (''priority'', JInt (j_Priority inserted))]) (\<lambda>_.
           commit_tx (Some inserted)))"

definition Create :: "Job \<Rightarrow> (db, Job) tx" where
  "Create j =
     bind_tx (in_tx (create_body j)) (\<lambda>outcome.
       case outcome of
         Some inserted \<Rightarrow> return_tx inserted
       | None \<Rightarrow>
           bind_tx (getByIdempotencyKey (j_TenantID j) (the (j_IdempotencyKey j))) (\<lambda>existing.
           if j_RequestHash existing = None \<or> j_RequestHash j = None \<or>
              j_RequestHash existing \<noteq> j_RequestHash j
           then fail_tx ErrIdempotency
           else return_tx existing))"

definition normalizePage :: "int \<Rightarrow> int" where
  "normalizePage page = (if page < 1 then 1 else page)"

definition normalizePageSize :: "int \<Rightarrow> int" where
  "normalizePageSize pageSize =
     (if pageSize < 1 then 20 else if pageSize > 100 then 100 else pageSize)"

definition list_matches :: "uuid \<Rightarrow> ListFilter \<Rightarrow> jobs_row \<Rightarrow> bool" where
  "list_matches tenantID f r \<longleftrightarrow>
     j_TenantID r = tenantID \<and>
     (lf_Status f = '''' \<or> status_string (j_Status r) = lf_Status f) \<and>
     (lf_JobType f = '''' \<or> j_JobType r = lf_JobType f) \<and>
     (case lf_CreatedAfter f of None \<Rightarrow> True | Some t \<Rightarrow> t \<le> j_CreatedAt r) \<and>
     (case lf_CreatedBefore f of None \<Rightarrow> True | Some t \<Rightarrow> j_CreatedAt r \<le> t)"

text \<open>
  \<open>ORDER BY\<close> is assembled from the filter's text.  The three columns the service lets through
  are modelled; any other text is outside the model and ends in an error value.
\<close>

definition sort_column :: "string \<Rightarrow> (jobs_row \<Rightarrow> int) option" where
  "sort_column s =
     (if s = ''created_at'' then Some j_CreatedAt
      else if s = ''run_at'' then Some j_RunAt
      else if s = ''priority'' then Some j_Priority
      else None)"

definition order_rows :: "(jobs_row \<Rightarrow> int) \<Rightarrow> string \<Rightarrow> jobs_row list \<Rightarrow> jobs_row list" where
  "order_rows col ord rs =
     (let asc = sort_key (\<lambda>r. (col r, j_ID r)) rs in if ord = ''desc'' then rev asc else asc)"

definition limit_offset :: "int \<Rightarrow> int \<Rightarrow> 'a list \<Rightarrow> go_error + 'a list" where
  "limit_offset limit offset xs =
     (if limit < 0 then Inl negative_limit
      else if offset < 0 then Inl negative_offset
      else Inr (take (nat limit) (drop (nat offset) xs)))"

definition List :: "uuid \<Rightarrow> ListFilter \<Rightarrow> (db, Page) tx" where
  "List tenantID filt =
     (let page = normalizePage (lf_Page filt);
          pageSize = normalizePageSize (lf_PageSize filt);
          offset = wrap64 ((page - 1) * pageSize)
      in bind_tx (pool_query (\<lambda>w d. length (filter (list_matches tenantID filt) (jobs d)))) (\<lambda>total.
         bind_tx (pool_stmt (\<lambda>w d.
           case sort_column (lf_Sort filt) of
             None \<Rightarrow> Inl (ErrorString ''ORDER BY text outside the model'')
           | Some col \<Rightarrow>
               (case limit_offset pageSize offset
                       (order_rows col (lf_Order filt)
                          (filter (list_matches tenantID filt) (jobs d))) of
                  Inl e \<Rightarrow> Inl e
                | Inr rs \<Rightarrow> Inr (map scanJob rs, d)))) (\<lambda>items.
         return_tx \<lparr>pg_Items = items, pg_Page = page, pg_PageSize = pageSize, pg_Total = total\<rparr>)))"

definition GetByID :: "uuid \<Rightarrow> uuid \<Rightarrow> (db, Job) tx" where
  "GetByID tenantID jobID = pool_stmt (\<lambda>w d.
     case find (\<lambda>r. j_TenantID r = tenantID \<and> j_ID r = jobID) (jobs d) of
       None \<Rightarrow> Inl ErrNotFound
     | Some r \<Rightarrow> Inr (scanJob r, d))"

definition ListAttempts :: "uuid \<Rightarrow> uuid \<Rightarrow> (db, Attempt list) tx" where
  "ListAttempts tenantID jobID = pool_query (\<lambda>w d.
     map Attempt.truncate
       (sort_key a_AttemptNumber
          (filter (\<lambda>a. a_TenantID a = tenantID \<and> a_JobID a = jobID) (job_attempts d))))"

definition ListEvents :: "uuid \<Rightarrow> uuid \<Rightarrow> (db, Event list) tx" where
  "ListEvents tenantID jobID = pool_query (\<lambda>w d.
     map Event.truncate
       (sort_key (\<lambda>e. (e_CreatedAt e, e_ID e))
          (filter (\<lambda>e. e_TenantID e = tenantID \<and> e_JobID e = jobID) (job_events d))))"


section \<open>Claiming\<close>

definition claimable :: "time \<Rightarrow> jobs_row \<Rightarrow> bool" where
  "claimable now r \<longleftrightarrow>
     j_Status r \<in> {StatusPending, StatusScheduled, StatusRetryScheduled} \<and>
     j_RunAt r \<le> now \<and>
     (case j_LockedUntil r of None \<Rightarrow> True | Some t \<Rightarrow> t < now)"

definition claim_key :: "jobs_row \<Rightarrow> int \<times> int \<times> int \<times> uuid" where
  "claim_key r = (- j_Priority r, j_RunAt r, j_CreatedAt r, j_ID r)"

definition select_due :: "time \<Rightarrow> (uuid \<Rightarrow> bool) \<Rightarrow> int \<Rightarrow> jobs_row list \<Rightarrow> jobs_row list" where
  "select_due now locked batchSize rs =
     take (nat batchSize)
       (sort_key claim_key (filter (\<lambda>r. claimable now r \<and> \<not> locked (j_ID r)) rs))"

definition claim_row :: "string \<Rightarrow> duration \<Rightarrow> time \<Rightarrow> jobs_row \<Rightarrow> jobs_row" where
  "claim_row workerID lockTTL now r =
     r\<lparr>j_Status := StatusRunning, j_LockedBy := Some workerID,
       j_LockedUntil := Some (now + interval_seconds (duration_Seconds lockTTL)),
       j_UpdatedAt := now\<rparr>"

definition running_attempt ::
  "time \<Rightarrow> uuid \<Rightarrow> uuid \<Rightarrow> uuid \<Rightarrow> string \<Rightarrow> int \<Rightarrow> attempts_row" where
  "running_attempt now aid jobID tenantID workerID attemptNumber =
     \<lparr>a_ID = aid, a_JobID = jobID, a_WorkerID = workerID, a_AttemptNumber = attemptNumber,
      a_Status = AttemptRunning, a_StartedAt = now, a_CompletedAt = None, a_FailedAt = None,
      a_ErrorMessage = None, a_ExecutionDurationMS = None, a_CreatedAt = now, a_Result = None,
      a_ErrorCode = None, a_Retryable = None, a_TenantID = tenantID\<rparr>"

definition insert_attempt :: "(time \<Rightarrow> attempts_row) \<Rightarrow> (db, attempts_row) tx" where
  "insert_attempt mk = stmt (\<lambda>w d.
     let a = mk (w_now w) in
     if \<not> int4 (a_AttemptNumber a) then Inl numeric_out_of_range
     else if a_ID a \<in> set (map a_ID (job_attempts d)) then Inl unique_violation
     else Inr (a, d\<lparr>job_attempts := job_attempts d @ [a]\<rparr>))"

text \<open>The claim fields of \<open>items[i]\<close>, and one iteration of the claim loop.\<close>

definition claimed_job :: "string \<Rightarrow> duration \<Rightarrow> time \<Rightarrow> uuid \<Rightarrow> Job \<Rightarrow> Job" where
  "claimed_job workerID lockTTL t aid j =
     j\<lparr>j_Status := StatusRunning, j_LockedBy := Some workerID,
       j_LockedUntil := Some (time_Add t lockTTL), j_AttemptNumber := j_RetryCount j + 1,
       j_ActiveAttemptID := aid\<rparr>"

definition claim_one :: "string \<Rightarrow> duration \<Rightarrow> Job \<Rightarrow> (db, Job) tx" where
  "claim_one workerID lockTTL item =
     bind_tx (update_jobs (\<lambda>r. j_ID r = j_ID item) (claim_row workerID lockTTL)) (\<lambda>_.
     bind_tx time_Now (\<lambda>t.
     bind_tx uuid_New (\<lambda>aid.
     let j = claimed_job workerID lockTTL t aid item in
     bind_tx (insert_attempt (\<lambda>now.
       running_attempt now (j_ActiveAttemptID j) (j_ID j) (j_TenantID j) workerID
         (j_AttemptNumber j))) (\<lambda>_.
     bind_tx (insertJobEvent j ''job.started'' ''worker''
       [(''worker_id'', JStr workerID), (''attempt_number'', JInt (j_AttemptNumber j))]) (\<lambda>_.
     return_tx j)))))"

definition ClaimDueJobs :: "string \<Rightarrow> int \<Rightarrow> duration \<Rightarrow> (db, Job list) tx" where
  "ClaimDueJobs workerID batchSize lockTTL =
     in_tx
       (bind_tx (stmt (\<lambda>w d.
          if batchSize < 0 then Inl negative_limit
          else Inr (map scanJob (select_due (w_now w) (skip_locked w) batchSize (jobs d)), d)))
        (\<lambda>items.
        bind_tx (for_tx (claim_one workerID lockTTL) items) (\<lambda>claimed.
        commit_tx claimed)))"

section \<open>Finalizing an execution\<close>

definition nullableJSON :: "json \<Rightarrow> json option" where
  "nullableJSON value = (if value = [] then None else Some value)"

definition owned_by :: "uuid \<Rightarrow> string \<Rightarrow> jobs_row \<Rightarrow> bool" where
  "owned_by jobID workerID r \<longleftrightarrow>
     j_ID r = jobID \<and> j_LockedBy r = Some workerID \<and> j_Status r = StatusRunning"

definition succeed_row :: "time \<Rightarrow> jobs_row \<Rightarrow> jobs_row" where
  "succeed_row now r =
     r\<lparr>j_Status := StatusSucceeded, j_CompletedAt := Some now, j_LockedBy := None,
       j_LockedUntil := None, j_UpdatedAt := now\<rparr>"

definition CompleteExecution :: "Job \<Rightarrow> string \<Rightarrow> duration \<Rightarrow> json \<Rightarrow> (db, unit) tx" where
  "CompleteExecution j workerID dur result =
     in_tx
       (bind_tx (update_jobs
          (\<lambda>r. owned_by (j_ID j) workerID r \<and> j_TenantID r = j_TenantID j) succeed_row) (\<lambda>n.
        if n = 0 then fail_tx ErrConflict else
        bind_tx (update_attempts
          (\<lambda>a. a_ID a = j_ActiveAttemptID j \<and> a_Status a = AttemptRunning)
          (\<lambda>now a. a\<lparr>a_Status := AttemptSucceeded, a_CompletedAt := Some now,
                     a_ExecutionDurationMS := Some (duration_Milliseconds dur),
                     a_Result := nullableJSON result\<rparr>)) (\<lambda>m.
        if m = 0 then fail_tx ErrConflict else
        bind_tx (insertJobEvent j ''job.completed'' ''worker''
          [(''worker_id'', JStr workerID),
           (''execution_duration_ms'', JInt (duration_Milliseconds dur))]) (\<lambda>_.
        commit_tx ()))))"

definition retry_row :: "int \<Rightarrow> time \<Rightarrow> string \<Rightarrow> time \<Rightarrow> jobs_row \<Rightarrow> jobs_row" where
  "retry_row nextRetryCount nextRunAt message now r =
     r\<lparr>j_Status := StatusRetryScheduled, j_RetryCount := nextRetryCount, j_RunAt := nextRunAt,
       j_LastError := Some message, j_FailedAt := Some now, j_LockedBy := None,
       j_LockedUntil := None, j_UpdatedAt := now\<rparr>"

definition dead_letter_row :: "int \<Rightarrow> string \<Rightarrow> time \<Rightarrow> jobs_row \<Rightarrow> jobs_row" where
  "dead_letter_row nextRetryCount message now r =
     r\<lparr>j_Status := StatusDeadLettered, j_RetryCount := nextRetryCount,
       j_LastError := Some message, j_FailedAt := Some now, j_LockedBy := None,
       j_LockedUntil := None, j_UpdatedAt := now\<rparr>"

definition new_dead_letter ::
  "time \<Rightarrow> uuid \<Rightarrow> 'a job_cols_scheme \<Rightarrow> uuid \<Rightarrow> string \<Rightarrow> int \<Rightarrow> DeadLetterJob" where
  "new_dead_letter now did j tenantID message retryCount =
     \<lparr>d_ID = did, d_OriginalJobID = j_ID j, d_Name = j_Name j, d_JobType = j_JobType j,
      d_Payload = j_Payload j, d_FinalError = message, d_RetryCount = retryCount,
      d_FailedAt = now, d_CreatedAt = now, d_TenantID = tenantID, d_RequeuedAt = None,
      d_RequeuedJobID = None\<rparr>"

definition insert_dead_letter :: "(time \<Rightarrow> uuid \<Rightarrow> DeadLetterJob) \<Rightarrow> (db, unit) tx" where
  "insert_dead_letter mk =
     bind_tx uuid_New (\<lambda>did. stmt (\<lambda>w d.
       if did \<in> set (map d_ID (dead_letter_jobs d)) then Inl unique_violation
       else Inr ((), d\<lparr>dead_letter_jobs := dead_letter_jobs d @ [mk (w_now w) did]\<rparr>)))"

definition fail_attempt_row :: "duration \<Rightarrow> ExecutionResult \<Rightarrow> time \<Rightarrow> attempts_row \<Rightarrow> attempts_row"
where
  "fail_attempt_row dur outcome now a =
     a\<lparr>a_Status := AttemptFailed, a_FailedAt := Some now,
       a_ErrorMessage := Some (x_Message outcome), a_ErrorCode := Some (x_ErrorCode outcome),
       a_Retryable := Some (x_Retryable outcome),
       a_ExecutionDurationMS := Some (duration_Milliseconds dur),
       a_Result := nullableJSON (x_Metadata outcome)\<rparr>"

definition FailExecution ::
  "Job \<Rightarrow> string \<Rightarrow> duration \<Rightarrow> ExecutionResult \<Rightarrow> Status \<Rightarrow> int \<Rightarrow> time \<Rightarrow> (db, unit) tx" where
  "FailExecution j workerID dur outcome nextStatus nextRetryCount nextRunAt =
     in_tx
       (bind_tx (update_attempts
          (\<lambda>a. a_ID a = j_ActiveAttemptID j \<and> a_Status a = AttemptRunning)
          (fail_attempt_row dur outcome)) (\<lambda>n.
        if n = 0 then fail_tx ErrConflict else
        bind_tx (insertJobEvent j ''job.failed'' ''worker''
          [(''worker_id'', JStr workerID), (''attempt_number'', JInt (j_AttemptNumber j)),
           (''error'', JStr (x_Message outcome)), (''error_code'', JStr (x_ErrorCode outcome)),
           (''retryable'', JBool (x_Retryable outcome))]) (\<lambda>_.
        bind_tx (bind_int4 [nextRetryCount]) (\<lambda>_.
        if nextStatus = StatusDeadLettered
        then
          bind_tx (update_jobs (owned_by (j_ID j) workerID)
            (dead_letter_row nextRetryCount (x_Message outcome))) (\<lambda>m.
          if m = 0 then fail_tx ErrConflict else
          bind_tx (insert_dead_letter (\<lambda>now did.
            new_dead_letter now did j (j_TenantID j) (x_Message outcome) nextRetryCount)) (\<lambda>_.
          bind_tx (insertJobEvent j ''job.dead_lettered'' ''worker''
            [(''retry_count'', JInt nextRetryCount),
             (''final_error'', JStr (x_Message outcome))]) (\<lambda>_.
          commit_tx ())))
        else
          bind_tx (update_jobs (owned_by (j_ID j) workerID)
            (retry_row nextRetryCount nextRunAt (x_Message outcome))) (\<lambda>m.
          if m = 0 then fail_tx ErrConflict else
          bind_tx (insertJobEvent j ''job.retry_scheduled'' ''worker''
            [(''retry_count'', JInt nextRetryCount), (''next_run_at'', JTime nextRunAt)]) (\<lambda>_.
          commit_tx ()))))))"

definition ExtendLease :: "uuid \<Rightarrow> string \<Rightarrow> duration \<Rightarrow> (db, bool) tx" where
  "ExtendLease jobID workerID ttl =
     bind_tx new_tx (\<lambda>_.
     bind_tx (update_jobs (owned_by jobID workerID)
       (\<lambda>now r. r\<lparr>j_LockedUntil := Some (now + interval_seconds (duration_Seconds ttl)),
                  j_UpdatedAt := now\<rparr>)) (\<lambda>n.
     return_tx (n = 1)))"

definition ReleaseClaim :: "uuid \<Rightarrow> string \<Rightarrow> Status \<Rightarrow> (db, unit) tx" where
  "ReleaseClaim jobID workerID status =
     bind_tx new_tx (\<lambda>_.
     bind_tx (update_jobs (owned_by jobID workerID)
       (\<lambda>now r. r\<lparr>j_Status := status, j_LockedBy := None, j_LockedUntil := None,
                  j_UpdatedAt := now\<rparr>)) (\<lambda>n.
     if n = 0 then fail_tx ErrConflict else return_tx ()))"

section \<open>Compatibility methods\<close>

definition CreateAttempt :: "uuid \<Rightarrow> string \<Rightarrow> int \<Rightarrow> (db, Attempt) tx" where
  "CreateAttempt jobID workerID attemptNumber =
     bind_tx uuid_New (\<lambda>aid. pool_stmt (\<lambda>w d.
       if \<not> int4 attemptNumber then Inl numeric_out_of_range
       else
         (case find (\<lambda>r. j_ID r = jobID) (jobs d) of
            None \<Rightarrow> Inl PgxErrNoRows
          | Some r \<Rightarrow>
              if aid \<in> set (map a_ID (job_attempts d)) then Inl unique_violation
              else
                (let a = running_attempt (w_now w) aid jobID (j_TenantID r) workerID attemptNumber
                 in Inr (Attempt.truncate a, d\<lparr>job_attempts := job_attempts d @ [a]\<rparr>)))))"

definition CompleteAttempt :: "uuid \<Rightarrow> duration \<Rightarrow> (db, unit) tx" where
  "CompleteAttempt attemptID dur =
     bind_tx new_tx (\<lambda>_.
     bind_tx (update_attempts (\<lambda>a. a_ID a = attemptID)
       (\<lambda>now a. a\<lparr>a_Status := AttemptSucceeded, a_CompletedAt := Some now,
                  a_ExecutionDurationMS := Some (duration_Milliseconds dur)\<rparr>)) (\<lambda>_.
     return_tx ()))"

definition FailAttempt :: "uuid \<Rightarrow> duration \<Rightarrow> string \<Rightarrow> (db, unit) tx" where
  "FailAttempt attemptID dur message =
     bind_tx new_tx (\<lambda>_.
     bind_tx (update_attempts (\<lambda>a. a_ID a = attemptID)
       (\<lambda>now a. a\<lparr>a_Status := AttemptFailed, a_FailedAt := Some now,
                  a_ErrorMessage := Some message,
                  a_ExecutionDurationMS := Some (duration_Milliseconds dur)\<rparr>)) (\<lambda>_.
     return_tx ()))"

definition MarkSucceeded :: "uuid \<Rightarrow> (db, unit) tx" where
  "MarkSucceeded jobID =
     bind_tx new_tx (\<lambda>_. bind_tx (update_jobs (\<lambda>r. j_ID r = jobID) succeed_row) (\<lambda>_.
     return_tx ()))"

definition MarkSucceededByWorker :: "uuid \<Rightarrow> string \<Rightarrow> (db, unit) tx" where
  "MarkSucceededByWorker jobID workerID =
     bind_tx new_tx (\<lambda>_. bind_tx (update_jobs (owned_by jobID workerID) succeed_row) (\<lambda>n.
     if n = 0 then fail_tx ErrConflict else return_tx ()))"

definition MarkFailedForRetry :: "Job \<Rightarrow> string \<Rightarrow> time \<Rightarrow> (db, unit) tx" where
  "MarkFailedForRetry j message nextRunAt =
     bind_tx new_tx (\<lambda>_.
     bind_tx (update_jobs (\<lambda>r. j_ID r = j_ID j)
       (\<lambda>now r. retry_row (j_RetryCount r + 1) nextRunAt message now r)) (\<lambda>_.
     return_tx ()))"

definition MarkFailedForRetryByWorker ::
  "Job \<Rightarrow> string \<Rightarrow> string \<Rightarrow> int \<Rightarrow> time \<Rightarrow> (db, unit) tx" where
  "MarkFailedForRetryByWorker j workerID message nextRetryCount nextRunAt =
     bind_tx new_tx (\<lambda>_.
     bind_tx (bind_int4 [nextRetryCount]) (\<lambda>_.
     bind_tx (update_jobs (owned_by (j_ID j) workerID)
       (retry_row nextRetryCount nextRunAt message)) (\<lambda>n.
     if n = 0 then fail_tx ErrConflict else return_tx ())))"

text \<open>
  Both dead-letter compatibility methods leave \<open>tenant_id\<close> out of the \<open>INSERT\<close>, so the new row gets
  the column default of migration 000005, the default tenant.
\<close>

definition DefaultTenantID :: uuid where
  "DefaultTenantID = 1"

definition MoveToDeadLetter :: "Job \<Rightarrow> string \<Rightarrow> (db, unit) tx" where
  "MoveToDeadLetter j message =
     in_tx
       (bind_tx (update_jobs (\<lambda>r. j_ID r = j_ID j)
          (\<lambda>now r. dead_letter_row (j_RetryCount r) message now r)) (\<lambda>_.
        bind_tx (bind_int4 [j_RetryCount j]) (\<lambda>_.
        bind_tx (insert_dead_letter (\<lambda>now did.
          new_dead_letter now did j DefaultTenantID message (j_RetryCount j))) (\<lambda>_.
        commit_tx ()))))"

definition MoveToDeadLetterByWorker :: "Job \<Rightarrow> string \<Rightarrow> string \<Rightarrow> int \<Rightarrow> (db, unit) tx" where
  "MoveToDeadLetterByWorker j workerID message finalRetryCount =
     in_tx
       (bind_tx (bind_int4 [finalRetryCount]) (\<lambda>_.
        bind_tx (update_jobs (owned_by (j_ID j) workerID)
          (dead_letter_row finalRetryCount message)) (\<lambda>n.
        if n = 0 then fail_tx ErrConflict else
        bind_tx (insert_dead_letter (\<lambda>now did.
          new_dead_letter now did j DefaultTenantID message finalRetryCount)) (\<lambda>_.
        commit_tx ()))))"

section \<open>Operator transitions\<close>

definition transition_row :: "Status \<Rightarrow> time \<Rightarrow> jobs_row \<Rightarrow> jobs_row" where
  "transition_row to now r =
     r\<lparr>j_Status := to, j_UpdatedAt := now,
       j_CancelledAt := (if to = StatusCancelled then Some now else j_CancelledAt r),
       j_LockedBy := None, j_LockedUntil := None\<rparr>"

definition cancel_attempt_row :: "time \<Rightarrow> attempts_row \<Rightarrow> attempts_row" where
  "cancel_attempt_row now a =
     a\<lparr>a_Status := AttemptCancelled, a_FailedAt := Some now,
       a_ErrorMessage := Some ''cancelled by operator'', a_ErrorCode := Some ''CANCELLED'',
       a_Retryable := Some False\<rparr>"

text \<open>\<open>Job{ID: id, TenantID: tenantID}\<close>: every other field at its zero value.\<close>

definition job_ref :: "uuid \<Rightarrow> uuid \<Rightarrow> Job" where
  "job_ref jobID tenantID =
     \<lparr>j_ID = jobID, j_TenantID = tenantID, j_Name = [], j_JobType = [], j_Payload = [],
      j_Status = StatusPending, j_Priority = 0, j_RunAt = 0, j_LockedUntil = None,
      j_LockedBy = None, j_RetryCount = 0, j_MaxRetries = 0, j_RetryBackoffSeconds = 0,
      j_TimeoutSeconds = 0, j_LastError = None, j_CreatedBy = None, j_CreatedAt = 0,
      j_UpdatedAt = 0, j_CompletedAt = None, j_FailedAt = None, j_CancelledAt = None,
      j_IdempotencyKey = None, j_RequestHash = None, j_ActiveAttemptID = uuid_Nil,
      j_AttemptNumber = 0\<rparr>"

definition TransitionJob :: "uuid \<Rightarrow> uuid \<Rightarrow> Status list \<Rightarrow> Status \<Rightarrow> (db, unit) tx" where
  "TransitionJob tenantID jobID from to =
     in_tx
       (bind_tx (update_jobs
          (\<lambda>r. j_TenantID r = tenantID \<and> j_ID r = jobID \<and> j_Status r \<in> set from)
          (transition_row to)) (\<lambda>n.
        if n = 0 then fail_tx ErrInvalidTransition else
        bind_tx
          (if to = StatusCancelled
           then update_attempts (\<lambda>a. a_JobID a = jobID \<and> a_Status a = AttemptRunning)
                  cancel_attempt_row
           else return_tx 0) (\<lambda>_.
        bind_tx (insertJobEvent (job_ref jobID tenantID)
          (''job.'' @ ToLower (status_string to)) ''scheduler-api''
          [(''status'', JStatus to)]) (\<lambda>_.
        commit_tx ()))))"

section \<open>Recovery of expired leases\<close>

definition expired :: "time \<Rightarrow> jobs_row \<Rightarrow> bool" where
  "expired now r \<longleftrightarrow>
     j_Status r = StatusRunning \<and> (case j_LockedUntil r of None \<Rightarrow> False | Some t \<Rightarrow> t < now)"

definition expire_attempt_row :: "string \<Rightarrow> time \<Rightarrow> attempts_row \<Rightarrow> attempts_row" where
  "expire_attempt_row reason now a =
     a\<lparr>a_Status := AttemptFailed, a_FailedAt := Some now, a_ErrorMessage := Some reason,
       a_ErrorCode := Some ''LEASE_EXPIRED'', a_Retryable := Some True\<rparr>"

definition recover_one :: "string \<Rightarrow> Job \<Rightarrow> (db, unit) tx" where
  "recover_one reason j =
     bind_tx (update_attempts (\<lambda>a. a_JobID a = j_ID j \<and> a_Status a = AttemptRunning)
       (expire_attempt_row reason)) (\<lambda>_.
     bind_tx time_Now (\<lambda>t.
     let decision =
       DecideFailure t (j_RetryCount j) (j_MaxRetries j) (j_RetryBackoffSeconds j)
     in bind_tx (bind_int4 [fd_NextRetryCount decision]) (\<lambda>_.
        if fd_Status decision = EngDeadLettered
        then
          bind_tx (update_jobs (\<lambda>r. j_ID r = j_ID j \<and> j_Status r = StatusRunning)
            (dead_letter_row (fd_NextRetryCount decision) reason)) (\<lambda>_.
          bind_tx (insert_dead_letter (\<lambda>now did.
            new_dead_letter now did j (j_TenantID j) reason (fd_NextRetryCount decision))) (\<lambda>_.
          insertJobEvent j ''job.dead_lettered'' ''recovery''
            [(''reason'', JStr reason), (''retry_count'', JInt (fd_NextRetryCount decision))]))
        else
          bind_tx (update_jobs (\<lambda>r. j_ID r = j_ID j \<and> j_Status r = StatusRunning)
            (retry_row (fd_NextRetryCount decision) (fd_NextRunAt decision) reason)) (\<lambda>_.
          insertJobEvent j ''job.retry_scheduled'' ''recovery''
            [(''reason'', JStr reason), (''retry_count'', JInt (fd_NextRetryCount decision)),
             (''next_run_at'', JTime (fd_NextRunAt decision))]))))"

definition RecoverExpiredRunningJobs :: "string \<Rightarrow> (db, nat) tx" where
  "RecoverExpiredRunningJobs reason =
     in_tx
       (bind_tx (query (\<lambda>w d.
          map scanJob
            (filter (\<lambda>r. expired (w_now w) r \<and> \<not> skip_locked w (j_ID r)) (jobs d)))) (\<lambda>items.
        if items = [] then commit_tx 0 else
        bind_tx (for_tx (recover_one reason) items) (\<lambda>_.
        commit_tx (length items))))"

section \<open>Dead letters\<close>

definition ListDeadLetters :: "uuid \<Rightarrow> int \<Rightarrow> int \<Rightarrow> (db, DeadLetterJob list) tx" where
  "ListDeadLetters tenantID page pageSize =
     (let p = normalizePage page; n = normalizePageSize pageSize
      in pool_stmt (\<lambda>w d.
           case limit_offset n (wrap64 ((p - 1) * n))
                  (rev (sort_key (\<lambda>x. (d_CreatedAt x, d_ID x))
                     (filter (\<lambda>x. d_TenantID x = tenantID) (dead_letter_jobs d)))) of
             Inl e \<Rightarrow> Inl e
           | Inr xs \<Rightarrow> Inr (xs, d)))"

definition requeue_row :: "DeadLetterJob \<Rightarrow> uuid \<Rightarrow> uuid \<Rightarrow> Status \<Rightarrow> time \<Rightarrow> time \<Rightarrow> jobs_row" where
  "requeue_row dl newID tenantID status runAt now =
     \<lparr>j_ID = newID, j_TenantID = tenantID, j_Name = d_Name dl, j_JobType = d_JobType dl,
      j_Payload = d_Payload dl, j_Status = status, j_Priority = 5, j_RunAt = runAt,
      j_LockedUntil = None, j_LockedBy = None, j_RetryCount = 0, j_MaxRetries = 3,
      j_RetryBackoffSeconds = 30, j_TimeoutSeconds = 300, j_LastError = None,
      j_CreatedBy = None, j_CreatedAt = now, j_UpdatedAt = now, j_CompletedAt = None,
      j_FailedAt = None, j_CancelledAt = None, j_IdempotencyKey = None, j_RequestHash = None,
      r_SourceDeadLetterID = Some (d_ID dl)\<rparr>"

definition RequeueDeadLetter :: "uuid \<Rightarrow> uuid \<Rightarrow> time \<Rightarrow> (db, Job) tx" where
  "RequeueDeadLetter tenantID deadLetterID runAt =
     in_tx
       (bind_tx (stmt (\<lambda>w d.
          case find (\<lambda>x. d_TenantID x = tenantID \<and> d_ID x = deadLetterID \<and> d_RequeuedAt x = None)
                 (dead_letter_jobs d) of
            None \<Rightarrow> Inl ErrNotFound
          | Some dl \<Rightarrow> Inr (dl, d))) (\<lambda>dl.
        bind_tx uuid_New (\<lambda>newID.
        bind_tx time_Now (\<lambda>t.
        bind_tx (insert_job (requeue_row dl newID tenantID (initialStatus runAt t) runAt))
          (\<lambda>inserted.
        bind_tx (update_dead_letters (\<lambda>x. d_ID x = deadLetterID)
          (\<lambda>now x. x\<lparr>d_RequeuedAt := Some now, d_RequeuedJobID := Some (j_ID inserted)\<rparr>)) (\<lambda>_.
        bind_tx (insertJobEvent inserted ''job.requeued'' ''scheduler-api''
          [(''source_dead_letter_id'', JUuid deadLetterID)]) (\<lambda>_.
        commit_tx inserted)))))))"

end
