(* ===== verification/Auth.thy ===== *)
theory Auth
  imports Repository Complex_Main
begin

text \<open>
  internal/auth: principals and roles (auth.go), the key store \<open>Store\<close> on the tables
  \<open>api_clients\<close> and \<open>tenants\<close>, the HTTP middlewares (middleware.go) and the Redis token bucket
  (rate_limit.go).  SHA-256 with its hex encoding is the argument \<open>sha\<close> of the operations that
  hash a key; nothing is assumed of it except, where a lemma says so, that two given keys do not
  collide.
\<close>

section \<open>Roles and principals\<close>

type_synonym Role = string

abbreviation RoleViewer :: Role where "RoleViewer \<equiv> ''viewer''"
abbreviation RoleOperator :: Role where "RoleOperator \<equiv> ''operator''"
abbreviation RoleAdmin :: Role where "RoleAdmin \<equiv> ''admin''"

record Principal =
  p_ClientID :: uuid
  p_TenantID :: uuid
  p_TenantSlug :: string
  p_ClientName :: string
  p_Role :: Role

text \<open>A request context carries at most one principal.\<close>

type_synonym ctx = "Principal option"

definition WithPrincipal :: "ctx \<Rightarrow> Principal \<Rightarrow> ctx" where
  "WithPrincipal ctx p = Some p"

definition FromContext :: "ctx \<Rightarrow> Principal option" where
  "FromContext ctx = ctx"

definition PrincipalOrDefault :: "ctx \<Rightarrow> Principal" where
  "PrincipalOrDefault ctx =
     (case FromContext ctx of
        Some p \<Rightarrow> p
      | None \<Rightarrow> \<lparr>p_ClientID = uuid_Nil, p_TenantID = DefaultTenantID, p_TenantSlug = ''default'',
                 p_ClientName = ''system'', p_Role = RoleAdmin\<rparr>)"

text \<open>A missing key of the Go map reads as 0.\<close>

definition role_rank :: "Role \<Rightarrow> int" where
  "role_rank r =
     (case map_of [(RoleViewer, 1), (RoleOperator, 2), (RoleAdmin, 3)] r of
        None \<Rightarrow> 0 | Some n \<Rightarrow> n)"

definition Allows :: "Principal \<Rightarrow> Role \<Rightarrow> bool" where
  "Allows p required \<longleftrightarrow> role_rank (p_Role p) \<ge> role_rank required"

section \<open>The key store\<close>

definition HashKey :: "(string \<Rightarrow> string) \<Rightarrow> string \<Rightarrow> string" where
  "HashKey sha key = sha key"

text \<open>The rows of \<open>api_clients JOIN tenants\<close> that the query of \<open>Authenticate\<close> selects.\<close>

definition auth_rows :: "string \<Rightarrow> db \<Rightarrow> (api_clients_row \<times> tenants_row) list" where
  "auth_rows hash d =
     [(c, t). c \<leftarrow> api_clients d, t \<leftarrow> tenants d, t_ID t = c_TenantID c \<and>
        c_KeyHash c = hash \<and> c_Enabled c \<and> c_RevokedAt c = None]"

definition update_clients ::
  "(api_clients_row \<Rightarrow> bool) \<Rightarrow> (time \<Rightarrow> api_clients_row \<Rightarrow> api_clients_row) \<Rightarrow> (db, nat) tx" where
  "update_clients P f = pool_stmt (\<lambda>w d.
     Inr (rows_affected P (api_clients d),
          d\<lparr>api_clients := upd_where P (f (w_now w)) (api_clients d)\<rparr>))"

definition Authenticate :: "(string \<Rightarrow> string) \<Rightarrow> string \<Rightarrow> (db, Principal) tx" where
  "Authenticate sha apiKey =
     (let hash = HashKey sha (TrimSpace apiKey) in
      bind_tx (pool_stmt (\<lambda>w d.
        case auth_rows hash d of
          [] \<Rightarrow> Inl AuthErrUnauthorized
        | (c, t) # _ \<Rightarrow>
            Inr ((\<lparr>p_ClientID = c_ID c, p_TenantID = c_TenantID c, p_TenantSlug = t_Slug t,
                   p_ClientName = c_Name c, p_Role = c_Role c\<rparr>, c_KeyHash c), d)))
        (\<lambda>(prin, storedHash).
      if storedHash \<noteq> hash then fail_tx AuthErrUnauthorized
      else
        bind_tx time_Now (\<lambda>t.
        bind_tx (try_tx (update_clients (\<lambda>c. c_ID c = p_ClientID prin)
                   (\<lambda>_ c. c\<lparr>c_LastUsedAt := Some t\<rparr>))) (\<lambda>_.
        return_tx prin))))"

text \<open>
  The \<open>CHECK\<close>, \<open>UNIQUE\<close> and \<open>REFERENCES\<close> constraints of \<open>api_clients\<close> are branches of the insert.
  \<open>GenerateKey\<close> reads the system's random source; its result is the argument \<open>generated\<close>.
\<close>

abbreviation check_violation :: go_error where
  "check_violation \<equiv> PgError ''new row violates check constraint'' ''23514''"

definition insert_client :: "(time \<Rightarrow> api_clients_row) \<Rightarrow> (db, unit) tx" where
  "insert_client mk = pool_stmt (\<lambda>w d.
     let c = mk (w_now w) in
     if c_Role c \<notin> set [RoleViewer, RoleOperator, RoleAdmin] then Inl check_violation
     else if c_ID c \<in> set (map c_ID (api_clients d)) \<or>
             c_KeyHash c \<in> set (map c_KeyHash (api_clients d)) then Inl unique_violation
     else if c_TenantID c \<notin> set (map t_ID (tenants d)) then Inl foreign_key_violation
     else Inr ((), d\<lparr>api_clients := api_clients d @ [c]\<rparr>))"

definition CreateClient ::
  "(string \<Rightarrow> string) \<Rightarrow> go_error + string \<Rightarrow> uuid \<Rightarrow> string \<Rightarrow> Role \<Rightarrow> string \<Rightarrow> (db, uuid \<times> string) tx"
where
  "CreateClient sha generated tenantID name role suppliedKey =
     (case (if TrimSpace suppliedKey = '''' then generated else Inr (TrimSpace suppliedKey)) of
        Inl e \<Rightarrow> fail_tx e
      | Inr key \<Rightarrow>
          bind_tx uuid_New (\<lambda>clientID.
          bind_tx (try_tx (insert_client (\<lambda>now.
            \<lparr>c_ID = clientID, c_TenantID = tenantID, c_Name = name, c_KeyPrefix = take 14 key,
             c_KeyHash = HashKey sha key, c_Role = role, c_Enabled = True, c_CreatedAt = now,
             c_LastUsedAt = None, c_RevokedAt = None\<rparr>))) (\<lambda>res.
          case res of
            Inl err \<Rightarrow>
              if pg_code_is ''23505'' err \<and> suppliedKey \<noteq> ''''
              then
                pool_stmt (\<lambda>w d.
                  case find (\<lambda>c. c_KeyHash c = HashKey sha key) (api_clients d) of
                    None \<Rightarrow> Inl PgxErrNoRows
                  | Some c \<Rightarrow> Inr ((c_ID c, key), d))
              else fail_tx err
          | Inr _ \<Rightarrow> return_tx (clientID, key))))"

definition RevokeClient :: "uuid \<Rightarrow> (db, unit) tx" where
  "RevokeClient clientID =
     bind_tx (update_clients (\<lambda>c. c_ID c = clientID)
       (\<lambda>now c. c\<lparr>c_Enabled := False, c_RevokedAt := Some now\<rparr>)) (\<lambda>n.
     if n = 0 then fail_tx PgxErrNoRows else return_tx ())"

section \<open>The middlewares\<close>

text \<open>What a middleware does with a request: answer it with an error, or pass it on.\<close>

datatype http_error = HttpError (he_status: int) (he_code: string) (he_message: string)

definition Middleware ::
  "(string \<Rightarrow> string) \<Rightarrow> bool \<Rightarrow> ctx \<Rightarrow> string \<Rightarrow> (db, http_error + ctx) tx" where
  "Middleware sha enabled ctx header =
     (if \<not> enabled then return_tx (Inr (WithPrincipal ctx (PrincipalOrDefault ctx)))
      else
        (let key = TrimSpace header in
         if key = '''' then return_tx (Inl (HttpError 401 ''UNAUTHORIZED'' ''X-API-Key is required''))
         else
           bind_tx (try_tx (Authenticate sha key)) (\<lambda>res.
           case res of
             Inl _ \<Rightarrow> return_tx (Inl (HttpError 401 ''UNAUTHORIZED'' ''invalid API key''))
           | Inr prin \<Rightarrow> return_tx (Inr (WithPrincipal ctx prin)))))"

definition Require :: "Role \<Rightarrow> ctx \<Rightarrow> http_error + unit" where
  "Require role ctx =
     (case FromContext ctx of
        None \<Rightarrow> Inl (HttpError 403 ''FORBIDDEN'' ''insufficient permissions'')
      | Some p \<Rightarrow>
          if Allows p role then Inr ()
          else Inl (HttpError 403 ''FORBIDDEN'' ''insufficient permissions''))"

section \<open>The token bucket\<close>

text \<open>
  The Lua script of \<open>Allow\<close> on the hash of one client.  Redis drops the hash 120 seconds after it was
  last written (\<open>EXPIRE\<close>); \<open>clock\<close> is the clock Redis measures that with, \<open>now\<close> the argument
  the API process passes.  Lua computes with doubles; the model computes exactly, in \<open>rat\<close>.
\<close>

record bucket =
  b_tokens :: rat
  b_updated :: rat
  b_expires :: rat

definition NewRateLimiter :: "int \<Rightarrow> int" where
  "NewRateLimiter perMinute = (if perMinute < 1 then 120 else perMinute)"

definition bucket_read :: "rat \<Rightarrow> bucket option \<Rightarrow> bucket option" where
  "bucket_read clock st =
     (case st of None \<Rightarrow> None | Some b \<Rightarrow> if clock < b_expires b then Some b else None)"

definition Allow :: "int \<Rightarrow> rat \<Rightarrow> rat \<Rightarrow> bucket option \<Rightarrow> bool \<times> bucket option" where
  "Allow cap clock now st =
     (let capacity = rat_of_int cap; rate = capacity / 60; values = bucket_read clock st;
          tokens = (case values of None \<Rightarrow> capacity | Some b \<Rightarrow> b_tokens b);
          updated = (case values of None \<Rightarrow> now | Some b \<Rightarrow> b_updated b);
          refilled = min capacity (tokens + (now - updated) * rate);
          allowed = (1 \<le> refilled);
          left = (if allowed then refilled - 1 else refilled)
      in (allowed, Some \<lparr>b_tokens = left, b_updated = now, b_expires = clock + 120\<rparr>))"

definition RateLimiter_Middleware ::
  "ctx \<Rightarrow> go_error + bool \<times> duration \<Rightarrow> http_error + unit" where
  "RateLimiter_Middleware ctx allow =
     (case FromContext ctx of
        None \<Rightarrow> Inl (HttpError 401 ''UNAUTHORIZED'' ''authentication required'')
      | Some p \<Rightarrow>
          (case allow of
             Inl e \<Rightarrow> Inl (HttpError 503 ''DEPENDENCY_UNAVAILABLE'' ''rate limiter unavailable'')
           | Inr (allowed, retry) \<Rightarrow>
               if \<not> allowed then Inl (HttpError 429 ''RATE_LIMITED'' ''request rate exceeded'')
               else Inr ()))"

text \<open>A run of requests of one client, at the given instants, from a bucket state.\<close>

fun allow_run :: "int \<Rightarrow> rat list \<Rightarrow> bucket option \<Rightarrow> bool list \<times> bucket option" where
  "allow_run cap [] st = ([], st)"
| "allow_run cap (t # ts) st =
     (let (a, st1) = Allow cap t t st; (as, st2) = allow_run cap ts st1 in (a # as, st2))"

definition granted :: "bool list \<Rightarrow> nat" where
  "granted as = length (filter (\<lambda>a. a) as)"

section \<open>Roles\<close>

lemma role_rank_simps [simp]:
  "role_rank RoleViewer = 1" "role_rank RoleOperator = 2" "role_rank RoleAdmin = 3"
  by (simp_all add: role_rank_def)

lemma role_rank_other:
  "r \<notin> {RoleViewer, RoleOperator, RoleAdmin} \<Longrightarrow> role_rank r = 0"
  by (simp add: role_rank_def)

lemma role_rank_nonneg: "0 \<le> role_rank r"
  by (simp add: role_rank_def)

section \<open>The bucket never holds more than its capacity\<close>

definition bucket_ok :: "int \<Rightarrow> rat \<Rightarrow> bucket option \<Rightarrow> bool" where
  "bucket_ok cap t st =
     (case st of None \<Rightarrow> True
      | Some b \<Rightarrow> 0 \<le> b_tokens b \<and> b_tokens b \<le> rat_of_int cap \<and> b_updated b \<le> t \<and>
          b_expires b = b_updated b + 120)"

text \<open>Tokens available at an instant, whether the hash is still there or not.\<close>

definition available :: "int \<Rightarrow> rat \<Rightarrow> bucket option \<Rightarrow> rat" where
  "available cap t st =
     (case bucket_read t st of
        None \<Rightarrow> rat_of_int cap
      | Some b \<Rightarrow> min (rat_of_int cap) (b_tokens b + (t - b_updated b) * (rat_of_int cap / 60)))"

lemma Allow_available:
  "Allow cap t t st =
     (1 \<le> available cap t st,
      Some \<lparr>b_tokens = available cap t st - (if 1 \<le> available cap t st then 1 else 0),
            b_updated = t, b_expires = t + 120\<rparr>)"
  by (cases "bucket_read t st") (simp_all add: Allow_def available_def Let_def)

lemma available_bounds:
  assumes "bucket_ok cap t st" and "0 \<le> cap"
  shows "0 \<le> available cap t st" and "available cap t st \<le> rat_of_int cap"
proof -
  show "available cap t st \<le> rat_of_int cap"
    by (simp add: available_def split: option.splits)
  show "0 \<le> available cap t st"
  proof (cases "bucket_read t st")
    case (Some b)
    then have "st = Some b" by (simp add: bucket_read_def split: option.splits if_splits)
    with assms Some show ?thesis by (simp add: available_def bucket_ok_def)
  qed (use assms in \<open>simp add: available_def\<close>)
qed

text \<open>
  Between two requests at most \<open>(t' - t) * cap / 60\<close> tokens arrive.  That the hash may expire in
  between changes nothing: 120 seconds refill any bucket.
\<close>

lemma available_later:
  assumes "0 \<le> x" and "t \<le> t'" and "0 \<le> cap"
  shows "available cap t' (Some \<lparr>b_tokens = x, b_updated = t, b_expires = t + 120\<rparr>)
       \<le> x + (t' - t) * (rat_of_int cap / 60)"
proof (cases "t' < t + 120")
  case False
  then have "rat_of_int cap * 120 \<le> rat_of_int cap * (t' - t)"
    using assms by (intro mult_left_mono) simp_all
  then have "rat_of_int cap \<le> (t' - t) * (rat_of_int cap / 60)"
    using assms by (simp add: field_simps)
  with False assms show ?thesis by (simp add: available_def bucket_read_def)
qed (simp add: available_def bucket_read_def)

fun last_from :: "rat \<Rightarrow> rat list \<Rightarrow> rat" where
  "last_from t [] = t"
| "last_from t (u # us) = last_from u us"

lemma allow_run_bound_from:
  assumes "bucket_ok cap t st" and "0 \<le> cap" and "sorted (t # ts)"
    and "\<And>u. t \<le> u \<Longrightarrow> available cap u st \<le> x + (u - t) * (rat_of_int cap / 60)"
  shows "rat_of_nat (granted (fst (allow_run cap ts st)))
       \<le> x + (last_from t ts - t) * (rat_of_int cap / 60) \<or> ts = []"
  using assms
proof (induction ts arbitrary: t st x)
  case Nil
  then show ?case by simp
next
  case (Cons u us)
  let ?av = "available cap u st"
  let ?st = "snd (Allow cap u u st)"
  let ?y = "?av - (if 1 \<le> ?av then 1 else 0)"
  have tu: "t \<le> u" using Cons.prems(3) by simp
  have ok_u: "bucket_ok cap u st"
    using Cons.prems(1) tu by (auto simp: bucket_ok_def split: option.splits)
  note av = available_bounds [OF ok_u Cons.prems(2)]
  have st: "?st = Some \<lparr>b_tokens = ?y, b_updated = u, b_expires = u + 120\<rparr>"
    by (simp add: Allow_available)
  have y0: "0 \<le> ?y" using av by simp
  have ok1: "bucket_ok cap u ?st"
    using av y0 by (simp add: st bucket_ok_def split: if_splits)
  have later: "available cap v ?st \<le> ?y + (v - u) * (rat_of_int cap / 60)" if "u \<le> v" for v
    unfolding st by (rule available_later [OF y0 that Cons.prems(2)])
  have run: "fst (allow_run cap (u # us) st) = (1 \<le> ?av) # fst (allow_run cap us ?st)"
    by (simp add: Let_def Allow_available split: prod.splits)
  have g: "rat_of_nat (granted (fst (allow_run cap (u # us) st)))
      = (if 1 \<le> ?av then 1 else 0) + rat_of_nat (granted (fst (allow_run cap us ?st)))"
    unfolding run by (simp add: granted_def)
  have "rat_of_nat (granted (fst (allow_run cap us ?st)))
      \<le> ?y + (last_from u us - u) * (rat_of_int cap / 60)"
    using Cons.IH [OF ok1 Cons.prems(2) _ later] Cons.prems(3) y0 by (cases us) (auto simp: granted_def)
  with g have "rat_of_nat (granted (fst (allow_run cap (u # us) st)))
      \<le> ?av + (last_from u us - u) * (rat_of_int cap / 60)"
    by simp
  also have "\<dots> \<le> x + (u - t) * (rat_of_int cap / 60) + (last_from u us - u) * (rat_of_int cap / 60)"
    using Cons.prems(4) [OF tu] by simp
  also have "\<dots> = x + (last_from u us - t) * (rat_of_int cap / 60)"
    by (simp add: field_simps)
  finally show ?case by simp
qed

end
