(* ===== verification/Repo_Effects.thy ===== *)
theory Repo_Effects
  imports Repository
begin

text \<open>
  What a successful call of each repository method does to the database, as one update of the
  tables (the rules \<open>..._okE\<close>), and that a call which returns an error does nothing to it.
\<close>

section \<open>Statements\<close>

abbreviation tx_now :: "pg_world \<Rightarrow> time" where
  "tx_now w \<equiv> w_now (begun w)"

lemma w_now_txs [simp]: "w_now (w\<lparr>w_txs := n\<rparr>) = w_dbclock w n"
  by (simp add: w_now_def)

lemma update_jobs_ok [tx_simps]:
  "update_jobs P f w = (Inr n, w') \<longleftrightarrow>
     healthy w \<and> n = rows_affected P (jobs (w_db w)) \<and>
     w' = w\<lparr>w_faults := tl (w_faults w),
            w_db := (w_db w)\<lparr>jobs := upd_where P (f (w_now w)) (jobs (w_db w))\<rparr>\<rparr>"
  by (auto simp: update_jobs_def tx_simps)

lemma update_attempts_ok [tx_simps]:
  "update_attempts P f w = (Inr n, w') \<longleftrightarrow>
     healthy w \<and> n = rows_affected P (job_attempts (w_db w)) \<and>
     w' = w\<lparr>w_faults := tl (w_faults w),
            w_db := (w_db w)\<lparr>job_attempts := upd_where P (f (w_now w)) (job_attempts (w_db w))\<rparr>\<rparr>"
  by (auto simp: update_attempts_def tx_simps)

lemma update_dead_letters_ok [tx_simps]:
  "update_dead_letters P f w = (Inr n, w') \<longleftrightarrow>
     healthy w \<and> n = rows_affected P (dead_letter_jobs (w_db w)) \<and>
     w' = w\<lparr>w_faults := tl (w_faults w),
            w_db := (w_db w)\<lparr>dead_letter_jobs :=
              upd_where P (f (w_now w)) (dead_letter_jobs (w_db w))\<rparr>\<rparr>"
  by (auto simp: update_dead_letters_def tx_simps)

lemma bind_int4_ok [tx_simps]:
  "bind_int4 ns w = (Inr u, w') \<longleftrightarrow> list_all int4 ns \<and> w' = w"
  by (auto simp: bind_int4_def tx_simps)

lemma insertJobEvent_ok:
  assumes "insertJobEvent j t s p w = (Inr u, w')"
  obtains eid where "eid \<notin> e_ID ` set (job_events (w_db w))"
    and "w_db w' = (w_db w)\<lparr>job_events := job_events (w_db w) @ [new_event (w_now w) eid j t s p]\<rparr>"
    and "w_now w' = w_now w"
  using assms that
  by (auto simp: insertJobEvent_def json_Marshal_def tx_simps split: sum.splits if_splits)

lemma insert_job_ok:
  assumes "insert_job mk w = (Inr j, w')"
  obtains r where "r = mk (w_now w)" and "j = scanJob r"
    and "j_ID r \<notin> j_ID ` set (jobs (w_db w))"
    and "\<And>k s. j_IdempotencyKey r = Some k \<Longrightarrow> s \<in> set (jobs (w_db w)) \<Longrightarrow>
           j_TenantID s = j_TenantID r \<Longrightarrow> j_IdempotencyKey s \<noteq> Some k"
    and "j_TenantID r \<in> t_ID ` set (tenants (w_db w))"
    and "list_all int4 [j_Priority r, j_RetryCount r, j_MaxRetries r, j_RetryBackoffSeconds r,
                        j_TimeoutSeconds r]"
    and "w_db w' = (w_db w)\<lparr>jobs := jobs (w_db w) @ [r]\<rparr>"
    and "w_now w' = w_now w"
  using assms that
  by (force simp: insert_job_def Let_def tx_simps split: if_splits)

lemma insert_attempt_ok:
  assumes "insert_attempt mk w = (Inr x, w')"
  obtains a where "a = mk (w_now w)" and "a_ID a \<notin> a_ID ` set (job_attempts (w_db w))"
    and "int4 (a_AttemptNumber a)"
    and "w_db w' = (w_db w)\<lparr>job_attempts := job_attempts (w_db w) @ [a]\<rparr>"
    and "w_now w' = w_now w"
  using assms that
  by (auto simp: insert_attempt_def Let_def tx_simps split: if_splits)

lemma insert_dead_letter_ok:
  assumes "insert_dead_letter mk w = (Inr x, w')"
  obtains did where "did \<notin> d_ID ` set (dead_letter_jobs (w_db w))"
    and "w_db w' = (w_db w)\<lparr>dead_letter_jobs := dead_letter_jobs (w_db w) @ [mk (w_now w) did]\<rparr>"
    and "w_now w' = w_now w"
  using assms that
  by (auto simp: insert_dead_letter_def tx_simps split: if_splits)

section \<open>Errors change nothing\<close>

lemma atomic_return [simp]: "atomic_tx (return_tx x)"
  by (simp add: atomic_tx_def return_tx_def)

lemma atomic_fail [simp]: "atomic_tx (fail_tx e)"
  by (simp add: atomic_tx_def fail_tx_def)

lemma atomic_bind_read:
  assumes "atomic_tx m" and "\<And>x. atomic_tx (k x)"
    and "\<And>w x w'. m w = (Inr x, w') \<Longrightarrow> w_db w' = w_db w"
  shows "atomic_tx (bind_tx m k)"
  using assms by (fastforce simp: atomic_tx_def bind_tx_def split: prod.splits sum.splits)

lemma atomic_new_tx:
  "(\<And>x. atomic_tx (k x)) \<Longrightarrow> atomic_tx (bind_tx new_tx k)"
  by (rule atomic_bind_read) (auto simp: atomic_tx_def new_tx_def)

lemma atomic_uuid_New:
  "(\<And>x. atomic_tx (k x)) \<Longrightarrow> atomic_tx (bind_tx uuid_New k)"
  by (rule atomic_bind_read) (auto simp: atomic_tx_def uuid_New_def)

lemma atomic_bind_int4:
  "(\<And>x. atomic_tx (k x)) \<Longrightarrow> atomic_tx (bind_tx (bind_int4 ns) k)"
  by (rule atomic_bind_read) (auto simp: bind_int4_def tx_simps split: if_splits)

lemma atomic_update_jobs: "atomic_tx (update_jobs P f)"
  unfolding update_jobs_def by (rule atomic_stmt)

lemma atomic_update_attempts: "atomic_tx (update_attempts P f)"
  unfolding update_attempts_def by (rule atomic_stmt)

text \<open>An update that may be rejected because it touched no row.\<close>

lemma atomic_guarded_update:
  "atomic_tx (bind_tx (update_jobs P f) (\<lambda>n. if n = 0 then fail_tx e else return_tx (g n)))"
  using atomic_update_jobs [of P f]
  by (auto simp: atomic_tx_def bind_tx_def fail_tx_def return_tx_def update_jobs_ok upd_where_none
      split: prod.splits sum.splits if_splits)

lemma atomic_plain_update:
  "atomic_tx (bind_tx (update_jobs P f) (\<lambda>n. return_tx (g n)))"
  "atomic_tx (bind_tx (update_attempts Q h) (\<lambda>n. return_tx (g n)))"
  using atomic_update_jobs [of P f] atomic_update_attempts [of Q h]
  by (auto simp: atomic_tx_def bind_tx_def return_tx_def split: prod.splits sum.splits)

lemma atomic_pool_query: "atomic_tx (pool_query f)"
  unfolding pool_query_def by (rule atomic_pool_stmt)

lemma pool_read_db:
  "pool_query f w = (Inr x, w') \<Longrightarrow> w_db w' = w_db w"
  "getByIdempotencyKey t k w = (Inr j, w') \<Longrightarrow> w_db w' = w_db w"
  "GetByID t i w = (Inr j, w') \<Longrightarrow> w_db w' = w_db w"
  by (auto simp: pool_query_def pool_stmt_def getByIdempotencyKey_def GetByID_def tx_simps
      split: option.splits)

lemma create_body_okE:
  assumes "create_body j w = (Inr res, w')"
  obtains (inserted) w1 x w2 where "insert_job (create_row j) w = (Inr x, w1)"
      and "insertJobEvent x ''job.created'' ''scheduler-api''
             [(''status'', JStatus (j_Status x)), (''run_at'', JTime (j_RunAt x)),
              (''priority'', JInt (j_Priority x))] w1 = (Inr (), w')"
      and "res = Commit (Some x)"
    | (duplicate) e where "insert_job (create_row j) w = (Inl e, w')"
      and "pg_code_is ''23505'' e" and "j_IdempotencyKey j \<noteq> None" and "res = Abort None"
proof -
  obtain r w1 where r: "insert_job (create_row j) w = (r, w1)" by fastforce
  show thesis
    using assms r that
    by (cases r) (auto simp: create_body_def tx_simps split: if_splits)
qed

lemma in_create_body_None:
  assumes "in_tx (create_body j) w = (Inr None, w')"
  shows "w_db w' = w_db w \<and> j_IdempotencyKey j \<noteq> None"
  using assms by (auto simp: in_tx_ok elim!: create_body_okE)

lemma atomic_getByIdempotencyKey: "atomic_tx (getByIdempotencyKey t k)"
  unfolding getByIdempotencyKey_def by (rule atomic_pool_stmt)

lemma atomic_Create: "atomic_tx (Create j)"
  unfolding atomic_tx_def
proof (intro allI impI)
  fix w e w'
  assume C: "Create j w = (Inl e, w')"
  obtain r w1 where r: "in_tx (create_body j) w = (r, w1)" by fastforce
  consider (err) e' where "r = Inl e'" | (ok) x where "r = Inr (Some x)" | (dup) "r = Inr None"
    by (cases r) (auto split: option.splits)
  then show "w_db w' = w_db w"
  proof cases
    case err
    with r C show ?thesis
      by (auto simp: Create_def bind_tx_def dest: atomic_txD [OF atomic_in_tx])
  next
    case ok
    with r C show ?thesis
      by (simp add: Create_def bind_tx_def return_tx_def)
  next
    case dup
    with r have "w_db w1 = w_db w" by (simp add: in_create_body_None)
    with dup r C show ?thesis
      by (auto simp: Create_def bind_tx_def return_tx_def fail_tx_def
          split: prod.splits sum.splits if_splits
          dest: pool_read_db atomic_txD [OF atomic_getByIdempotencyKey])
  qed
qed

lemma atomic_ClaimDueJobs: "atomic_tx (ClaimDueJobs wk n ttl)"
  unfolding ClaimDueJobs_def by (rule atomic_in_tx)

lemma atomic_CompleteExecution: "atomic_tx (CompleteExecution j wk dur res)"
  unfolding CompleteExecution_def by (rule atomic_in_tx)

lemma atomic_FailExecution: "atomic_tx (FailExecution j wk dur out st n t)"
  unfolding FailExecution_def by (rule atomic_in_tx)

lemma atomic_ExtendLease: "atomic_tx (ExtendLease i wk ttl)"
  unfolding ExtendLease_def by (intro atomic_new_tx atomic_plain_update)

lemma atomic_ReleaseClaim: "atomic_tx (ReleaseClaim i wk st)"
  unfolding ReleaseClaim_def by (intro atomic_new_tx atomic_guarded_update)

lemma atomic_TransitionJob: "atomic_tx (TransitionJob t i from to)"
  unfolding TransitionJob_def by (rule atomic_in_tx)

lemma atomic_RecoverExpiredRunningJobs: "atomic_tx (RecoverExpiredRunningJobs reason)"
  unfolding RecoverExpiredRunningJobs_def by (rule atomic_in_tx)

lemma atomic_RequeueDeadLetter: "atomic_tx (RequeueDeadLetter t i at)"
  unfolding RequeueDeadLetter_def by (rule atomic_in_tx)

lemmas atomic_methods =
  atomic_Create atomic_ClaimDueJobs atomic_CompleteExecution atomic_FailExecution
  atomic_ExtendLease atomic_ReleaseClaim atomic_TransitionJob
  atomic_RecoverExpiredRunningJobs atomic_RequeueDeadLetter

section \<open>Effects of the methods\<close>

text \<open>\<open>CompleteExecution\<close>: one job, its active attempt, one event.\<close>

definition complete_effect :: "Job \<Rightarrow> string \<Rightarrow> duration \<Rightarrow> json \<Rightarrow> time \<Rightarrow> uuid \<Rightarrow> db \<Rightarrow> db" where
  "complete_effect j wk dur res now eid d =
     d\<lparr>jobs := upd_where (\<lambda>r. owned_by (j_ID j) wk r \<and> j_TenantID r = j_TenantID j)
                (succeed_row now) (jobs d),
       job_attempts := upd_where (\<lambda>a. a_ID a = j_ActiveAttemptID j \<and> a_Status a = AttemptRunning)
                (\<lambda>a. a\<lparr>a_Status := AttemptSucceeded, a_CompletedAt := Some now,
                     a_ExecutionDurationMS := Some (duration_Milliseconds dur),
                     a_Result := nullableJSON res\<rparr>) (job_attempts d),
       job_events := job_events d @
         [new_event now eid j ''job.completed'' ''worker''
            [(''worker_id'', JStr wk),
             (''execution_duration_ms'', JInt (duration_Milliseconds dur))]]\<rparr>"

lemma CompleteExecution_okE:
  assumes "CompleteExecution j wk dur res w = (Inr u, w')"
  obtains eid r a where "eid \<notin> e_ID ` set (job_events (w_db w))"
    and "r \<in> set (jobs (w_db w))" and "owned_by (j_ID j) wk r" and "j_TenantID r = j_TenantID j"
    and "a \<in> set (job_attempts (w_db w))" and "a_ID a = j_ActiveAttemptID j"
    and "a_Status a = AttemptRunning"
    and "w_db w' = complete_effect j wk dur res (tx_now w) eid (w_db w)"
  using assms that
  by (auto simp: CompleteExecution_def in_tx_ok tx_simps table_simps complete_effect_def
      split: if_splits elim!: insertJobEvent_ok)

text \<open>\<open>FailExecution\<close>: the attempt, the job and, when the budget is spent, the dead letter.\<close>

definition failed_event :: "Job \<Rightarrow> string \<Rightarrow> ExecutionResult \<Rightarrow> time \<Rightarrow> uuid \<Rightarrow> events_row" where
  "failed_event j wk out now eid =
     new_event now eid j ''job.failed'' ''worker''
       [(''worker_id'', JStr wk), (''attempt_number'', JInt (j_AttemptNumber j)),
        (''error'', JStr (x_Message out)), (''error_code'', JStr (x_ErrorCode out)),
        (''retryable'', JBool (x_Retryable out))]"

definition retry_effect ::
  "Job \<Rightarrow> string \<Rightarrow> duration \<Rightarrow> ExecutionResult \<Rightarrow> int \<Rightarrow> time \<Rightarrow> time \<Rightarrow> uuid \<Rightarrow> uuid \<Rightarrow> db \<Rightarrow> db"
where
  "retry_effect j wk dur out n at now eid eid' d =
     d\<lparr>job_attempts := upd_where (\<lambda>a. a_ID a = j_ActiveAttemptID j \<and> a_Status a = AttemptRunning)
                (fail_attempt_row dur out now) (job_attempts d),
       jobs := upd_where (owned_by (j_ID j) wk) (retry_row n at (x_Message out) now) (jobs d),
       job_events := job_events d @
         [failed_event j wk out now eid,
          new_event now eid' j ''job.retry_scheduled'' ''worker''
            [(''retry_count'', JInt n), (''next_run_at'', JTime at)]]\<rparr>"

definition dead_effect ::
  "Job \<Rightarrow> string \<Rightarrow> duration \<Rightarrow> ExecutionResult \<Rightarrow> int \<Rightarrow> time \<Rightarrow> uuid \<Rightarrow> uuid \<Rightarrow> uuid \<Rightarrow> db \<Rightarrow> db"
where
  "dead_effect j wk dur out n now did eid eid' d =
     d\<lparr>job_attempts := upd_where (\<lambda>a. a_ID a = j_ActiveAttemptID j \<and> a_Status a = AttemptRunning)
                (fail_attempt_row dur out now) (job_attempts d),
       jobs := upd_where (owned_by (j_ID j) wk) (dead_letter_row n (x_Message out) now) (jobs d),
       dead_letter_jobs := dead_letter_jobs d @
         [new_dead_letter now did j (j_TenantID j) (x_Message out) n],
       job_events := job_events d @
         [failed_event j wk out now eid,
          new_event now eid' j ''job.dead_lettered'' ''worker''
            [(''retry_count'', JInt n), (''final_error'', JStr (x_Message out))]]\<rparr>"

lemma new_event_sel [simp]:
  "e_ID (new_event now eid j t s p) = eid"
  "e_JobID (new_event now eid j t s p) = j_ID j"
  "e_TenantID (new_event now eid j t s p) = j_TenantID j"
  "e_EventType (new_event now eid j t s p) = t"
  "e_Source (new_event now eid j t s p) = s"
  "e_Payload (new_event now eid j t s p) = p"
  "e_PublishedAt (new_event now eid j t s p) = None"
  "e_ClaimedBy (new_event now eid j t s p) = None"
  "e_ClaimedUntil (new_event now eid j t s p) = None"
  "e_NextPublishAt (new_event now eid j t s p) = now"
  by (simp_all add: new_event_def)

lemma failed_event_sel [simp]:
  "e_ID (failed_event j wk out now eid) = eid"
  "e_JobID (failed_event j wk out now eid) = j_ID j"
  "e_TenantID (failed_event j wk out now eid) = j_TenantID j"
  "e_EventType (failed_event j wk out now eid) = ''job.failed''"
  by (simp_all add: failed_event_def)

lemma FailExecution_okE:
  assumes "FailExecution j wk dur out st n at w = (Inr u, w')"
  obtains (retry) eid eid' r a where
      "w_db w' = retry_effect j wk dur out n at (tx_now w) eid eid' (w_db w)"
      and "st \<noteq> StatusDeadLettered"
      and "eid \<notin> e_ID ` set (job_events (w_db w))"
      and "eid' \<notin> e_ID ` set (job_events (w_db w))" and "eid \<noteq> eid'"
      and "r \<in> set (jobs (w_db w))" and "owned_by (j_ID j) wk r" and "int4 n"
      and "a \<in> set (job_attempts (w_db w))" and "a_ID a = j_ActiveAttemptID j"
      and "a_Status a = AttemptRunning"
    | (dead) did eid eid' r a where
      "w_db w' = dead_effect j wk dur out n (tx_now w) did eid eid' (w_db w)"
      and "st = StatusDeadLettered"
      and "did \<notin> d_ID ` set (dead_letter_jobs (w_db w))"
      and "eid \<notin> e_ID ` set (job_events (w_db w))"
      and "eid' \<notin> e_ID ` set (job_events (w_db w))" and "eid \<noteq> eid'"
      and "r \<in> set (jobs (w_db w))" and "owned_by (j_ID j) wk r" and "int4 n"
      and "a \<in> set (job_attempts (w_db w))" and "a_ID a = j_ActiveAttemptID j"
      and "a_Status a = AttemptRunning"
proof (cases "st = StatusDeadLettered")
  case True
  with assms show thesis
    by (auto simp: FailExecution_def in_tx_ok tx_simps table_simps dead_effect_def
         failed_event_def split: if_splits elim!: insertJobEvent_ok insert_dead_letter_ok
         intro!: dead)
next
  case False
  with assms show thesis
    by (auto simp: FailExecution_def in_tx_ok tx_simps table_simps retry_effect_def
         failed_event_def split: if_splits elim!: insertJobEvent_ok intro!: retry)
qed

text \<open>Leases, operator transitions, creation and requeueing.\<close>

lemma ReleaseClaim_okE:
  assumes "ReleaseClaim i wk st w = (Inr u, w')"
  obtains r now where
    "w_db w' = (w_db w)\<lparr>jobs := upd_where (owned_by i wk)
       (\<lambda>r. r\<lparr>j_Status := st, j_LockedBy := None, j_LockedUntil := None, j_UpdatedAt := now\<rparr>)
       (jobs (w_db w))\<rparr>"
    and "r \<in> set (jobs (w_db w))" and "owned_by i wk r"
  using assms that
  by (auto simp: ReleaseClaim_def tx_simps table_simps split: if_splits)

lemma ExtendLease_okE:
  assumes "ExtendLease i wk ttl w = (Inr b, w')"
  obtains now where
    "w_db w' = (w_db w)\<lparr>jobs := upd_where (owned_by i wk)
       (\<lambda>r. r\<lparr>j_LockedUntil := Some (now + interval_seconds (duration_Seconds ttl)),
              j_UpdatedAt := now\<rparr>) (jobs (w_db w))\<rparr>"
    and "b \<longleftrightarrow> rows_affected (owned_by i wk) (jobs (w_db w)) = 1"
    and "now = w_dbclock w (Suc (w_txs w))"
  using assms that
  by (auto simp: ExtendLease_def tx_simps)

lemma job_ref_sel [simp]: "j_ID (job_ref i t) = i" "j_TenantID (job_ref i t) = t"
  by (simp_all add: job_ref_def)

definition transition_effect :: "uuid \<Rightarrow> uuid \<Rightarrow> Status list \<Rightarrow> Status \<Rightarrow> time \<Rightarrow> uuid \<Rightarrow> db \<Rightarrow> db" where
  "transition_effect t i from to now eid d =
     d\<lparr>jobs := upd_where (\<lambda>r. j_TenantID r = t \<and> j_ID r = i \<and> j_Status r \<in> set from)
                (transition_row to now) (jobs d),
       job_attempts :=
         (if to = StatusCancelled
          then upd_where (\<lambda>a. a_JobID a = i \<and> a_Status a = AttemptRunning)
                 (cancel_attempt_row now) (job_attempts d)
          else job_attempts d),
       job_events := job_events d @
         [new_event now eid (job_ref i t) (''job.'' @ ToLower (status_string to)) ''scheduler-api''
            [(''status'', JStatus to)]]\<rparr>"

lemma TransitionJob_okE:
  assumes "TransitionJob t i from to w = (Inr u, w')"
  obtains eid r where
    "w_db w' = transition_effect t i from to (tx_now w) eid (w_db w)"
    and "eid \<notin> e_ID ` set (job_events (w_db w))"
    and "r \<in> set (jobs (w_db w))" and "j_TenantID r = t" and "j_ID r = i"
    and "j_Status r \<in> set from"
  using assms that
  by (cases "to = StatusCancelled")
     (auto simp: TransitionJob_def in_tx_ok tx_simps table_simps transition_effect_def
      split: if_splits elim!: insertJobEvent_ok)

lemma Create_okE:
  assumes "Create j w = (Inr x, w')"
  obtains (inserted) r eid where
      "w_db w' = (w_db w)\<lparr>jobs := jobs (w_db w) @ [r],
         job_events := job_events (w_db w) @
           [new_event (tx_now w) eid x ''job.created'' ''scheduler-api''
              [(''status'', JStatus (j_Status x)), (''run_at'', JTime (j_RunAt x)),
               (''priority'', JInt (j_Priority x))]]\<rparr>"
      and "r = create_row j (tx_now w)" and "x = scanJob r"
      and "eid \<notin> e_ID ` set (job_events (w_db w))"
      and "j_ID j \<notin> j_ID ` set (jobs (w_db w))"
      and "\<And>k s. j_IdempotencyKey j = Some k \<Longrightarrow> s \<in> set (jobs (w_db w)) \<Longrightarrow>
             j_TenantID s = j_TenantID j \<Longrightarrow> j_IdempotencyKey s \<noteq> Some k"
      and "j_TenantID j \<in> t_ID ` set (tenants (w_db w))"
    | (replayed) k r where "w_db w' = w_db w" and "j_IdempotencyKey j = Some k"
      and "r \<in> set (jobs (w_db w))" and "x = scanJob r" and "j_TenantID r = j_TenantID j"
      and "j_IdempotencyKey r = Some k" and "j_RequestHash r = j_RequestHash j"
      and "j_RequestHash j \<noteq> None"
proof -
  from assms obtain out w1 where out: "in_tx (create_body j) w = (Inr out, w1)"
    and rest: "(case out of Some inserted \<Rightarrow> return_tx inserted
       | None \<Rightarrow> bind_tx (getByIdempotencyKey (j_TenantID j) (the (j_IdempotencyKey j)))
           (\<lambda>existing. if j_RequestHash existing = None \<or> j_RequestHash j = None \<or>
              j_RequestHash existing \<noteq> j_RequestHash j
             then fail_tx ErrIdempotency else return_tx existing)) w1 = (Inr x, w')"
    by (auto simp: Create_def bind_tx_ok)
  show thesis
  proof (cases out)
    case None
    with out obtain k where w1: "w_db w1 = w_db w" and k: "j_IdempotencyKey j = Some k"
      using in_create_body_None [of j w w1] by auto
    from None rest k w1 obtain r where "w_db w' = w_db w" and "x = scanJob r"
      and "find (\<lambda>r. j_TenantID r = j_TenantID j \<and> j_IdempotencyKey r = Some k) (jobs (w_db w)) = Some r"
      and "j_RequestHash r = j_RequestHash j" and "j_RequestHash j \<noteq> None"
      by (auto simp: getByIdempotencyKey_def pool_stmt_def tx_simps split: option.splits if_splits)
    then show thesis
      using k replayed [of k r] by (auto dest: find_SomeD)
  next
    case (Some y)
    with rest have "y = x" and "w' = w1" by (auto simp: tx_simps)
    with Some out show thesis
      by (auto simp: in_tx_ok create_row_def intro!: inserted
          elim!: create_body_okE insert_job_ok insertJobEvent_ok)
  qed
qed

definition requeue_effect ::
  "DeadLetterJob \<Rightarrow> uuid \<Rightarrow> uuid \<Rightarrow> Status \<Rightarrow> time \<Rightarrow> time \<Rightarrow> uuid \<Rightarrow> db \<Rightarrow> db" where
  "requeue_effect dl newID t st at now eid d =
     d\<lparr>jobs := jobs d @ [requeue_row dl newID t st at now],
       dead_letter_jobs := upd_where (\<lambda>x. d_ID x = d_ID dl)
         (\<lambda>x. x\<lparr>d_RequeuedAt := Some now, d_RequeuedJobID := Some newID\<rparr>) (dead_letter_jobs d),
       job_events := job_events d @
         [new_event now eid (scanJob (requeue_row dl newID t st at now)) ''job.requeued''
            ''scheduler-api'' [(''source_dead_letter_id'', JUuid (d_ID dl))]]\<rparr>"

lemma requeue_row_sel [simp]:
  "j_ID (requeue_row dl i t st at now) = i"
  "j_TenantID (requeue_row dl i t st at now) = t"
  "j_IdempotencyKey (requeue_row dl i t st at now) = None"
  "j_Status (requeue_row dl i t st at now) = st"
  "j_LockedBy (requeue_row dl i t st at now) = None"
  "j_LockedUntil (requeue_row dl i t st at now) = None"
  "j_RetryCount (requeue_row dl i t st at now) = 0"
  "j_MaxRetries (requeue_row dl i t st at now) = 3"
  "r_SourceDeadLetterID (requeue_row dl i t st at now) = Some (d_ID dl)"
  by (simp_all add: requeue_row_def)

lemma RequeueDeadLetter_okE:
  assumes "RequeueDeadLetter t i at w = (Inr x, w')"
  obtains dl newID st eid where
    "w_db w' = requeue_effect dl newID t st at (tx_now w) eid (w_db w)"
    and "st = initialStatus at (w_clock w (w_ticks w))"
    and "x = scanJob (requeue_row dl newID t st at (tx_now w))"
    and "dl \<in> set (dead_letter_jobs (w_db w))" and "d_TenantID dl = t" and "d_ID dl = i"
    and "d_RequeuedAt dl = None"
    and "newID \<notin> j_ID ` set (jobs (w_db w))"
    and "eid \<notin> e_ID ` set (job_events (w_db w))"
    and "t \<in> t_ID ` set (tenants (w_db w))"
proof -
  from assms show thesis
    by (auto simp: RequeueDeadLetter_def in_tx_ok tx_simps requeue_effect_def find_Some_iff
        split: option.splits elim!: insert_job_ok insertJobEvent_ok intro!: that)
qed

text \<open>One iteration of the claim loop, and of the recovery loop.\<close>

lemma claimed_job_sel [simp]:
  "j_ID (claimed_job wk ttl t aid j) = j_ID j"
  "j_TenantID (claimed_job wk ttl t aid j) = j_TenantID j"
  "j_Status (claimed_job wk ttl t aid j) = StatusRunning"
  "j_LockedBy (claimed_job wk ttl t aid j) = Some wk"
  "j_RetryCount (claimed_job wk ttl t aid j) = j_RetryCount j"
  "j_MaxRetries (claimed_job wk ttl t aid j) = j_MaxRetries j"
  "j_AttemptNumber (claimed_job wk ttl t aid j) = j_RetryCount j + 1"
  "j_ActiveAttemptID (claimed_job wk ttl t aid j) = aid"
  by (simp_all add: claimed_job_def)

definition started_event :: "string \<Rightarrow> time \<Rightarrow> uuid \<Rightarrow> Job \<Rightarrow> events_row" where
  "started_event wk now eid j =
     new_event now eid j ''job.started'' ''worker''
       [(''worker_id'', JStr wk), (''attempt_number'', JInt (j_AttemptNumber j))]"

definition attempt_of :: "string \<Rightarrow> time \<Rightarrow> Job \<Rightarrow> attempts_row" where
  "attempt_of wk now j =
     running_attempt now (j_ActiveAttemptID j) (j_ID j) (j_TenantID j) wk (j_AttemptNumber j)"

lemma attempt_of_sel [simp]:
  "a_ID (attempt_of wk now j) = j_ActiveAttemptID j"
  "a_JobID (attempt_of wk now j) = j_ID j"
  "a_TenantID (attempt_of wk now j) = j_TenantID j"
  "a_WorkerID (attempt_of wk now j) = wk"
  "a_Status (attempt_of wk now j) = AttemptRunning"
  "a_AttemptNumber (attempt_of wk now j) = j_AttemptNumber j"
  by (simp_all add: attempt_of_def running_attempt_def)

lemma started_event_sel [simp]:
  "e_ID (started_event wk now eid j) = eid"
  "e_JobID (started_event wk now eid j) = j_ID j"
  "e_TenantID (started_event wk now eid j) = j_TenantID j"
  "e_EventType (started_event wk now eid j) = ''job.started''"
  by (simp_all add: started_event_def)

definition claim_effect :: "string \<Rightarrow> duration \<Rightarrow> time \<Rightarrow> uuid \<Rightarrow> Job \<Rightarrow> db \<Rightarrow> db" where
  "claim_effect wk ttl now eid j d =
     d\<lparr>jobs := upd_where (\<lambda>r. j_ID r = j_ID j) (claim_row wk ttl now) (jobs d),
       job_attempts := job_attempts d @ [attempt_of wk now j],
       job_events := job_events d @ [started_event wk now eid j]\<rparr>"

lemma claim_one_okE:
  assumes "claim_one wk ttl j w = (Inr j', w')"
  obtains eid aid t where "j' = claimed_job wk ttl t aid j"
    and "w_db w' = claim_effect wk ttl (w_now w) eid j' (w_db w)"
    and "eid \<notin> e_ID ` set (job_events (w_db w))"
    and "aid \<notin> a_ID ` set (job_attempts (w_db w))"
    and "int4 (j_RetryCount j + 1)"
    and "w_now w' = w_now w"
proof -
  define w1 where "w1 = w\<lparr>w_faults := tl (w_faults w),
      w_db := (w_db w)\<lparr>jobs := upd_where (\<lambda>r. j_ID r = j_ID j) (claim_row wk ttl (w_now w)) (jobs (w_db w))\<rparr>,
      w_ticks := Suc (w_ticks w), w_used := Suc (w_used w)\<rparr>"
  define aid where "aid = w_fresh w (w_used w)"
  have w1: "w_db w1 = (w_db w)\<lparr>jobs := upd_where (\<lambda>r. j_ID r = j_ID j) (claim_row wk ttl (w_now w)) (jobs (w_db w))\<rparr>"
      "w_now w1 = w_now w"
    by (simp_all add: w1_def)
  from assms obtain w2 a where j': "j' = claimed_job wk ttl (w_clock w (w_ticks w)) aid j"
    and A: "insert_attempt (\<lambda>now. running_attempt now aid (j_ID j) (j_TenantID j) wk
              (j_RetryCount j + 1)) w1 = (Inr a, w2)"
    and E: "insertJobEvent j' ''job.started'' ''worker''
              [(''worker_id'', JStr wk), (''attempt_number'', JInt (j_RetryCount j + 1))] w2
            = (Inr (), w')"
    by (auto simp: claim_one_def Let_def tx_simps w1_def aid_def)
  from A show thesis
  proof (rule insert_attempt_ok)
    fix a
    assume a: "a = running_attempt (w_now w1) aid (j_ID j) (j_TenantID j) wk (j_RetryCount j + 1)"
      "a_ID a \<notin> a_ID ` set (job_attempts (w_db w1))" "int4 (a_AttemptNumber a)"
      "w_db w2 = (w_db w1)\<lparr>job_attempts := job_attempts (w_db w1) @ [a]\<rparr>" "w_now w2 = w_now w1"
    have "a = attempt_of wk (w_now w) j'" by (simp add: a w1 j' attempt_of_def)
    with E a w1 j' show thesis
      by (elim insertJobEvent_ok)
         (rule that, auto simp: claim_effect_def started_event_def running_attempt_def)
  qed
qed

definition expire_attempts :: "string \<Rightarrow> uuid \<Rightarrow> time \<Rightarrow> attempts_row list \<Rightarrow> attempts_row list" where
  "expire_attempts reason i now =
     upd_where (\<lambda>a. a_JobID a = i \<and> a_Status a = AttemptRunning) (expire_attempt_row reason now)"

definition recover_retry :: "string \<Rightarrow> time \<Rightarrow> time \<Rightarrow> uuid \<Rightarrow> Job \<Rightarrow> db \<Rightarrow> db" where
  "recover_retry reason at now eid j d =
     d\<lparr>job_attempts := expire_attempts reason (j_ID j) now (job_attempts d),
       jobs := upd_where (\<lambda>r. j_ID r = j_ID j \<and> j_Status r = StatusRunning)
                 (retry_row (j_RetryCount j + 1) at reason now) (jobs d),
       job_events := job_events d @
         [new_event now eid j ''job.retry_scheduled'' ''recovery''
            [(''reason'', JStr reason), (''retry_count'', JInt (j_RetryCount j + 1)),
             (''next_run_at'', JTime at)]]\<rparr>"

definition recover_dead :: "string \<Rightarrow> time \<Rightarrow> uuid \<Rightarrow> uuid \<Rightarrow> Job \<Rightarrow> db \<Rightarrow> db" where
  "recover_dead reason now did eid j d =
     d\<lparr>job_attempts := expire_attempts reason (j_ID j) now (job_attempts d),
       jobs := upd_where (\<lambda>r. j_ID r = j_ID j \<and> j_Status r = StatusRunning)
                 (dead_letter_row (j_RetryCount j + 1) reason now) (jobs d),
       dead_letter_jobs := dead_letter_jobs d @
         [new_dead_letter now did j (j_TenantID j) reason (j_RetryCount j + 1)],
       job_events := job_events d @
         [new_event now eid j ''job.dead_lettered'' ''recovery''
            [(''reason'', JStr reason), (''retry_count'', JInt (j_RetryCount j + 1))]]\<rparr>"

lemma recover_one_okE:
  assumes "recover_one reason j w = (Inr u, w')"
  obtains (retry) eid where
      "w_db w' = recover_retry reason
         (NextRetryAt (w_clock w (w_ticks w)) (j_RetryBackoffSeconds j) (j_RetryCount j + 1))
         (w_now w) eid j (w_db w)"
      and "j_RetryCount j < j_MaxRetries j"
      and "eid \<notin> e_ID ` set (job_events (w_db w))" and "int4 (j_RetryCount j + 1)"
      and "w_now w' = w_now w"
    | (dead) did eid where
      "w_db w' = recover_dead reason (w_now w) did eid j (w_db w)"
      and "j_MaxRetries j \<le> j_RetryCount j"
      and "did \<notin> d_ID ` set (dead_letter_jobs (w_db w))"
      and "eid \<notin> e_ID ` set (job_events (w_db w))" and "int4 (j_RetryCount j + 1)"
      and "w_now w' = w_now w"
proof (cases "j_RetryCount j < j_MaxRetries j")
  case True
  with assms show thesis
    by (auto simp: recover_one_def Let_def tx_simps DecideFailure_status DecideFailure_run_at
        recover_retry_def expire_attempts_def elim!: insertJobEvent_ok intro!: retry)
next
  case False
  with assms show thesis
    by (auto simp: recover_one_def Let_def tx_simps DecideFailure_status DecideFailure_run_at
        recover_dead_def expire_attempts_def
        elim!: insertJobEvent_ok insert_dead_letter_ok intro!: dead)
qed

text \<open>The two loops start from the rows their first statement selected.\<close>

lemma ClaimDueJobs_okE:
  assumes "ClaimDueJobs wk n ttl w = (Inr ys, w')"
  obtains w1 w2 where "0 \<le> n"
    and "for_tx (claim_one wk ttl)
           (map scanJob (select_due (tx_now w) (skip_locked (begun w)) n (jobs (w_db w)))) w1 = (Inr ys, w2)"
    and "w_db w1 = w_db w" and "w_now w1 = tx_now w" and "w_db w' = w_db w2"
  using assms by (auto simp: ClaimDueJobs_def in_tx_ok tx_simps split: if_splits intro!: that)

lemma RecoverExpiredRunningJobs_okE:
  assumes "RecoverExpiredRunningJobs reason w = (Inr m, w')"
  obtains w1 w2 us where
    "for_tx (recover_one reason)
       (map scanJob (filter (\<lambda>r. expired (tx_now w) r \<and> \<not> skip_locked (begun w) (j_ID r))
          (jobs (w_db w)))) w1 = (Inr us, w2)"
    and "w_db w1 = w_db w" and "w_now w1 = tx_now w" and "w_db w' = w_db w2"
    and "m = length (filter (\<lambda>r. expired (tx_now w) r \<and> \<not> skip_locked (begun w) (j_ID r))
          (jobs (w_db w)))"
proof (cases "filter (\<lambda>r. expired (tx_now w) r \<and> \<not> skip_locked (begun w) (j_ID r)) (jobs (w_db w)) = []")
  case True
  with assms that [of "begun w" "[]" "begun w"] show thesis
    by (auto simp: RecoverExpiredRunningJobs_def in_tx_ok tx_simps)
next
  case False
  with assms show thesis
    by (auto simp: RecoverExpiredRunningJobs_def in_tx_ok tx_simps intro!: that split: if_splits)
qed

end
