(* ===== verification/Repo_Invariant.thy ===== *)
theory Repo_Invariant
  imports Repo_Effects
begin

text \<open>
  The well-formedness of the database that the repository maintains, and that every method the
  API, the workers and the recovery loop call keeps it.  It has five parts: keys are unique; every
  row of \<open>jobs\<close> is in a sound state; attempts, events and dead letters refer to a job of the same
  tenant; the dead letters are exactly the dead-lettered jobs; a running job has a running attempt
  of the worker that holds it.
\<close>

section \<open>The invariant\<close>

definition job_ok :: "jobs_row \<Rightarrow> bool" where
  "job_ok r \<longleftrightarrow>
     (j_Status r = StatusRunning \<longleftrightarrow> j_LockedBy r \<noteq> None) \<and>
     (j_LockedBy r = None \<longleftrightarrow> j_LockedUntil r = None) \<and>
     0 \<le> j_RetryCount r \<and> j_RetryCount r \<le> j_MaxRetries r + 1 \<and>
     (j_Status r \<noteq> StatusDeadLettered \<longrightarrow> j_RetryCount r \<le> j_MaxRetries r) \<and>
     j_Status r \<noteq> StatusFailed"

definition job_ref_key :: "'a job_cols_scheme \<Rightarrow> uuid \<times> uuid" where
  "job_ref_key r = (j_ID r, j_TenantID r)"

definition idem_keys :: "jobs_row list \<Rightarrow> (uuid \<times> string option) list" where
  "idem_keys rs =
     map (\<lambda>r. (j_TenantID r, j_IdempotencyKey r)) (filter (\<lambda>r. j_IdempotencyKey r \<noteq> None) rs)"

definition keys_ok :: "db \<Rightarrow> bool" where
  "keys_ok d \<longleftrightarrow>
     distinct (map j_ID (jobs d)) \<and> distinct (idem_keys (jobs d)) \<and>
     distinct (map a_ID (job_attempts d)) \<and> distinct (map d_ID (dead_letter_jobs d)) \<and>
     distinct (map e_ID (job_events d))"

definition rows_ok :: "db \<Rightarrow> bool" where
  "rows_ok d \<longleftrightarrow> (\<forall>r\<in>set (jobs d). job_ok r)"

definition refs_ok :: "db \<Rightarrow> bool" where
  "refs_ok d \<longleftrightarrow>
     set (map (\<lambda>a. (a_JobID a, a_TenantID a)) (job_attempts d)) \<subseteq> set (map job_ref_key (jobs d)) \<and>
     set (map (\<lambda>e. (e_JobID e, e_TenantID e)) (job_events d)) \<subseteq> set (map job_ref_key (jobs d)) \<and>
     set (map (\<lambda>x. (d_OriginalJobID x, d_TenantID x)) (dead_letter_jobs d))
       \<subseteq> set (map job_ref_key (jobs d))"

definition is_dead :: "jobs_row \<Rightarrow> bool" where
  "is_dead r \<longleftrightarrow> j_Status r = StatusDeadLettered"

definition dlq_ok :: "db \<Rightarrow> bool" where
  "dlq_ok d \<longleftrightarrow>
     distinct (map d_OriginalJobID (dead_letter_jobs d)) \<and>
     set (map d_OriginalJobID (dead_letter_jobs d)) = set (map j_ID (filter is_dead (jobs d)))"

definition has_attempt :: "db \<Rightarrow> uuid \<Rightarrow> string \<Rightarrow> bool" where
  "has_attempt d i wk \<longleftrightarrow>
     (\<exists>a\<in>set (job_attempts d). a_JobID a = i \<and> a_WorkerID a = wk \<and> a_Status a = AttemptRunning)"

definition running_ok :: "db \<Rightarrow> bool" where
  "running_ok d \<longleftrightarrow>
     (\<forall>r\<in>set (jobs d). case j_LockedBy r of None \<Rightarrow> True | Some wk \<Rightarrow> has_attempt d (j_ID r) wk)"

definition db_ok :: "db \<Rightarrow> bool" where
  "db_ok d \<longleftrightarrow> keys_ok d \<and> rows_ok d \<and> refs_ok d \<and> dlq_ok d \<and> running_ok d"

lemmas inv_defs = keys_ok_def rows_ok_def refs_ok_def dlq_ok_def

lemma db_okI:
  "keys_ok d \<Longrightarrow> rows_ok d \<Longrightarrow> refs_ok d \<Longrightarrow> dlq_ok d \<Longrightarrow> running_ok d \<Longrightarrow> db_ok d"
  by (simp add: db_ok_def)

lemma db_okD:
  assumes "db_ok d"
  shows "keys_ok d" and "rows_ok d" and "refs_ok d" and "dlq_ok d" and "running_ok d"
  using assms by (simp_all add: db_ok_def)

lemma job_key_unique:
  "keys_ok d \<Longrightarrow> r \<in> set (jobs d) \<Longrightarrow> s \<in> set (jobs d) \<Longrightarrow> j_ID r = j_ID s \<Longrightarrow> r = s"
  by (rule key_unique [of j_ID "jobs d"]) (simp_all add: keys_ok_def)

section \<open>Rows that an update rewrites\<close>

text \<open>What the row functions of the repository leave alone.\<close>

definition job_const :: "'a job_cols_scheme \<Rightarrow> (uuid \<times> uuid \<times> int) \<times> (string \<times> string \<times> json) \<times>
    (int \<times> int \<times> int) \<times> (string option \<times> time) \<times> (string option \<times> string option)" where
  "job_const r =
     ((j_ID r, j_TenantID r, j_MaxRetries r), (j_Name r, j_JobType r, j_Payload r),
      (j_Priority r, j_RetryBackoffSeconds r, j_TimeoutSeconds r), (j_CreatedBy r, j_CreatedAt r),
      (j_IdempotencyKey r, j_RequestHash r))"

definition stable_row :: "(jobs_row \<Rightarrow> jobs_row) \<Rightarrow> bool" where
  "stable_row f \<longleftrightarrow> (\<forall>r. job_const (f r) = job_const r)"

lemma stable_rowD:
  assumes "stable_row f"
  shows "j_ID (f r) = j_ID r" and "j_TenantID (f r) = j_TenantID r"
    and "j_IdempotencyKey (f r) = j_IdempotencyKey r" and "j_MaxRetries (f r) = j_MaxRetries r"
    and "job_const (f r) = job_const r"
proof -
  have "job_const (f r) = job_const r" using assms by (simp add: stable_row_def)
  then show "j_ID (f r) = j_ID r" and "j_TenantID (f r) = j_TenantID r"
    and "j_IdempotencyKey (f r) = j_IdempotencyKey r" and "j_MaxRetries (f r) = j_MaxRetries r"
    and "job_const (f r) = job_const r"
    by (simp_all add: job_const_def)
qed

lemma job_const_scan [simp]: "job_const (scanJob r) = job_const r"
  by (simp add: job_const_def scanJob_def job_cols.defs Job.defs)

lemma job_const_claimed [simp]: "job_const (claimed_job wk ttl t aid j) = job_const j"
  by (simp add: job_const_def claimed_job_def)

lemmas row_defs =
  succeed_row_def retry_row_def dead_letter_row_def transition_row_def claim_row_def

lemma stable_rows [simp]:
  "stable_row (succeed_row now)"
  "stable_row (retry_row n at m now)"
  "stable_row (dead_letter_row n m now)"
  "stable_row (transition_row to now)"
  "stable_row (claim_row wk ttl now)"
  "stable_row (\<lambda>r. r\<lparr>j_Status := st, j_LockedBy := None, j_LockedUntil := None, j_UpdatedAt := now\<rparr>)"
  "stable_row (\<lambda>r. r\<lparr>j_LockedUntil := u, j_UpdatedAt := now\<rparr>)"
  by (simp_all add: stable_row_def job_const_def row_defs)

lemma stable_maps [simp]:
  assumes "stable_row f"
  shows "map j_ID (upd_where P f rs) = map j_ID rs"
    and "map job_ref_key (upd_where P f rs) = map job_ref_key rs"
    and "idem_keys (upd_where P f rs) = idem_keys rs"
    and "map job_const (upd_where P f rs) = map job_const rs"
  using stable_rowD [OF assms]
  by (simp_all add: map_upd_where job_ref_key_def idem_keys_def filter_upd_where)

definition stable_attempt :: "(attempts_row \<Rightarrow> attempts_row) \<Rightarrow> bool" where
  "stable_attempt f \<longleftrightarrow>
     (\<forall>a. a_ID (f a) = a_ID a \<and> a_JobID (f a) = a_JobID a \<and> a_TenantID (f a) = a_TenantID a)"

lemma stable_attempts [simp]:
  "stable_attempt (\<lambda>a. a\<lparr>a_Status := st, a_CompletedAt := c, a_ExecutionDurationMS := ms, a_Result := x\<rparr>)"
  "stable_attempt (fail_attempt_row dur out now)"
  "stable_attempt (cancel_attempt_row now)"
  "stable_attempt (expire_attempt_row reason now)"
  by (simp_all add: stable_attempt_def fail_attempt_row_def cancel_attempt_row_def
      expire_attempt_row_def)

lemma stable_attempt_maps [simp]:
  assumes "stable_attempt f"
  shows "map a_ID (upd_where P f as) = map a_ID as"
    and "map (\<lambda>a. (a_JobID a, a_TenantID a)) (upd_where P f as)
       = map (\<lambda>a. (a_JobID a, a_TenantID a)) as"
    and "map (\<lambda>a. (a_ID a, a_JobID a)) (upd_where P f as) = map (\<lambda>a. (a_ID a, a_JobID a)) as"
  using assms by (simp_all add: map_upd_where stable_attempt_def)

lemma idem_keys_append [simp]: "idem_keys (rs @ ss) = idem_keys rs @ idem_keys ss"
  by (simp add: idem_keys_def)

lemma new_dead_letter_sel [simp]:
  "d_ID (new_dead_letter now did j t m n) = did"
  "d_OriginalJobID (new_dead_letter now did j t m n) = j_ID j"
  "d_TenantID (new_dead_letter now did j t m n) = t"
  "d_RequeuedAt (new_dead_letter now did j t m n) = None"
  by (simp_all add: new_dead_letter_def)

section \<open>The parts of the invariant under an update\<close>

lemma dead_unchanged:
  assumes "\<And>r. r \<in> set rs \<Longrightarrow> P r \<Longrightarrow> \<not> is_dead r \<and> \<not> is_dead (f r)"
  shows "filter is_dead (upd_where P f rs) = filter is_dead rs"
  using assms by (induction rs) auto

lemma dead_added:
  assumes "stable_row f" and "\<And>r. r \<in> set rs \<Longrightarrow> P r \<Longrightarrow> is_dead (f r)"
  shows "set (map j_ID (filter is_dead (upd_where P f rs)))
       = set (map j_ID (filter is_dead rs)) \<union> set (map j_ID (filter P rs))"
  using assms by (induction rs) (auto simp: stable_rowD)

lemma dlq_ok_same:
  assumes "dlq_ok d" and "jobs d' = upd_where P f (jobs d)"
    and "map d_OriginalJobID (dead_letter_jobs d') = map d_OriginalJobID (dead_letter_jobs d)"
    and "\<And>r. r \<in> set (jobs d) \<Longrightarrow> P r \<Longrightarrow> \<not> is_dead r \<and> \<not> is_dead (f r)"
  shows "dlq_ok d'"
proof -
  have "filter is_dead (jobs d') = filter is_dead (jobs d)"
    unfolding assms(2) by (rule dead_unchanged) (rule assms(4))
  with assms(1,3) show ?thesis
    by (simp only: dlq_ok_def)
qed

lemma rows_ok_update:
  assumes "rows_ok d" and "jobs d' = upd_where P f (jobs d)"
    and "\<And>r. r \<in> set (jobs d) \<Longrightarrow> P r \<Longrightarrow> job_ok r \<Longrightarrow> job_ok (f r)"
  shows "rows_ok d'"
  using assms by (auto simp: rows_ok_def in_upd_where)

lemma running_ok_update:
  assumes "running_ok d"
    and "jobs d' = upd_where P f (jobs d)"
    and "job_attempts d' = upd_where Q g (job_attempts d)"
    and "\<And>r. r \<in> set (jobs d) \<Longrightarrow> P r \<Longrightarrow> j_LockedBy (f r) = None"
    and "\<And>r a. r \<in> set (jobs d) \<Longrightarrow> \<not> P r \<Longrightarrow> j_LockedBy r \<noteq> None \<Longrightarrow>
           a \<in> set (job_attempts d) \<Longrightarrow> Q a \<Longrightarrow> a_JobID a \<noteq> j_ID r"
  shows "running_ok d'"
  unfolding running_ok_def
proof
  fix r'
  assume "r' \<in> set (jobs d')"
  with assms(2) have "r' \<in> set (upd_where P f (jobs d))" by simp
  then show "case j_LockedBy r' of None \<Rightarrow> True | Some wk \<Rightarrow> has_attempt d' (j_ID r') wk"
  proof (cases rule: upd_whereE)
    case (changed r)
    with assms(4) show ?thesis by simp
  next
    case same
    show ?thesis
    proof (cases "j_LockedBy r'")
      case (Some wk)
      with assms(1) same obtain a where a: "a \<in> set (job_attempts d)" "a_JobID a = j_ID r'"
          "a_WorkerID a = wk" "a_Status a = AttemptRunning"
        by (fastforce simp: running_ok_def has_attempt_def)
      with assms(5) same Some have "\<not> Q a" by blast
      with a assms(3) have "a \<in> set (job_attempts d')" by (auto simp: in_upd_where)
      with a Some show ?thesis by (auto simp: has_attempt_def)
    qed simp
  qed
qed

section \<open>Claims\<close>

text \<open>
  What remains true of a job value handed out by \<open>ClaimDueJobs\<close> for as long as a worker holds it,
  even after its lease has been lost: its attempt was created for that job, the tenant and the
  retry budget are those of the row, and the budget was not spent when it was claimed.
\<close>

definition attempt_keys :: "db \<Rightarrow> (uuid \<times> uuid) set" where
  "attempt_keys d = set (map (\<lambda>a. (a_ID a, a_JobID a)) (job_attempts d))"

abbreviation job_consts :: "db \<Rightarrow> _ set" where
  "job_consts d \<equiv> set (map job_const (jobs d))"

definition claim_ok :: "db \<Rightarrow> Job \<Rightarrow> bool" where
  "claim_ok d j \<longleftrightarrow>
     (j_ActiveAttemptID j, j_ID j) \<in> attempt_keys d \<and>
     job_const j \<in> job_consts d \<and>
     0 \<le> j_RetryCount j \<and> j_RetryCount j \<le> j_MaxRetries j"

definition extends :: "db \<Rightarrow> db \<Rightarrow> bool" where
  "extends d d' \<longleftrightarrow> attempt_keys d \<subseteq> attempt_keys d' \<and> job_consts d \<subseteq> job_consts d'"

lemma claim_ok_extends: "claim_ok d j \<Longrightarrow> extends d d' \<Longrightarrow> claim_ok d' j"
  by (auto simp: claim_ok_def extends_def)

lemma extends_refl [simp]: "extends d d"
  by (simp add: extends_def)

lemma extends_trans: "extends d d' \<Longrightarrow> extends d' d'' \<Longrightarrow> extends d d''"
  unfolding extends_def by (meson order_trans)

lemma claim_attempt:
  assumes "keys_ok d" and "claim_ok d j" and "a \<in> set (job_attempts d)"
    and "a_ID a = j_ActiveAttemptID j"
  shows "a_JobID a = j_ID j"
proof -
  from assms(2) obtain b where "b \<in> set (job_attempts d)" "a_ID b = j_ActiveAttemptID j"
      "a_JobID b = j_ID j"
    by (auto simp: claim_ok_def attempt_keys_def)
  with assms key_unique [of a_ID "job_attempts d" a b] show ?thesis
    by (simp add: keys_ok_def)
qed

lemma claim_row_consts:
  assumes "keys_ok d" and "claim_ok d j" and "r \<in> set (jobs d)" and "j_ID r = j_ID j"
  shows "j_TenantID r = j_TenantID j" and "j_MaxRetries r = j_MaxRetries j"
proof -
  from assms(2) obtain s where "s \<in> set (jobs d)" "j_ID s = j_ID j"
      "j_TenantID s = j_TenantID j" "j_MaxRetries s = j_MaxRetries j"
    by (auto simp: claim_ok_def job_const_def)
  with assms job_key_unique [of d r s]
  show "j_TenantID r = j_TenantID j" and "j_MaxRetries r = j_MaxRetries j" by simp_all
qed

lemma claim_ref:
  "claim_ok d j \<Longrightarrow> (j_ID j, j_TenantID j) \<in> set (map job_ref_key (jobs d))"
  by (force simp: claim_ok_def job_const_def job_ref_key_def)

section \<open>Every effect keeps the invariant\<close>

lemma owned_not_dead: "owned_by i wk r \<Longrightarrow> \<not> is_dead r"
  by (simp add: owned_by_def is_dead_def)

lemma finish_running_ok:
  assumes ok: "keys_ok d" "running_ok d" and c: "claim_ok d j"
    and js: "jobs d' = upd_where P f (jobs d)"
    and as: "job_attempts d' = upd_where Q g (job_attempts d)"
    and r: "r \<in> set (jobs d)" "P r" "j_ID r = j_ID j"
    and f: "\<And>r. j_LockedBy (f r) = None"
    and Q: "\<And>a. Q a \<Longrightarrow> a_ID a = j_ActiveAttemptID j"
  shows "running_ok d'"
proof (rule running_ok_update [OF ok(2) js as])
  fix s a
  assume s: "s \<in> set (jobs d)" "\<not> P s" and a: "a \<in> set (job_attempts d)" "Q a"
  have "a_JobID a = j_ID j" using claim_attempt [OF ok(1) c a(1)] Q a(2) by blast
  moreover have "j_ID s \<noteq> j_ID j"
    using job_key_unique [OF ok(1) s(1) r(1)] s(2) r by metis
  ultimately show "a_JobID a \<noteq> j_ID s" by simp
qed (simp add: f)

lemma complete_effect_ok:
  assumes ok: "db_ok d" and c: "claim_ok d j" and e: "eid \<notin> e_ID ` set (job_events d)"
    and r: "r \<in> set (jobs d)" "owned_by (j_ID j) wk r" "j_TenantID r = j_TenantID j"
  shows "db_ok (complete_effect j wk dur res now eid d)"
proof (rule db_okI)
  let ?d = "complete_effect j wk dur res now eid d"
  show "keys_ok ?d" using db_okD(1) [OF ok] e by (simp add: complete_effect_def keys_ok_def)
  show "rows_ok ?d"
    using db_okD(2) [OF ok]
    by (rule rows_ok_update, simp add: complete_effect_def)
       (auto simp: job_ok_def succeed_row_def owned_by_def)
  show "refs_ok ?d"
    using db_okD(3) [OF ok] claim_ref [OF c] by (simp add: complete_effect_def refs_ok_def)
  show "dlq_ok ?d"
    using db_okD(4) [OF ok]
    by (rule dlq_ok_same, simp add: complete_effect_def, simp add: complete_effect_def)
       (simp add: owned_by_def is_dead_def succeed_row_def)
  show "running_ok ?d"
    by (rule finish_running_ok [OF db_okD(1,5) [OF ok] c], simp add: complete_effect_def,
        simp add: complete_effect_def)
       (use r in \<open>auto simp: succeed_row_def owned_by_def\<close>)
qed

lemma retry_effect_ok:
  assumes ok: "db_ok d" and c: "claim_ok d j"
    and e: "eid \<notin> e_ID ` set (job_events d)" "eid' \<notin> e_ID ` set (job_events d)" "eid \<noteq> eid'"
    and r: "r \<in> set (jobs d)" "owned_by (j_ID j) wk r"
    and n: "0 \<le> n" "n \<le> j_MaxRetries j"
  shows "db_ok (retry_effect j wk dur out n at now eid eid' d)"
proof (rule db_okI)
  let ?d = "retry_effect j wk dur out n at now eid eid' d"
  show "keys_ok ?d" using db_okD(1) [OF ok] e by (simp add: retry_effect_def keys_ok_def)
  show "rows_ok ?d"
    using db_okD(2) [OF ok]
    by (rule rows_ok_update, simp add: retry_effect_def)
       (use n claim_row_consts(2) [OF db_okD(1) [OF ok] c] in
         \<open>auto simp: job_ok_def retry_row_def owned_by_def\<close>)
  show "refs_ok ?d"
    using db_okD(3) [OF ok] claim_ref [OF c] by (simp add: retry_effect_def refs_ok_def)
  show "dlq_ok ?d"
    using db_okD(4) [OF ok]
    by (rule dlq_ok_same, simp add: retry_effect_def, simp add: retry_effect_def)
       (simp add: owned_by_def is_dead_def retry_row_def)
  show "running_ok ?d"
    by (rule finish_running_ok [OF db_okD(1,5) [OF ok] c], simp add: retry_effect_def,
        simp add: retry_effect_def)
       (use r in \<open>auto simp: retry_row_def owned_by_def\<close>)
qed

text \<open>A job that was not dead-lettered has no dead letter yet.\<close>

lemma no_dead_letter:
  assumes "keys_ok d" and "dlq_ok d" and "r \<in> set (jobs d)" and "\<not> is_dead r"
  shows "j_ID r \<notin> set (map d_OriginalJobID (dead_letter_jobs d))"
  using assms job_key_unique [OF assms(1,3)] by (auto simp: dlq_ok_def)

lemma dlq_ok_dead:
  assumes "keys_ok d" and "dlq_ok d"
    and "jobs d' = upd_where P f (jobs d)"
    and "dead_letter_jobs d' = dead_letter_jobs d @ [x]"
    and "stable_row f" and "\<And>s. is_dead (f s)" and "d_OriginalJobID x = j_ID r"
    and "r \<in> set (jobs d)" and "P r" and "\<not> is_dead r"
    and "\<And>s. P s \<Longrightarrow> j_ID s = j_ID r"
  shows "dlq_ok d'"
proof -
  have "set (map j_ID (filter is_dead (jobs d')))
      = set (map j_ID (filter is_dead (jobs d))) \<union> set (map j_ID (filter P (jobs d)))"
    unfolding assms(3) by (rule dead_added [OF assms(5)]) (rule assms(6))
  moreover have "set (map j_ID (filter P (jobs d))) = {j_ID r}"
    using assms(8,9) by (auto dest: assms(11))
  moreover have "j_ID r \<notin> set (map d_OriginalJobID (dead_letter_jobs d))"
    by (rule no_dead_letter [OF assms(1,2,8,10)])
  ultimately show ?thesis
    using assms(2,4,7) by (simp add: dlq_ok_def)
qed

lemma dead_effect_ok:
  assumes ok: "db_ok d" and c: "claim_ok d j"
    and i: "did \<notin> d_ID ` set (dead_letter_jobs d)"
    and e: "eid \<notin> e_ID ` set (job_events d)" "eid' \<notin> e_ID ` set (job_events d)" "eid \<noteq> eid'"
    and r: "r \<in> set (jobs d)" "owned_by (j_ID j) wk r"
    and n: "0 \<le> n" "n \<le> j_MaxRetries j + 1"
  shows "db_ok (dead_effect j wk dur out n now did eid eid' d)"
proof (rule db_okI)
  let ?d = "dead_effect j wk dur out n now did eid eid' d"
  show "keys_ok ?d" using db_okD(1) [OF ok] e i by (simp add: dead_effect_def keys_ok_def)
  show "rows_ok ?d"
    using db_okD(2) [OF ok]
    by (rule rows_ok_update, simp add: dead_effect_def)
       (use n claim_row_consts(2) [OF db_okD(1) [OF ok] c] in
         \<open>auto simp: job_ok_def dead_letter_row_def owned_by_def\<close>)
  show "refs_ok ?d"
    using db_okD(3) [OF ok] claim_ref [OF c] by (simp add: dead_effect_def refs_ok_def)
  show "dlq_ok ?d"
    by (rule dlq_ok_dead [OF db_okD(1,4) [OF ok], where r = r], simp add: dead_effect_def,
        simp add: dead_effect_def)
       (use r in \<open>simp_all add: is_dead_def dead_letter_row_def owned_by_def\<close>)
  show "running_ok ?d"
    by (rule finish_running_ok [OF db_okD(1,5) [OF ok] c], simp add: dead_effect_def,
        simp add: dead_effect_def)
       (use r in \<open>auto simp: dead_letter_row_def owned_by_def\<close>)
qed

text \<open>Updates that leave the attempts alone.\<close>

lemma running_ok_same:
  assumes "running_ok d" and "jobs d' = upd_where P f (jobs d)"
    and "job_attempts d' = job_attempts d"
    and "\<And>r. r \<in> set (jobs d) \<Longrightarrow> P r \<Longrightarrow>
           j_LockedBy (f r) = None \<or> j_LockedBy (f r) = j_LockedBy r \<and> j_ID (f r) = j_ID r"
  shows "running_ok d'"
  unfolding running_ok_def
proof
  fix r'
  assume "r' \<in> set (jobs d')"
  with assms(2) obtain r where r: "r \<in> set (jobs d)" "r' = (if P r then f r else r)"
    by (auto simp: in_upd_where)
  with assms(1) have "case j_LockedBy r of None \<Rightarrow> True | Some wk \<Rightarrow> has_attempt d (j_ID r) wk"
    by (simp add: running_ok_def)
  moreover have "has_attempt d' = has_attempt d"
    using assms(3) by (intro ext) (simp add: has_attempt_def)
  ultimately show "case j_LockedBy r' of None \<Rightarrow> True | Some wk \<Rightarrow> has_attempt d' (j_ID r') wk"
    using r assms(4) [OF r(1)] by (auto split: option.splits if_splits)
qed

lemma release_ok:
  assumes ok: "db_ok d"
  shows "db_ok (d\<lparr>jobs := upd_where (owned_by i wk)
           (\<lambda>r. r\<lparr>j_Status := StatusRetryScheduled, j_LockedBy := None, j_LockedUntil := None,
                  j_UpdatedAt := now\<rparr>) (jobs d)\<rparr>)" (is "db_ok ?d")
proof (rule db_okI)
  show "keys_ok ?d" using db_okD(1) [OF ok] by (simp add: keys_ok_def)
  show "rows_ok ?d"
    using db_okD(2) [OF ok]
    by (rule rows_ok_update, simp) (auto simp: job_ok_def owned_by_def)
  show "refs_ok ?d" using db_okD(3) [OF ok] by (simp add: refs_ok_def)
  show "dlq_ok ?d"
    using db_okD(4) [OF ok]
    by (rule dlq_ok_same, simp, simp) (simp add: owned_by_def is_dead_def)
  show "running_ok ?d"
    using db_okD(5) [OF ok] by (rule running_ok_same, simp, simp) auto
qed

lemma extend_ok:
  assumes ok: "db_ok d"
  shows "db_ok (d\<lparr>jobs := upd_where (owned_by i wk)
           (\<lambda>r. r\<lparr>j_LockedUntil := Some u, j_UpdatedAt := now\<rparr>) (jobs d)\<rparr>)" (is "db_ok ?d")
proof (rule db_okI)
  show "keys_ok ?d" using db_okD(1) [OF ok] by (simp add: keys_ok_def)
  show "rows_ok ?d"
    using db_okD(2) [OF ok]
    by (rule rows_ok_update, simp) (auto simp: job_ok_def owned_by_def)
  show "refs_ok ?d" using db_okD(3) [OF ok] by (simp add: refs_ok_def)
  show "dlq_ok ?d"
    using db_okD(4) [OF ok]
    by (rule dlq_ok_same, simp, simp) (simp add: owned_by_def is_dead_def)
  show "running_ok ?d"
    using db_okD(5) [OF ok] by (rule running_ok_same, simp, simp) auto
qed

definition operator_move :: "Status list \<Rightarrow> Status \<Rightarrow> bool" where
  "operator_move from to \<longleftrightarrow>
     to \<notin> {StatusRunning, StatusDeadLettered, StatusFailed} \<and> StatusDeadLettered \<notin> set from"

lemma transition_running_ok:
  assumes ok: "keys_ok d" "running_ok d" and r: "r \<in> set (jobs d)" "j_ID r = i" "P r"
    and js: "jobs d' = upd_where P f (jobs d)"
    and as: "job_attempts d' = upd_where (\<lambda>a. a_JobID a = i \<and> a_Status a = AttemptRunning) g (job_attempts d)"
    and f: "\<And>s. j_LockedBy (f s) = None"
  shows "running_ok d'"
proof (rule running_ok_update [OF ok(2) js as])
  fix s a
  assume s: "s \<in> set (jobs d)" "\<not> P s" and a: "a_JobID a = i \<and> a_Status a = AttemptRunning"
  then show "a_JobID a \<noteq> j_ID s" using job_key_unique [OF ok(1) s(1) r(1)] r by metis
qed (simp add: f)

lemma transition_effect_ok:
  assumes ok: "db_ok d" and m: "operator_move from to"
    and e: "eid \<notin> e_ID ` set (job_events d)"
    and r: "r \<in> set (jobs d)" "j_TenantID r = t" "j_ID r = i" "j_Status r \<in> set from"
  shows "db_ok (transition_effect t i from to now eid d)"
proof (rule db_okI)
  let ?d = "transition_effect t i from to now eid d"
  show "keys_ok ?d" using db_okD(1) [OF ok] e by (simp add: transition_effect_def keys_ok_def)
  show "rows_ok ?d"
    using db_okD(2) [OF ok]
    by (rule rows_ok_update, simp add: transition_effect_def)
       (use m in \<open>auto simp: operator_move_def job_ok_def transition_row_def\<close>)
  have "(i, t) \<in> set (map job_ref_key (jobs d))" using r by (auto simp: job_ref_key_def)
  then show "refs_ok ?d"
    using db_okD(3) [OF ok] by (cases "to = StatusCancelled") (simp_all add: transition_effect_def refs_ok_def)
  show "dlq_ok ?d"
    using db_okD(4) [OF ok]
    by (rule dlq_ok_same, simp add: transition_effect_def, simp add: transition_effect_def)
       (use m in \<open>auto simp: operator_move_def is_dead_def transition_row_def\<close>)
  show "running_ok ?d"
  proof (cases "to = StatusCancelled")
    case True
    with db_okD(1,5) [OF ok] show ?thesis
      by - (rule transition_running_ok [where r = r and i = i], assumption, assumption, rule r, rule r,
            use r in \<open>auto simp: transition_effect_def transition_row_def\<close>)
  next
    case False
    with db_okD(5) [OF ok] show ?thesis
      by - (rule running_ok_same, assumption, simp add: transition_effect_def,
            simp_all add: transition_effect_def transition_row_def)
  qed
qed

text \<open>Appending a job.\<close>

lemma append_job_ok:
  assumes ok: "db_ok d" and r: "j_ID r \<notin> j_ID ` set (jobs d)" "job_ok r" "\<not> is_dead r"
      "j_LockedBy r = None"
    and k: "\<And>k s. j_IdempotencyKey r = Some k \<Longrightarrow> s \<in> set (jobs d) \<Longrightarrow>
           j_TenantID s = j_TenantID r \<Longrightarrow> j_IdempotencyKey s \<noteq> Some k"
    and e: "e_ID ev \<notin> e_ID ` set (job_events d)" "e_JobID ev = j_ID r" "e_TenantID ev = j_TenantID r"
    and d': "jobs d' = jobs d @ [r]" "job_attempts d' = job_attempts d"
      "map d_ID (dead_letter_jobs d') = map d_ID (dead_letter_jobs d)"
      "map (\<lambda>x. (d_OriginalJobID x, d_TenantID x)) (dead_letter_jobs d')
        = map (\<lambda>x. (d_OriginalJobID x, d_TenantID x)) (dead_letter_jobs d)"
      "job_events d' = job_events d @ [ev]"
  shows "db_ok d'"
proof (rule db_okI)
  have "distinct (idem_keys (jobs d @ [r]))"
    using db_okD(1) [OF ok] k by (auto simp: keys_ok_def idem_keys_def)
  then show "keys_ok d'" using db_okD(1) [OF ok] r e d' by (simp add: keys_ok_def)
  show "rows_ok d'" using db_okD(2) [OF ok] r d' by (auto simp: rows_ok_def)
  have "job_ref_key r = (e_JobID ev, e_TenantID ev)" using e by (simp add: job_ref_key_def)
  then show "refs_ok d'"
    using db_okD(3) [OF ok] unfolding refs_ok_def d' by auto
  have "map fst (map (\<lambda>x. (d_OriginalJobID x, d_TenantID x)) (dead_letter_jobs d'))
      = map fst (map (\<lambda>x. (d_OriginalJobID x, d_TenantID x)) (dead_letter_jobs d))"
    using d'(4) by simp
  then have "map d_OriginalJobID (dead_letter_jobs d') = map d_OriginalJobID (dead_letter_jobs d)"
    by (simp add: comp_def)
  then show "dlq_ok d'"
    using db_okD(4) [OF ok] r d' by (simp only: dlq_ok_def) simp
  have "has_attempt d' = has_attempt d"
    using d' by (intro ext) (simp add: has_attempt_def)
  then show "running_ok d'"
    using db_okD(5) [OF ok] r d' by (auto simp: running_ok_def split: option.splits)
qed

lemma requeue_effect_ok:
  assumes ok: "db_ok d" and "newID \<notin> j_ID ` set (jobs d)"
    and "eid \<notin> e_ID ` set (job_events d)" and "st \<in> {StatusPending, StatusScheduled}"
  shows "db_ok (requeue_effect dl newID t st at now eid d)"
  by (rule append_job_ok [OF ok, where r = "requeue_row dl newID t st at now"])
     (use assms in \<open>auto simp: requeue_effect_def job_ok_def is_dead_def map_upd_where\<close>)

text \<open>Claiming one job.\<close>

definition waiting :: "jobs_row \<Rightarrow> bool" where
  "waiting r \<longleftrightarrow> j_Status r \<in> {StatusPending, StatusScheduled, StatusRetryScheduled}"

lemma claimable_waiting: "claimable now r \<Longrightarrow> waiting r"
  by (simp add: claimable_def waiting_def)

lemma running_ok_claim:
  assumes "running_ok d" and "jobs d' = upd_where P f (jobs d)"
    and "job_attempts d' = job_attempts d @ [a]" and "a_Status a = AttemptRunning"
    and "\<And>s. P s \<Longrightarrow> j_ID (f s) = a_JobID a \<and> j_LockedBy (f s) = Some (a_WorkerID a)"
  shows "running_ok d'"
  unfolding running_ok_def
proof
  fix r'
  assume "r' \<in> set (jobs d')"
  with assms(2) have "r' \<in> set (upd_where P f (jobs d))" by simp
  then show "case j_LockedBy r' of None \<Rightarrow> True | Some wk \<Rightarrow> has_attempt d' (j_ID r') wk"
  proof (cases rule: upd_whereE)
    case (changed r)
    with assms(3-5) show ?thesis by (auto simp: has_attempt_def)
  next
    case same
    with assms(1) have "case j_LockedBy r' of None \<Rightarrow> True | Some wk \<Rightarrow> has_attempt d (j_ID r') wk"
      by (simp add: running_ok_def)
    with assms(3) show ?thesis by (auto simp: has_attempt_def split: option.splits)
  qed
qed

lemma claim_effect_ok:
  assumes ok: "db_ok d" and r: "r \<in> set (jobs d)" "waiting r" "j_ID j = j_ID r"
      "j_TenantID j = j_TenantID r"
    and fresh: "eid \<notin> e_ID ` set (job_events d)" "j_ActiveAttemptID j \<notin> a_ID ` set (job_attempts d)"
  shows "db_ok (claim_effect wk ttl now eid j d)"
proof (rule db_okI)
  let ?d = "claim_effect wk ttl now eid j d"
  have same: "s = r" if "s \<in> set (jobs d)" "j_ID s = j_ID r" for s
    using job_key_unique [OF db_okD(1) [OF ok]] that r by blast
  show "keys_ok ?d" using db_okD(1) [OF ok] fresh by (simp add: claim_effect_def keys_ok_def)
  show "rows_ok ?d"
    using db_okD(2) [OF ok]
    by (rule rows_ok_update, simp add: claim_effect_def)
       (use r in \<open>auto simp: job_ok_def claim_row_def waiting_def dest: same\<close>)
  have "job_ref_key r \<in> set (map job_ref_key (jobs d))" using r by simp
  then show "refs_ok ?d"
    using db_okD(3) [OF ok] r by (simp add: claim_effect_def refs_ok_def job_ref_key_def [of r])
  show "dlq_ok ?d"
    using db_okD(4) [OF ok]
    by (rule dlq_ok_same, simp add: claim_effect_def, simp add: claim_effect_def)
       (use r in \<open>auto simp: waiting_def is_dead_def claim_row_def dest: same\<close>)
  show "running_ok ?d"
    using db_okD(5) [OF ok]
    by (rule running_ok_claim, simp add: claim_effect_def, simp add: claim_effect_def)
       (simp_all add: claim_row_def)
qed

lemma claim_effect_claim_ok:
  assumes "r \<in> set (jobs d)" and "job_ok r" and "waiting r" and "j_ID j = j_ID r"
    and "job_const j = job_const r" and "j_RetryCount j = j_RetryCount r"
  shows "claim_ok (claim_effect wk ttl now eid j d) j"
  using assms
  by (auto simp: claim_ok_def claim_effect_def attempt_keys_def job_ok_def waiting_def job_const_def)

text \<open>Recovering one job.\<close>

lemma recover_running_ok:
  assumes ok: "keys_ok d" "running_ok d"
    and js: "jobs d' = upd_where (\<lambda>r. j_ID r = j_ID j \<and> j_Status r = StatusRunning) f (jobs d)"
    and r: "r \<in> set (jobs d)" "j_ID j = j_ID r" "j_Status r = StatusRunning"
    and as: "job_attempts d' = expire_attempts reason (j_ID j) now (job_attempts d)"
    and f: "\<And>s. j_LockedBy (f s) = None"
  shows "running_ok d'"
  using ok r(1) r(2) [symmetric] _ js as [unfolded expire_attempts_def] f
  by (rule transition_running_ok) (use r in simp)

lemma recover_retry_ok:
  assumes ok: "db_ok d" and r: "r \<in> set (jobs d)" "j = scanJob r" "j_Status r = StatusRunning"
    and e: "eid \<notin> e_ID ` set (job_events d)" and n: "j_RetryCount j < j_MaxRetries j"
  shows "db_ok (recover_retry reason at now eid j d)"
proof (rule db_okI)
  let ?d = "recover_retry reason at now eid j d"
  have same: "s = r" if "s \<in> set (jobs d)" "j_ID s = j_ID r" for s
    using job_key_unique [OF db_okD(1) [OF ok]] that r by blast
  show "keys_ok ?d"
    using db_okD(1) [OF ok] e by (simp add: recover_retry_def expire_attempts_def keys_ok_def)
  show "rows_ok ?d"
    using db_okD(2) [OF ok]
    by (rule rows_ok_update, simp add: recover_retry_def)
       (use r n in \<open>auto simp: job_ok_def retry_row_def dest: same\<close>)
  have "job_ref_key r \<in> set (map job_ref_key (jobs d))" using r by simp
  then show "refs_ok ?d"
    using db_okD(3) [OF ok] r
    by (simp add: recover_retry_def expire_attempts_def refs_ok_def job_ref_key_def [of r])
  show "dlq_ok ?d"
    using db_okD(4) [OF ok]
    by (rule dlq_ok_same, simp add: recover_retry_def, simp add: recover_retry_def)
       (simp add: is_dead_def retry_row_def)
  show "running_ok ?d"
    by (rule recover_running_ok [OF db_okD(1,5) [OF ok], where j = j and r = r],
        simp add: recover_retry_def)
       (use r in \<open>simp_all add: recover_retry_def retry_row_def\<close>)
qed

lemma recover_dead_ok:
  assumes ok: "db_ok d" and r: "r \<in> set (jobs d)" "j = scanJob r" "j_Status r = StatusRunning"
    and e: "eid \<notin> e_ID ` set (job_events d)" and i: "did \<notin> d_ID ` set (dead_letter_jobs d)"
  shows "db_ok (recover_dead reason now did eid j d)"
proof (rule db_okI)
  let ?d = "recover_dead reason now did eid j d"
  have same: "s = r" if "s \<in> set (jobs d)" "j_ID s = j_ID r" for s
    using job_key_unique [OF db_okD(1) [OF ok]] that r by blast
  show "keys_ok ?d"
    using db_okD(1) [OF ok] e i by (simp add: recover_dead_def expire_attempts_def keys_ok_def)
  show "rows_ok ?d"
    using db_okD(2) [OF ok]
    by (rule rows_ok_update, simp add: recover_dead_def)
       (use r in \<open>auto simp: job_ok_def dead_letter_row_def dest: same\<close>)
  have "job_ref_key r \<in> set (map job_ref_key (jobs d))" using r by simp
  then show "refs_ok ?d"
    using db_okD(3) [OF ok] r
    by (simp add: recover_dead_def expire_attempts_def refs_ok_def job_ref_key_def [of r])
  show "dlq_ok ?d"
    by (rule dlq_ok_dead [OF db_okD(1,4) [OF ok], where r = r], simp add: recover_dead_def,
        simp add: recover_dead_def)
       (use r in \<open>simp_all add: is_dead_def dead_letter_row_def\<close>)
  show "running_ok ?d"
    by (rule recover_running_ok [OF db_okD(1,5) [OF ok], where j = j and r = r],
        simp add: recover_dead_def)
       (use r in \<open>simp_all add: recover_dead_def dead_letter_row_def\<close>)
qed

section \<open>Effects extend the database and move jobs along the transition table\<close>

definition moves :: "db \<Rightarrow> db \<Rightarrow> bool" where
  "moves d d' \<longleftrightarrow>
     (\<forall>r\<in>set (jobs d). \<exists>r'\<in>set (jobs d'). job_const r' = job_const r \<and>
        (j_Status r' = j_Status r \<or>
         can_move (j_Status r) (j_Status r') \<and> j_Status r \<noteq> StatusDeadLettered))"

lemma moves_refl [simp]: "moves d d"
  by (auto simp: moves_def)

lemma moves_update:
  assumes "jobs d' = upd_where P f (jobs d)" and "stable_row f"
    and "\<And>r. r \<in> set (jobs d) \<Longrightarrow> P r \<Longrightarrow>
           j_Status (f r) = j_Status r \<or>
           can_move (j_Status r) (j_Status (f r)) \<and> j_Status r \<noteq> StatusDeadLettered"
  shows "moves d d'"
  unfolding moves_def
proof
  fix r
  assume r: "r \<in> set (jobs d)"
  then have "(if P r then f r else r) \<in> set (jobs d')"
    using assms(1) by (auto simp: in_upd_where)
  moreover have "job_const (if P r then f r else r) = job_const r"
    using stable_rowD(5) [OF assms(2)] by simp
  ultimately show "\<exists>r'\<in>set (jobs d'). job_const r' = job_const r \<and>
        (j_Status r' = j_Status r \<or>
         can_move (j_Status r) (j_Status r') \<and> j_Status r \<noteq> StatusDeadLettered)"
    using assms(3) [OF r] by (intro bexI [of _ "if P r then f r else r"]) auto
qed

lemma moves_append: "jobs d' = jobs d @ rs \<Longrightarrow> moves d d'"
  by (auto simp: moves_def)

lemma extendsI:
  assumes "set (map (\<lambda>a. (a_ID a, a_JobID a)) (job_attempts d))
      \<subseteq> set (map (\<lambda>a. (a_ID a, a_JobID a)) (job_attempts d'))"
    and "job_consts d \<subseteq> job_consts d'"
  shows "extends d d'"
  using assms by (simp only: extends_def attempt_keys_def)

lemma extends_effects [simp]:
  "extends d (complete_effect j wk dur res now eid d)"
  "extends d (retry_effect j wk dur out n at now eid eid' d)"
  "extends d (dead_effect j wk dur out n now did eid eid' d)"
  "extends d (requeue_effect dl newID t st at now eid d)"
  "extends d (claim_effect wk ttl now eid j d)"
  "extends d (recover_retry reason at now eid j d)"
  "extends d (recover_dead reason now did eid j d)"
  by (rule extendsI; force simp: complete_effect_def retry_effect_def dead_effect_def
        requeue_effect_def claim_effect_def recover_retry_def recover_dead_def
        expire_attempts_def)+

lemma extends_transition [simp]: "extends d (transition_effect t i from to now eid d)"
  by (rule extendsI; cases "to = StatusCancelled"; simp add: transition_effect_def)

text \<open>The guarantee of a call: the invariant, the claims in flight, the transition table.\<close>

definition event_const ::
  "events_row \<Rightarrow> (uuid \<times> uuid \<times> uuid) \<times> (string \<times> string \<times> int) \<times> event_payload \<times> time" where
  "event_const e =
     ((e_ID e, e_JobID e, e_TenantID e), (e_EventType e, e_Source e, e_SchemaVersion e),
      e_Payload e, e_CreatedAt e)"

definition log_grows :: "db \<Rightarrow> db \<Rightarrow> bool" where
  "log_grows d d' \<longleftrightarrow>
     (\<exists>cs. map event_const (job_events d') = map event_const (job_events d) @ cs)"

lemma log_grows_append: "job_events d' = job_events d @ es \<Longrightarrow> log_grows d d'"
  by (simp add: log_grows_def)

lemma log_grows_trans: "log_grows d d' \<Longrightarrow> log_grows d' d'' \<Longrightarrow> log_grows d d''"
  by (auto simp: log_grows_def)

lemma log_grows_effects [simp]:
  "log_grows d (complete_effect j wk dur res now eid d)"
  "log_grows d (retry_effect j wk dur out n at now eid eid' d)"
  "log_grows d (dead_effect j wk dur out n now did eid eid' d)"
  "log_grows d (transition_effect t i from to now eid d)"
  "log_grows d (requeue_effect dl newID t st at now eid d)"
  "log_grows d (claim_effect wk ttl now eid j d)"
  "log_grows d (recover_retry reason at now eid j d)"
  "log_grows d (recover_dead reason now did eid j d)"
  by (simp_all add: log_grows_def complete_effect_def retry_effect_def dead_effect_def
      transition_effect_def requeue_effect_def claim_effect_def recover_retry_def recover_dead_def)

text \<open>A finished attempt is never touched again.\<close>

definition settled :: "db \<Rightarrow> db \<Rightarrow> bool" where
  "settled d d' \<longleftrightarrow>
     (\<forall>a\<in>set (job_attempts d). a_Status a \<noteq> AttemptRunning \<longrightarrow> a \<in> set (job_attempts d'))"

lemma settled_trans: "settled d d' \<Longrightarrow> settled d' d'' \<Longrightarrow> settled d d''"
  by (auto simp: settled_def)

lemma settled_same: "job_attempts d' = job_attempts d @ as \<Longrightarrow> settled d d'"
  by (simp add: settled_def)

lemma settled_update:
  "job_attempts d' = upd_where (\<lambda>a. P a \<and> a_Status a = AttemptRunning) f (job_attempts d) \<Longrightarrow> settled d d'"
  by (auto simp: settled_def in_upd_where)

lemma settled_effects [simp]:
  "settled d (complete_effect j wk dur res now eid d)"
  "settled d (retry_effect j wk dur out n at now eid eid' d)"
  "settled d (dead_effect j wk dur out n now did eid eid' d)"
  "settled d (recover_retry reason at now eid j d)"
  "settled d (recover_dead reason now did eid j d)"
  by (rule settled_update, simp add: complete_effect_def retry_effect_def dead_effect_def
      recover_retry_def recover_dead_def expire_attempts_def)+

lemma settled_transition [simp]: "settled d (transition_effect t i from to now eid d)"
  by (cases "to = StatusCancelled")
     (auto simp: transition_effect_def settled_def in_upd_where)

lemma settled_requeue [simp]: "settled d (requeue_effect dl newID t st at now eid d)"
  by (simp add: requeue_effect_def settled_def)

definition sound_call :: "db \<Rightarrow> db \<Rightarrow> bool" where
  "sound_call d d' \<longleftrightarrow>
     db_ok d' \<and> extends d d' \<and> moves d d' \<and> log_grows d d' \<and> settled d d'"

lemma sound_call_refl: "db_ok d \<Longrightarrow> sound_call d d"
  by (simp add: sound_call_def log_grows_def settled_def)

lemma sound_or_same:
  assumes "atomic_tx m" and "db_ok (w_db w)" and "m w = (r, w')"
    and "\<And>x. m w = (Inr x, w') \<Longrightarrow> sound_call (w_db w) (w_db w')"
  shows "sound_call (w_db w) (w_db w')"
proof (cases r)
  case (Inl e)
  with assms atomic_txD [OF assms(1), of w e w'] show ?thesis by (simp add: sound_call_refl)
next
  case (Inr x)
  with assms show ?thesis by simp
qed

lemma CompleteExecution_sound:
  assumes "db_ok (w_db w)" and "claim_ok (w_db w) j"
    and "CompleteExecution j wk dur res w = (Inr u, w')"
  shows "sound_call (w_db w) (w_db w')"
  using assms(3)
proof (cases rule: CompleteExecution_okE)
  case (1 eid r a)
  have "moves (w_db w) (w_db w')"
    by (rule moves_update, simp add: 1 complete_effect_def, simp)
       (simp add: owned_by_def succeed_row_def)
  with 1 complete_effect_ok [OF assms(1,2) 1(1-4)] show ?thesis
    by (simp add: sound_call_def)
qed

text \<open>The arguments \<open>ProcessJob\<close> passes to \<open>FailExecution\<close>.\<close>

definition fail_args_ok :: "Job \<Rightarrow> Status \<Rightarrow> int \<Rightarrow> bool" where
  "fail_args_ok j st n \<longleftrightarrow>
     n = j_RetryCount j + 1 \<and> (st = StatusDeadLettered \<or> n \<le> j_MaxRetries j)"

lemma FailExecution_sound:
  assumes "db_ok (w_db w)" and "claim_ok (w_db w) j" and "fail_args_ok j st n"
    and "FailExecution j wk dur out st n at w = (Inr u, w')"
  shows "sound_call (w_db w) (w_db w')"
  using assms(4)
proof (cases rule: FailExecution_okE)
  case (retry eid eid' r a)
  have "moves (w_db w) (w_db w')"
    by (rule moves_update, simp add: retry retry_effect_def, simp)
       (simp add: owned_by_def retry_row_def)
  with retry assms retry_effect_ok [OF assms(1,2) retry(3-7), of n] show ?thesis
    by (simp add: sound_call_def fail_args_ok_def claim_ok_def)
next
  case (dead did eid eid' r a)
  have "moves (w_db w) (w_db w')"
    by (rule moves_update, simp add: dead dead_effect_def, simp)
       (simp add: owned_by_def dead_letter_row_def)
  with dead assms dead_effect_ok [OF assms(1,2) dead(3-8), of n] show ?thesis
    by (simp add: sound_call_def fail_args_ok_def claim_ok_def)
qed

lemma ReleaseClaim_sound:
  assumes "db_ok (w_db w)" and "ReleaseClaim i wk StatusRetryScheduled w = (Inr u, w')"
  shows "sound_call (w_db w) (w_db w')"
  using assms(2)
proof (cases rule: ReleaseClaim_okE)
  case (1 r now)
  have "moves (w_db w) (w_db w')"
    by (rule moves_update, simp add: 1, simp) (simp add: owned_by_def)
  with 1 release_ok [OF assms(1)] show ?thesis
    by (simp add: sound_call_def extends_def attempt_keys_def log_grows_def settled_def)
qed

lemma ExtendLease_sound:
  assumes "db_ok (w_db w)" and "ExtendLease i wk ttl w = (Inr b, w')"
  shows "sound_call (w_db w) (w_db w')"
  using assms(2)
proof (cases rule: ExtendLease_okE)
  case (1 now)
  have "moves (w_db w) (w_db w')"
    by (rule moves_update, simp add: 1, simp) simp
  with 1 extend_ok [OF assms(1)] show ?thesis
    by (simp add: sound_call_def extends_def attempt_keys_def log_grows_def settled_def)
qed

lemma TransitionJob_sound:
  assumes "db_ok (w_db w)" and "operator_move from to" and "\<forall>s\<in>set from. can_move s to"
    and "TransitionJob t i from to w = (Inr u, w')"
  shows "sound_call (w_db w) (w_db w')"
  using assms(4)
proof (cases rule: TransitionJob_okE)
  case (1 eid r)
  have "moves (w_db w) (w_db w')"
    by (rule moves_update, simp add: 1 transition_effect_def, simp)
       (use assms(2,3) in \<open>auto simp: transition_row_def operator_move_def\<close>)
  with 1 transition_effect_ok [OF assms(1,2) 1(2-6)] show ?thesis
    by (simp add: sound_call_def)
qed

text \<open>A job as the service builds it for \<open>Create\<close>.\<close>

definition new_job_ok :: "Job \<Rightarrow> bool" where
  "new_job_ok j \<longleftrightarrow>
     j_Status j \<in> {StatusPending, StatusScheduled} \<and> j_RetryCount j = 0 \<and> 0 \<le> j_MaxRetries j"

lemma create_row_sel [simp]:
  "j_ID (create_row j now) = j_ID j"
  "j_TenantID (create_row j now) = j_TenantID j"
  "j_IdempotencyKey (create_row j now) = j_IdempotencyKey j"
  "j_RequestHash (create_row j now) = j_RequestHash j"
  "j_Status (create_row j now) = j_Status j"
  "j_LockedBy (create_row j now) = None"
  "j_LockedUntil (create_row j now) = None"
  "j_RetryCount (create_row j now) = j_RetryCount j"
  "j_MaxRetries (create_row j now) = j_MaxRetries j"
  by (simp_all add: create_row_def)

lemma Create_sound:
  assumes "db_ok (w_db w)" and "new_job_ok j" and "Create j w = (Inr x, w')"
  shows "sound_call (w_db w) (w_db w')"
  using assms(3)
proof (cases rule: Create_okE)
  case (inserted r eid)
  have "db_ok (w_db w')"
    by (rule append_job_ok [OF assms(1), where r = r])
       (use inserted assms(2) in \<open>auto simp: new_job_ok_def job_ok_def is_dead_def\<close>)
  moreover have "moves (w_db w) (w_db w')" by (rule moves_append [of _ _ "[r]"]) (simp add: inserted)
  moreover have "extends (w_db w) (w_db w')" by (rule extendsI) (auto simp: inserted)
  moreover have "log_grows (w_db w) (w_db w')" "settled (w_db w) (w_db w')"
    by (simp_all add: inserted log_grows_def settled_def)
  ultimately show ?thesis by (simp add: sound_call_def)
next
  case (replayed k r)
  with assms(1) show ?thesis by (simp add: sound_call_refl)
qed

lemma initialStatus_cases: "initialStatus at now \<in> {StatusPending, StatusScheduled}"
  by (simp add: initialStatus_def)

lemma RequeueDeadLetter_sound:
  assumes "db_ok (w_db w)" and "RequeueDeadLetter t i at w = (Inr x, w')"
  shows "sound_call (w_db w) (w_db w')"
  using assms(2)
proof (cases rule: RequeueDeadLetter_okE)
  case (1 dl newID st eid)
  have "moves (w_db w) (w_db w')"
    by (rule moves_append [of _ _ "[requeue_row dl newID t st at (tx_now w)]"])
       (simp add: 1 requeue_effect_def)
  with 1 requeue_effect_ok [OF assms(1) 1(8,9)] initialStatus_cases show ?thesis
    by (simp add: sound_call_def)
qed

lemma CreateAttempt_okE:
  assumes "CreateAttempt i wk n w = (Inr x, w')"
  obtains a r where "w_db w' = (w_db w)\<lparr>job_attempts := job_attempts (w_db w) @ [a]\<rparr>"
    and "x = Attempt.truncate a" and "r \<in> set (jobs (w_db w))" and "j_ID r = i"
    and "a_JobID a = i" and "a_TenantID a = j_TenantID r" and "a_WorkerID a = wk"
    and "a_ID a \<notin> a_ID ` set (job_attempts (w_db w))" and "a_Status a = AttemptRunning"
proof -
  from assms obtain r now aid where r: "find (\<lambda>r. j_ID r = i) (jobs (w_db w)) = Some r"
    and "aid \<notin> a_ID ` set (job_attempts (w_db w))"
    and "x = Attempt.truncate (running_attempt now aid i (j_TenantID r) wk n)"
    and "w_db w' = (w_db w)\<lparr>job_attempts :=
          job_attempts (w_db w) @ [running_attempt now aid i (j_TenantID r) wk n]\<rparr>"
    by (auto simp: CreateAttempt_def pool_stmt_def tx_simps Let_def
        split: if_splits option.splits)
  with find_SomeD [OF r] that show thesis
    by (simp add: running_attempt_def)
qed

lemma CreateAttempt_sound:
  assumes "db_ok (w_db w)" and "CreateAttempt i wk n w = (Inr x, w')"
  shows "sound_call (w_db w) (w_db w')"
    and "(a_ID x, i) \<in> attempt_keys (w_db w')"
  using assms(2)
proof (atomize (full), cases rule: CreateAttempt_okE)
  case (1 a r)
  have ref: "(a_JobID a, a_TenantID a) \<in> set (map job_ref_key (jobs (w_db w)))"
    using 1 by (auto simp: job_ref_key_def)
  have "running_ok (w_db w')"
    by (rule running_ok_claim [OF db_okD(5) [OF assms(1)], where P = "\<lambda>_. False" and f = "\<lambda>r. r" and a = a])
       (simp_all add: 1 upd_where_def)
  moreover have "dlq_ok (w_db w')" "rows_ok (w_db w')" "keys_ok (w_db w')" "refs_ok (w_db w')"
    using db_okD [OF assms(1)] 1 ref
    by (simp_all add: dlq_ok_def rows_ok_def keys_ok_def refs_ok_def)
  moreover have "extends (w_db w) (w_db w')" by (rule extendsI) (auto simp: 1)
  moreover have "moves (w_db w) (w_db w')" by (rule moves_append [of _ _ "[]"]) (simp add: 1)
  moreover have "(a_ID x, i) \<in> attempt_keys (w_db w')"
    using 1 by (simp add: attempt_keys_def Attempt.defs)
  moreover have "log_grows (w_db w) (w_db w')" "settled (w_db w) (w_db w')"
    by (simp_all add: 1 log_grows_def settled_def)
  ultimately show "sound_call (w_db w) (w_db w') \<and> (a_ID x, i) \<in> attempt_keys (w_db w')"
    by (simp add: sound_call_def db_ok_def)
qed

section \<open>The claim loop\<close>

lemma claim_row_idem:
  "upd_where (\<lambda>r. j_ID r \<in> B) (claim_row wk ttl now)
     (upd_where (\<lambda>r. j_ID r = i) (claim_row wk ttl now) rs)
   = upd_where (\<lambda>r. j_ID r \<in> insert i B) (claim_row wk ttl now) rs"
  by (induction rs) (auto simp: claim_row_def)

text \<open>The whole batch in closed form: rows, attempts, events and returned jobs.\<close>

definition claim_batch ::
  "string \<Rightarrow> duration \<Rightarrow> time \<Rightarrow> Job list \<Rightarrow> Job list \<Rightarrow> uuid list \<Rightarrow> db \<Rightarrow> db \<Rightarrow> bool" where
  "claim_batch wk ttl now xs ys eids d d' \<longleftrightarrow>
     list_all2 (\<lambda>j y. \<exists>t aid. y = claimed_job wk ttl t aid j) xs ys \<and>
     length eids = length ys \<and>
     d' = d\<lparr>jobs := upd_where (\<lambda>r. j_ID r \<in> j_ID ` set xs) (claim_row wk ttl now) (jobs d),
            job_attempts := job_attempts d @ map (attempt_of wk now) ys,
            job_events := job_events d @ map2 (started_event wk now) eids ys\<rparr>"

lemma claim_batch_Nil: "claim_batch wk ttl now [] [] [] d d"
  by (simp add: claim_batch_def upd_where_def)

lemma claim_batch_Cons:
  assumes "y = claimed_job wk ttl t aid x" and "d1 = claim_effect wk ttl now eid y d"
    and "claim_batch wk ttl now xs ys eids d1 d'"
  shows "claim_batch wk ttl now (x # xs) (y # ys) (eid # eids) d d'"
  using assms by (auto simp: claim_batch_def claim_effect_def claim_row_idem)

lemma claim_loop:
  assumes "for_tx (claim_one wk ttl) xs w = (Inr ys, w')"
    and "db_ok (w_db w)" and "distinct (map j_ID xs)"
    and "\<forall>x\<in>set xs. \<exists>r\<in>set (jobs (w_db w)). x = scanJob r \<and> waiting r"
  shows "(\<exists>eids. claim_batch wk ttl (w_now w) xs ys eids (w_db w) (w_db w')) \<and>
     db_ok (w_db w') \<and> extends (w_db w) (w_db w') \<and> (\<forall>y\<in>set ys. claim_ok (w_db w') y)"
  using assms
proof (induction xs arbitrary: w ys)
  case Nil
  then show ?case
    using claim_batch_Nil [of wk ttl "w_now w" "w_db w"] by (auto simp: tx_simps)
next
  case (Cons x xs)
  then obtain y zs w1 where y: "claim_one wk ttl x w = (Inr y, w1)"
    and zs: "for_tx (claim_one wk ttl) xs w1 = (Inr zs, w')" and ys: "ys = y # zs"
    by (auto simp: tx_simps)
  from y obtain eid aid t where c: "y = claimed_job wk ttl t aid x"
    "w_db w1 = claim_effect wk ttl (w_now w) eid y (w_db w)"
    "eid \<notin> e_ID ` set (job_events (w_db w))" "aid \<notin> a_ID ` set (job_attempts (w_db w))"
    "w_now w1 = w_now w"
    by (rule claim_one_okE) blast
  from Cons.prems(4) obtain r where r: "r \<in> set (jobs (w_db w))" "x = scanJob r" "waiting r"
    by auto
  have ok1: "db_ok (w_db w1)"
    unfolding c(2) by (rule claim_effect_ok [OF Cons.prems(2) r(1,3)]) (use c r in auto)
  have "job_ok r" using db_okD(2) [OF Cons.prems(2)] r by (simp add: rows_ok_def)
  then have cl: "claim_ok (w_db w1) y"
    unfolding c(2) by (rule claim_effect_claim_ok [OF r(1) _ r(3)]) (use c r in simp_all)
  have rest: "\<forall>x\<in>set xs. \<exists>r\<in>set (jobs (w_db w1)). x = scanJob r \<and> waiting r"
  proof
    fix z
    assume z: "z \<in> set xs"
    with Cons.prems(4) obtain s where s: "s \<in> set (jobs (w_db w))" "z = scanJob s" "waiting s"
      by auto
    from z have "j_ID z \<in> set (map j_ID xs)" by simp
    with Cons.prems(3) s(2) have "j_ID s \<noteq> j_ID x" by auto
    with s(1) c(1,2) have "s \<in> set (jobs (w_db w1))"
      by (auto simp: claim_effect_def in_upd_where)
    with s show "\<exists>r\<in>set (jobs (w_db w1)). z = scanJob r \<and> waiting r" by blast
  qed
  from Cons.IH [OF zs ok1 _ rest] Cons.prems(3)
  obtain eids where b: "claim_batch wk ttl (w_now w) xs zs eids (w_db w1) (w_db w')"
    and IH: "db_ok (w_db w')" "extends (w_db w1) (w_db w')" "\<forall>y\<in>set zs. claim_ok (w_db w') y"
    using c(5) by auto
  have "claim_batch wk ttl (w_now w) (x # xs) (y # zs) (eid # eids) (w_db w) (w_db w')"
    by (rule claim_batch_Cons [OF c(1,2) b])
  moreover have "extends (w_db w) (w_db w')"
    using extends_trans [OF _ IH(2)] c(2) by simp
  ultimately show ?case
    using IH claim_ok_extends [OF cl IH(2)] ys by auto
qed

lemma select_due_sub:
  "r \<in> set (select_due now locked n rs) \<Longrightarrow> r \<in> set rs \<and> claimable now r \<and> \<not> locked (j_ID r)"
  unfolding select_due_def by (auto dest: in_set_takeD)

lemma select_due_distinct:
  "distinct (map j_ID rs) \<Longrightarrow> distinct (map j_ID (select_due now locked n rs))"
  unfolding select_due_def
  by (simp add: take_map [symmetric] distinct_take distinct_map inj_on_def)

lemma ClaimDueJobs_batch:
  assumes ok: "db_ok (w_db w)" and C: "ClaimDueJobs wk n ttl w = (Inr ys, w')"
  obtains eids where
    "claim_batch wk ttl (tx_now w)
       (map scanJob (select_due (tx_now w) (skip_locked (begun w)) n (jobs (w_db w))))
       ys eids (w_db w) (w_db w')"
    and "sound_call (w_db w) (w_db w')" and "\<forall>y\<in>set ys. claim_ok (w_db w') y" and "0 \<le> n"
proof -
  let ?rs = "select_due (tx_now w) (skip_locked (begun w)) n (jobs (w_db w))"
  from C obtain w1 w2 where L: "for_tx (claim_one wk ttl) (map scanJob ?rs) w1 = (Inr ys, w2)"
    and w: "w_db w1 = w_db w" "w_now w1 = tx_now w" "w_db w' = w_db w2" and n: "0 \<le> n"
    by (rule ClaimDueJobs_okE) blast
  have sel: "\<forall>x\<in>set (map scanJob ?rs). \<exists>r\<in>set (jobs (w_db w1)). x = scanJob r \<and> waiting r"
    using select_due_sub claimable_waiting w by fastforce
  have dist: "distinct (map j_ID (map scanJob ?rs))"
    using select_due_distinct db_okD(1) [OF ok] by (simp add: keys_ok_def comp_def)
  from claim_loop [OF L _ dist sel] ok w obtain eids where
    b: "claim_batch wk ttl (tx_now w) (map scanJob ?rs) ys eids (w_db w) (w_db w')"
    and rest: "db_ok (w_db w')" "extends (w_db w) (w_db w')" "\<forall>y\<in>set ys. claim_ok (w_db w') y"
    by auto
  have "moves (w_db w) (w_db w')"
  proof (rule moves_update)
    show "jobs (w_db w') = upd_where (\<lambda>r. j_ID r \<in> j_ID ` set (map scanJob ?rs))
        (claim_row wk ttl (tx_now w)) (jobs (w_db w))"
      using b by (simp add: claim_batch_def)
    fix r
    assume r: "r \<in> set (jobs (w_db w))" "j_ID r \<in> j_ID ` set (map scanJob ?rs)"
    then obtain s where "s \<in> set ?rs" "j_ID r = j_ID s" by auto
    with r job_key_unique [OF db_okD(1) [OF ok], of r s] select_due_sub [of s] have "waiting r"
      using claimable_waiting by blast
    then show "j_Status (claim_row wk ttl (tx_now w) r) = j_Status r \<or>
        can_move (j_Status r) (j_Status (claim_row wk ttl (tx_now w) r)) \<and>
        j_Status r \<noteq> StatusDeadLettered"
      by (auto simp: waiting_def claim_row_def)
  qed simp
  moreover have "log_grows (w_db w) (w_db w')" "settled (w_db w) (w_db w')"
    using b by (simp_all add: claim_batch_def log_grows_def settled_def)
  ultimately show thesis using b rest n that by (simp add: sound_call_def)
qed

section \<open>The recovery loop\<close>

text \<open>
  What recovery does to one row: a running job among the recovered ones is given back to the queue
  or dead-lettered according to its budget, with one more retry counted; any other row is untouched.
\<close>

definition recovered_row :: "uuid set \<Rightarrow> jobs_row \<Rightarrow> jobs_row \<Rightarrow> bool" where
  "recovered_row B r r' \<longleftrightarrow>
     (if j_Status r = StatusRunning \<and> j_ID r \<in> B
      then job_const r' = job_const r \<and> j_LockedBy r' = None \<and> j_LockedUntil r' = None \<and>
           j_RetryCount r' = j_RetryCount r + 1 \<and>
           j_Status r' = (if j_RetryCount r < j_MaxRetries r then StatusRetryScheduled
                          else StatusDeadLettered)
      else r' = r)"

lemma recovered_rows_Nil: "list_all2 (recovered_row {}) rs rs"
  by (simp add: recovered_row_def list.rel_refl)

lemma recovered_rows_Cons:
  assumes "list_all2 (recovered_row B) (upd_where (\<lambda>r. j_ID r = i \<and> j_Status r = StatusRunning) f rs) ss"
    and "\<And>r. r \<in> set rs \<Longrightarrow> j_ID r = i \<Longrightarrow> j_Status r = StatusRunning \<Longrightarrow> recovered_row {i} r (f r)"
  shows "list_all2 (recovered_row (insert i B)) rs ss"
  using assms
proof (induction rs arbitrary: ss)
  case Nil
  then show ?case by simp
next
  case (Cons r rs)
  then obtain s ss' where ss: "ss = s # ss'" by (auto simp: list_all2_Cons1)
  have "j_Status (f r) \<noteq> StatusRunning" if "j_ID r = i" "j_Status r = StatusRunning"
    using Cons.prems(2) [of r] that by (auto simp: recovered_row_def split: if_splits)
  moreover have "recovered_row B (if j_ID r = i \<and> j_Status r = StatusRunning then f r else r) s"
    using Cons.prems(1) ss by simp
  ultimately have "recovered_row (insert i B) r s"
    using Cons.prems(2) [of r] by (auto simp: recovered_row_def split: if_splits)
  moreover have "list_all2 (recovered_row (insert i B)) rs ss'"
    using Cons ss by simp
  ultimately show ?case using ss by simp
qed

definition recovered_attempts :: "string \<Rightarrow> time \<Rightarrow> uuid set \<Rightarrow> attempts_row list \<Rightarrow> attempts_row list" where
  "recovered_attempts reason now B =
     upd_where (\<lambda>a. a_JobID a \<in> B \<and> a_Status a = AttemptRunning) (expire_attempt_row reason now)"

lemma recovered_attempts_insert:
  "recovered_attempts reason now B (expire_attempts reason i now as)
     = recovered_attempts reason now (insert i B) as"
  by (induction as) (auto simp: recovered_attempts_def expire_attempts_def expire_attempt_row_def)

lemma recover_step:
  assumes ok: "db_ok (w_db w)" and r: "r \<in> set (jobs (w_db w))" "j_Status r = StatusRunning"
    and R: "recover_one reason (scanJob r) w = (Inr u, w')"
  obtains f where "jobs (w_db w') =
      upd_where (\<lambda>s. j_ID s = j_ID r \<and> j_Status s = StatusRunning) f (jobs (w_db w))"
    and "recovered_row {j_ID r} r (f r)"
    and "job_attempts (w_db w') = expire_attempts reason (j_ID r) (w_now w) (job_attempts (w_db w))"
    and "db_ok (w_db w')" and "extends (w_db w) (w_db w')" and "w_now w' = w_now w"
    and "\<exists>e. job_events (w_db w') = job_events (w_db w) @ [e] \<and> e_JobID e = j_ID r"
  using R
proof (cases rule: recover_one_okE)
  case (retry eid)
  from recover_retry_ok [OF ok r(1) refl r(2) retry(3,2)] retry(1)
  have "db_ok (w_db w')" and "extends (w_db w) (w_db w')" by simp_all
  then show thesis
    by - (rule that, simp add: retry recover_retry_def,
      use retry r in \<open>simp_all add: recover_retry_def recovered_row_def retry_row_def job_const_def\<close>)
next
  case (dead did eid)
  from recover_dead_ok [OF ok r(1) refl r(2) dead(4,3)] dead(1)
  have "db_ok (w_db w')" and "extends (w_db w) (w_db w')" by simp_all
  then show thesis
    by - (rule that, simp add: dead recover_dead_def,
      use dead r in \<open>simp_all add: recover_dead_def recovered_row_def dead_letter_row_def job_const_def\<close>)
qed

lemma recover_loop:
  assumes "for_tx (recover_one reason) (map scanJob rs) w = (Inr us, w')"
    and "db_ok (w_db w)" and "distinct (map j_ID rs)"
    and "set rs \<subseteq> {r \<in> set (jobs (w_db w)). j_Status r = StatusRunning}"
  shows "list_all2 (recovered_row (j_ID ` set rs)) (jobs (w_db w)) (jobs (w_db w')) \<and>
     job_attempts (w_db w') =
       recovered_attempts reason (w_now w) (j_ID ` set rs) (job_attempts (w_db w)) \<and>
     db_ok (w_db w') \<and> extends (w_db w) (w_db w') \<and>
     (\<exists>es. job_events (w_db w') = job_events (w_db w) @ es \<and> map e_JobID es = map j_ID rs)"
  using assms
proof (induction rs arbitrary: w us)
  case Nil
  then show ?case
    using recovered_rows_Nil by (auto simp: tx_simps recovered_attempts_def upd_where_def)
next
  case (Cons r rs)
  then obtain u zs w1 where u: "recover_one reason (scanJob r) w = (Inr u, w1)"
    and zs: "for_tx (recover_one reason) (map scanJob rs) w1 = (Inr zs, w')"
    by (auto simp: tx_simps)
  from Cons.prems(4) have r: "r \<in> set (jobs (w_db w))" "j_Status r = StatusRunning" by auto
  from recover_step [OF Cons.prems(2) r u] obtain f where
    f: "jobs (w_db w1) =
      upd_where (\<lambda>s. j_ID s = j_ID r \<and> j_Status s = StatusRunning) f (jobs (w_db w))"
      "recovered_row {j_ID r} r (f r)"
      "job_attempts (w_db w1) = expire_attempts reason (j_ID r) (w_now w) (job_attempts (w_db w))"
    and ok1: "db_ok (w_db w1)" and ext: "extends (w_db w) (w_db w1)" and now: "w_now w1 = w_now w"
    and ev: "\<exists>e. job_events (w_db w1) = job_events (w_db w) @ [e] \<and> e_JobID e = j_ID r"
    by blast
  have "set rs \<subseteq> {r \<in> set (jobs (w_db w1)). j_Status r = StatusRunning}"
  proof
    fix s
    assume s: "s \<in> set rs"
    then have "j_ID s \<in> set (map j_ID rs)" by simp
    with Cons.prems(3) have "j_ID s \<noteq> j_ID r" by auto
    with s Cons.prems(4) f(1) show "s \<in> {r \<in> set (jobs (w_db w1)). j_Status r = StatusRunning}"
      by (auto simp: in_upd_where)
  qed
  with Cons.IH [OF zs ok1] Cons.prems(3) now
  have IH: "list_all2 (recovered_row (j_ID ` set rs)) (jobs (w_db w1)) (jobs (w_db w'))"
      "job_attempts (w_db w') =
         recovered_attempts reason (w_now w) (j_ID ` set rs) (job_attempts (w_db w1))"
      "db_ok (w_db w')" "extends (w_db w1) (w_db w')"
    and IHe: "\<exists>es. job_events (w_db w') = job_events (w_db w1) @ es \<and> map e_JobID es = map j_ID rs"
    by auto
  have "list_all2 (recovered_row (insert (j_ID r) (j_ID ` set rs))) (jobs (w_db w)) (jobs (w_db w'))"
  proof (rule recovered_rows_Cons [OF IH(1) [unfolded f(1)]])
    fix s
    assume "s \<in> set (jobs (w_db w))" "j_ID s = j_ID r"
    with job_key_unique [OF db_okD(1) [OF Cons.prems(2)]] r have "s = r" by blast
    with f(2) show "recovered_row {j_ID r} s (f s)" by simp
  qed
  moreover have "\<exists>es. job_events (w_db w') = job_events (w_db w) @ es \<and>
      map e_JobID es = map j_ID (r # rs)"
  proof -
    from ev IHe obtain e es where "job_events (w_db w') = job_events (w_db w) @ e # es"
      "e_JobID e = j_ID r" "map e_JobID es = map j_ID rs" by auto
    then show ?thesis by (intro exI [of _ "e # es"]) simp
  qed
  ultimately show ?case
    using IH f(3) ext by (auto simp: recovered_attempts_insert intro: extends_trans)
qed

lemma recovered_moves:
  assumes "list_all2 (recovered_row B) (jobs d) (jobs d')"
  shows "moves d d'"
  unfolding moves_def
proof
  fix r
  assume "r \<in> set (jobs d)"
  then obtain i where "i < length (jobs d)" "jobs d ! i = r"
    by (auto simp: in_set_conv_nth)
  with assms have "recovered_row B r (jobs d' ! i)" "jobs d' ! i \<in> set (jobs d')"
    by (auto simp: list_all2_conv_all_nth)
  then show "\<exists>r'\<in>set (jobs d'). job_const r' = job_const r \<and>
      (j_Status r' = j_Status r \<or>
       can_move (j_Status r) (j_Status r') \<and> j_Status r \<noteq> StatusDeadLettered)"
    by (intro bexI [of _ "jobs d' ! i"]) (auto simp: recovered_row_def split: if_splits)
qed

abbreviation expired_rows :: "pg_world \<Rightarrow> jobs_row list" where
  "expired_rows w \<equiv>
     filter (\<lambda>r. expired (tx_now w) r \<and> \<not> skip_locked (begun w) (j_ID r)) (jobs (w_db w))"

lemma RecoverExpiredRunningJobs_effect:
  assumes ok: "db_ok (w_db w)" and R: "RecoverExpiredRunningJobs reason w = (Inr m, w')"
  shows "m = length (expired_rows w)"
    and "list_all2 (recovered_row (j_ID ` set (expired_rows w))) (jobs (w_db w)) (jobs (w_db w'))"
    and "job_attempts (w_db w') =
       recovered_attempts reason (tx_now w) (j_ID ` set (expired_rows w)) (job_attempts (w_db w))"
    and "\<exists>es. job_events (w_db w') = job_events (w_db w) @ es \<and> map e_JobID es = map j_ID (expired_rows w)"
    and "sound_call (w_db w) (w_db w')"
proof -
  from R obtain w1 w2 us where
    L: "for_tx (recover_one reason) (map scanJob (expired_rows w)) w1 = (Inr us, w2)"
    and w: "w_db w1 = w_db w" "w_now w1 = tx_now w" "w_db w' = w_db w2"
    and m: "m = length (expired_rows w)"
    by (rule RecoverExpiredRunningJobs_okE) blast
  have d: "distinct (map j_ID (expired_rows w))"
    using db_okD(1) [OF ok] by (simp add: keys_ok_def distinct_map_filter)
  have s: "set (expired_rows w) \<subseteq> {r \<in> set (jobs (w_db w1)). j_Status r = StatusRunning}"
    using w by (auto simp: expired_def)
  note L' = recover_loop [OF L _ d s, unfolded w, OF ok]
  show "m = length (expired_rows w)" by (rule m)
  show l: "list_all2 (recovered_row (j_ID ` set (expired_rows w))) (jobs (w_db w)) (jobs (w_db w'))"
    using L' unfolding w by (elim conjE)
  show "job_attempts (w_db w') =
       recovered_attempts reason (tx_now w) (j_ID ` set (expired_rows w)) (job_attempts (w_db w))"
    using L' unfolding w by (elim conjE)
  show "\<exists>es. job_events (w_db w') = job_events (w_db w) @ es \<and> map e_JobID es = map j_ID (expired_rows w)"
    using L' unfolding w by (elim conjE)
  then have "log_grows (w_db w) (w_db w')" by (auto intro: log_grows_append)
  moreover have "settled (w_db w) (w_db w')"
    using L' unfolding w recovered_attempts_def by (elim conjE) (rule settled_update)
  ultimately show "sound_call (w_db w) (w_db w')"
    using L' recovered_moves [OF l] unfolding w sound_call_def by blast
qed

end
