(* ===== verification/Job_Service.thy ===== *)
theory Job_Service
  imports Auth Repo_Invariant
begin

text \<open>
  internal/job/service.go and internal/job/validator.go: the application service between the HTTP
  handlers and the repository.  \<open>json.Valid\<close> is the argument \<open>valid\<close>; the hex SHA-256 of the JSON
  encoding of the behaviour-affecting fields is the argument \<open>digest\<close>, a function of exactly those
  fields.
\<close>

section \<open>The service's configuration\<close>

record Service =
  s_defaultRetries :: int
  s_defaultBackoffSec :: int
  s_defaultTimeoutSec :: int

definition NewService :: "int \<Rightarrow> int \<Rightarrow> int \<Rightarrow> Service" where
  "NewService defaultRetries defaultBackoffSec defaultTimeoutSec =
     \<lparr>s_defaultRetries = defaultRetries, s_defaultBackoffSec = defaultBackoffSec,
      s_defaultTimeoutSec = defaultTimeoutSec\<rparr>"

section \<open>Validation\<close>

definition isSupportedJobType :: "string \<Rightarrow> bool" where
  "isSupportedJobType jobType \<longleftrightarrow> jobType \<in> set [''CALL_WEBHOOK'']"

definition validateCreate :: "(json \<Rightarrow> bool) \<Rightarrow> CreateRequest \<Rightarrow> string option" where
  "validateCreate valid req =
     (if TrimSpace (cr_Name req) = '''' then Some ''name is required''
      else if \<not> isSupportedJobType (cr_JobType req) then Some ''unsupported job type''
      else if cr_Payload req = [] \<or> \<not> valid (cr_Payload req) \<or> cr_Payload req = ''null''
        then Some ''payload must be valid JSON''
      else if cr_RunAt req = 0 then Some ''run_at is required''
      else if cr_Priority req < 0 \<or> cr_Priority req > 10
        then Some ''priority must be between 0 and 10''
      else if cr_MaxRetries req < 0 then Some ''max_retries must not be negative''
      else if cr_RetryBackoffSeconds req < 0 then Some ''retry_backoff_seconds must not be negative''
      else if cr_TimeoutSeconds req < 0 then Some ''timeout_seconds must not be negative''
      else None)"

definition withDefaults :: "Service \<Rightarrow> CreateRequest \<Rightarrow> CreateRequest" where
  "withDefaults s req =
     req\<lparr>cr_Priority := (if cr_Priority req = 0 then 5 else cr_Priority req),
         cr_MaxRetries :=
           (if cr_MaxRetries req = 0 then s_defaultRetries s else cr_MaxRetries req),
         cr_RetryBackoffSeconds :=
           (if cr_RetryBackoffSeconds req = 0 then s_defaultBackoffSec s
            else cr_RetryBackoffSeconds req),
         cr_TimeoutSeconds :=
           (if cr_TimeoutSeconds req = 0 then s_defaultTimeoutSec s else cr_TimeoutSeconds req)\<rparr>"

definition isKnownStatus :: "string \<Rightarrow> bool" where
  "isKnownStatus st \<longleftrightarrow>
     st \<in> set (map status_string
       [StatusPending, StatusScheduled, StatusRunning, StatusSucceeded, StatusFailed,
        StatusRetryScheduled, StatusDeadLettered, StatusCancelled, StatusPaused])"

text \<open>\<open>fmt.Errorf\<close> with the sentinel first and a text after it.\<close>

definition invalid_input :: "string \<Rightarrow> go_error" where
  "invalid_input m = Wrapped '''' ErrInvalidInput ('': '' @ m)"

section \<open>Create\<close>

type_synonym hashed_fields =
  "string \<times> string \<times> json \<times> time \<times> int \<times> int \<times> int \<times> int"

definition hashed :: "CreateRequest \<Rightarrow> hashed_fields" where
  "hashed req =
     (cr_Name req, cr_JobType req, cr_Payload req, cr_RunAt req, cr_Priority req,
      cr_MaxRetries req, cr_RetryBackoffSeconds req, cr_TimeoutSeconds req)"

definition new_job ::
  "(hashed_fields \<Rightarrow> string) \<Rightarrow> Principal \<Rightarrow> CreateRequest \<Rightarrow> uuid \<Rightarrow> time \<Rightarrow> Job" where
  "new_job digest p req newID now =
     (job_ref newID (p_TenantID p))
       \<lparr>j_Name := cr_Name req, j_JobType := cr_JobType req, j_Payload := cr_Payload req,
        j_Status := initialStatus (cr_RunAt req) now, j_Priority := cr_Priority req,
        j_RunAt := cr_RunAt req, j_MaxRetries := cr_MaxRetries req,
        j_RetryBackoffSeconds := cr_RetryBackoffSeconds req,
        j_TimeoutSeconds := cr_TimeoutSeconds req, j_CreatedBy := Some (p_ClientName p),
        j_IdempotencyKey :=
          (if cr_IdempotencyKey req \<noteq> '''' then Some (cr_IdempotencyKey req) else None),
        j_RequestHash := Some (digest (hashed req))\<rparr>"

definition Service_Create ::
  "(json \<Rightarrow> bool) \<Rightarrow> (hashed_fields \<Rightarrow> string) \<Rightarrow> Service \<Rightarrow> ctx \<Rightarrow> CreateRequest \<Rightarrow>
   (db, CreateResponse) tx" where
  "Service_Create valid digest s ctx req0 =
     (let req1 = withDefaults s req0;
          req = req1\<lparr>cr_IdempotencyKey := TrimSpace (cr_IdempotencyKey req1)\<rparr> in
      if length (cr_IdempotencyKey req) > 255
      then fail_tx (invalid_input ''Idempotency-Key exceeds 255 characters'')
      else
        (case validateCreate valid req of
           Some m \<Rightarrow> fail_tx (invalid_input m)
         | None \<Rightarrow>
             bind_tx uuid_New (\<lambda>newID.
             bind_tx time_Now (\<lambda>now.
             bind_tx (Create (new_job digest (PrincipalOrDefault ctx) req newID now)) (\<lambda>inserted.
             return_tx \<lparr>resp_JobID = j_ID inserted, resp_Status = j_Status inserted,
                        resp_Replayed = (j_ID inserted \<noteq> newID)\<rparr>)))))"

section \<open>Reads\<close>

definition Service_List :: "ctx \<Rightarrow> ListFilter \<Rightarrow> (db, Page) tx" where
  "Service_List ctx filt0 =
     (if lf_Status filt0 \<noteq> '''' \<and> \<not> isKnownStatus (lf_Status filt0)
      then fail_tx (invalid_input ''unsupported status filter'')
      else if lf_JobType filt0 \<noteq> '''' \<and> \<not> isSupportedJobType (lf_JobType filt0)
      then fail_tx (invalid_input ''unsupported job_type filter'')
      else
        (let filt1 = (if lf_Sort filt0 = '''' then filt0\<lparr>lf_Sort := ''created_at''\<rparr> else filt0);
             filt = (if lf_Order filt1 = '''' then filt1\<lparr>lf_Order := ''desc''\<rparr> else filt1) in
         if lf_Sort filt \<notin> set [''created_at'', ''run_at'', ''priority'']
         then fail_tx (invalid_input ''unsupported sort'')
         else if lf_Order filt \<notin> set [''asc'', ''desc'']
         then fail_tx (invalid_input ''unsupported order'')
         else if (case (lf_CreatedAfter filt, lf_CreatedBefore filt) of
                    (Some a, Some b) \<Rightarrow> b < a | _ \<Rightarrow> False)
         then fail_tx (invalid_input ''created_after must not be after created_before'')
         else List (p_TenantID (PrincipalOrDefault ctx)) filt))"

definition Service_Get :: "ctx \<Rightarrow> uuid \<Rightarrow> (db, Job) tx" where
  "Service_Get ctx jobID = GetByID (p_TenantID (PrincipalOrDefault ctx)) jobID"

definition Service_Attempts :: "ctx \<Rightarrow> uuid \<Rightarrow> (db, Attempt list) tx" where
  "Service_Attempts ctx jobID = ListAttempts (p_TenantID (PrincipalOrDefault ctx)) jobID"

definition Service_Events :: "ctx \<Rightarrow> uuid \<Rightarrow> (db, Event list) tx" where
  "Service_Events ctx jobID = ListEvents (p_TenantID (PrincipalOrDefault ctx)) jobID"

definition Service_ListDeadLetters :: "ctx \<Rightarrow> int \<Rightarrow> int \<Rightarrow> (db, DeadLetterJob list) tx" where
  "Service_ListDeadLetters ctx page pageSize =
     ListDeadLetters (p_TenantID (PrincipalOrDefault ctx)) page pageSize"

definition Service_RequeueDeadLetter :: "ctx \<Rightarrow> uuid \<Rightarrow> (db, Job) tx" where
  "Service_RequeueDeadLetter ctx deadLetterID =
     bind_tx time_Now (\<lambda>now.
     RequeueDeadLetter (p_TenantID (PrincipalOrDefault ctx)) deadLetterID now)"

section \<open>Operator transitions\<close>

text \<open>
  \<open>transition\<close> reads the job and then updates it in a second transaction.  \<open>gap\<close> is whatever other
  processes commit in between.
\<close>

definition interfere :: "(db \<Rightarrow> db) \<Rightarrow> (db, unit) tx" where
  "interfere gap w = (Inr (), w\<lparr>w_db := gap (w_db w)\<rparr>)"

definition transition ::
  "(db \<Rightarrow> db) \<Rightarrow> ctx \<Rightarrow> uuid \<Rightarrow> Status \<Rightarrow> Status list \<Rightarrow> (db, unit) tx" where
  "transition gap ctx jobID to allowedFrom =
     (let tenantID = p_TenantID (PrincipalOrDefault ctx) in
      bind_tx (GetByID tenantID jobID) (\<lambda>current.
      if \<not> (j_Status current \<in> set allowedFrom) \<or>
         \<not> CanTransition (status_string (j_Status current)) (status_string to)
      then fail_tx (Wrapped '''' ErrInvalidTransition
             ('': cannot transition '' @ status_string (j_Status current) @ '' to '' @
              status_string to))
      else bind_tx (interfere gap) (\<lambda>_. TransitionJob tenantID jobID allowedFrom to)))"

definition Cancel :: "(db \<Rightarrow> db) \<Rightarrow> ctx \<Rightarrow> uuid \<Rightarrow> (db, unit) tx" where
  "Cancel gap ctx jobID =
     transition gap ctx jobID StatusCancelled
       [StatusPending, StatusScheduled, StatusRetryScheduled, StatusRunning]"

definition Pause :: "(db \<Rightarrow> db) \<Rightarrow> ctx \<Rightarrow> uuid \<Rightarrow> (db, unit) tx" where
  "Pause gap ctx jobID = transition gap ctx jobID StatusPaused [StatusPending, StatusScheduled]"

definition Resume :: "(db \<Rightarrow> db) \<Rightarrow> ctx \<Rightarrow> uuid \<Rightarrow> (db, unit) tx" where
  "Resume gap ctx jobID = transition gap ctx jobID StatusScheduled [StatusPaused]"

definition Retry :: "(db \<Rightarrow> db) \<Rightarrow> ctx \<Rightarrow> uuid \<Rightarrow> (db, unit) tx" where
  "Retry gap ctx jobID = transition gap ctx jobID StatusRetryScheduled [StatusFailed]"

section \<open>Retry arithmetic\<close>

definition ShouldDeadLetter :: "int \<Rightarrow> int \<Rightarrow> bool" where
  "ShouldDeadLetter retryCount maxRetries \<longleftrightarrow> retryCount \<ge> maxRetries"

text \<open>
  The variant of the back-off in the job package: \<open>math.Pow(2, n)\<close> times the base is exact in
  \<open>float64\<close> for a base below \<open>2 ^ 53\<close>.  Converting a product of \<open>2 ^ 63\<close> or more to a \<open>time.Duration\<close> is
  implementation-defined in Go, hence the argument \<open>big\<close>.
\<close>

definition job_NextRetryAt :: "(int \<Rightarrow> duration) \<Rightarrow> time \<Rightarrow> int \<Rightarrow> int \<Rightarrow> time" where
  "job_NextRetryAt big now baseBackoffSeconds retryCount =
     (let base = (if baseBackoffSeconds \<le> 0 then 30 else baseBackoffSeconds);
          n = (if retryCount < 0 then 0 else retryCount);
          x = base * 2 ^ nat n;
          delay = (if x < 2 ^ 63 then word_of_int x else big x) * Second
      in time_Add now delay)"

section \<open>What the service hands to the repository\<close>

lemma new_job_sel [simp]:
  "j_ID (new_job digest p req i now) = i"
  "j_TenantID (new_job digest p req i now) = p_TenantID p"
  "j_Status (new_job digest p req i now) = initialStatus (cr_RunAt req) now"
  "j_RetryCount (new_job digest p req i now) = 0"
  "j_MaxRetries (new_job digest p req i now) = cr_MaxRetries req"
  "j_Priority (new_job digest p req i now) = cr_Priority req"
  "j_IdempotencyKey (new_job digest p req i now) =
     (if cr_IdempotencyKey req \<noteq> '''' then Some (cr_IdempotencyKey req) else None)"
  "j_RequestHash (new_job digest p req i now) = Some (digest (hashed req))"
  by (simp_all add: new_job_def job_ref_def)

lemma validateCreate_ok:
  "validateCreate valid req = None \<longleftrightarrow>
     TrimSpace (cr_Name req) \<noteq> '''' \<and> cr_JobType req = ''CALL_WEBHOOK'' \<and>
     cr_Payload req \<noteq> [] \<and> valid (cr_Payload req) \<and> cr_Payload req \<noteq> ''null'' \<and>
     cr_RunAt req \<noteq> 0 \<and> 0 \<le> cr_Priority req \<and> cr_Priority req \<le> 10 \<and>
     0 \<le> cr_MaxRetries req \<and> 0 \<le> cr_RetryBackoffSeconds req \<and> 0 \<le> cr_TimeoutSeconds req"
  by (auto simp: validateCreate_def isSupportedJobType_def)

lemma new_job_new_job_ok:
  "validateCreate valid req = None \<Longrightarrow> new_job_ok (new_job digest p req i now)"
  using initialStatus_cases [of "cr_RunAt req" now] by (simp add: new_job_ok_def validateCreate_ok)

text \<open>The request as \<open>Create\<close> sees it after defaults and trimming.\<close>

definition effective :: "Service \<Rightarrow> CreateRequest \<Rightarrow> CreateRequest" where
  "effective s req =
     (withDefaults s req)\<lparr>cr_IdempotencyKey := TrimSpace (cr_IdempotencyKey req)\<rparr>"

lemma withDefaults_key [simp]: "cr_IdempotencyKey (withDefaults s req) = cr_IdempotencyKey req"
  by (simp add: withDefaults_def)

lemma Service_Create_effective:
  "Service_Create valid digest s ctx req =
     (if length (TrimSpace (cr_IdempotencyKey req)) > 255
      then fail_tx (invalid_input ''Idempotency-Key exceeds 255 characters'')
      else
        (case validateCreate valid (effective s req) of
           Some m \<Rightarrow> fail_tx (invalid_input m)
         | None \<Rightarrow>
             bind_tx uuid_New (\<lambda>newID.
             bind_tx time_Now (\<lambda>now.
             bind_tx (Create (new_job digest (PrincipalOrDefault ctx) (effective s req) newID now))
               (\<lambda>inserted.
             return_tx \<lparr>resp_JobID = j_ID inserted, resp_Status = j_Status inserted,
                        resp_Replayed = (j_ID inserted \<noteq> newID)\<rparr>)))))"
  unfolding Service_Create_def Let_def effective_def withDefaults_key by simp

lemma Service_Create_run:
  assumes "Service_Create valid digest s ctx req w = (r, w')"
  obtains (rejected) e where "r = Inl e" and "errors_Is e ErrInvalidInput" and "w' = w"
      and "length (TrimSpace (cr_IdempotencyKey req)) > 255 \<or>
           validateCreate valid (effective s req) \<noteq> None"
    | (called) r1 w1 newID now where
        "Create (new_job digest (PrincipalOrDefault ctx) (effective s req) newID now) w1 = (r1, w')"
      and "w_db w1 = w_db w" and "w_txs w1 = w_txs w" and "w_faults w1 = w_faults w"
      and "newID = w_fresh w (w_used w)" and "now = w_clock w (w_ticks w)"
      and "validateCreate valid (effective s req) = None"
      and "length (TrimSpace (cr_IdempotencyKey req)) \<le> 255"
      and "r = (case r1 of Inl e \<Rightarrow> Inl e | Inr x \<Rightarrow>
             Inr \<lparr>resp_JobID = j_ID x, resp_Status = j_Status x, resp_Replayed = (j_ID x \<noteq> newID)\<rparr>)"
proof (cases "length (TrimSpace (cr_IdempotencyKey req)) > 255")
  case True
  with assms show thesis
    by (intro rejected [of "invalid_input ''Idempotency-Key exceeds 255 characters''"])
       (simp_all add: Service_Create_effective fail_tx_def invalid_input_def)
next
  case False
  show thesis
  proof (cases "validateCreate valid (effective s req)")
    case (Some m)
    with False assms show thesis
      by (intro rejected [of "invalid_input m"])
         (simp_all add: Service_Create_effective fail_tx_def invalid_input_def)
  next
    case None
    let ?w = "w\<lparr>w_used := Suc (w_used w), w_ticks := Suc (w_ticks w)\<rparr>"
    obtain r1 w2 where "Create (new_job digest (PrincipalOrDefault ctx) (effective s req)
        (w_fresh w (w_used w)) (w_clock w (w_ticks w))) ?w = (r1, w2)" by fastforce
    with assms False None show thesis
      by (intro called [of "w_fresh w (w_used w)" "w_clock w (w_ticks w)" ?w r1])
         (auto simp: Service_Create_effective bind_tx_def uuid_New_def time_Now_def
           return_tx_def split: sum.splits)
  qed
qed

lemma Service_Create_sound:
  assumes "db_ok (w_db w)" and "Service_Create valid digest s ctx req w = (r, w')"
  shows "sound_call (w_db w) (w_db w')"
  using assms(2)
proof (cases rule: Service_Create_run)
  case (rejected e)
  with assms(1) show ?thesis by (simp add: sound_call_refl)
next
  case (called r1 w1 newID now)
  show ?thesis
  proof (cases r1)
    case (Inl e)
    with called assms(1) atomic_txD [OF atomic_Create] show ?thesis
      by (metis sound_call_refl)
  next
    case (Inr x)
    with called assms(1) Create_sound [of w1, OF _ new_job_new_job_ok] show ?thesis by metis
  qed
qed

end
