(* ===== verification/Executor.thy ===== *)
theory Executor
  imports Job_Model
begin

text \<open>
  internal/worker/executor.go: dispatch of a job to its handler, classification of execution errors,
  and the webhook handler with its network policy.  The HTTP client with the network behind it, the
  DNS resolver, the JSON codec, the URL parser and the Unicode case mappings are the fields of the
  record \<open>webhook_env\<close>, an argument of the definitions that use them.
\<close>

section \<open>strconv.Atoi, strconv.Itoa\<close>

definition digit_val :: "char \<Rightarrow> int option" where
  "digit_val c = (let n = int (of_char c) in if 48 \<le> n \<and> n \<le> 57 then Some (n - 48) else None)"

fun digits_val :: "int \<Rightarrow> string \<Rightarrow> int option" where
  "digits_val acc [] = Some acc"
| "digits_val acc (c # cs) =
     (case digit_val c of None \<Rightarrow> None | Some k \<Rightarrow> digits_val (acc * 10 + k) cs)"

text \<open>\<open>None\<close> is a syntax or a range error; the callers do not distinguish them.\<close>

definition Atoi :: "string \<Rightarrow> int option" where
  "Atoi s =
     (let sign = (if s \<noteq> [] \<and> hd s = CHR ''-'' then - 1 else 1);
          body = (if s \<noteq> [] \<and> hd s \<in> {CHR ''-'', CHR ''+''} then tl s else s) in
      if body = [] then None
      else
        (case digits_val 0 body of
           None \<Rightarrow> None
         | Some n \<Rightarrow>
             if - (2 ^ 63) \<le> sign * n \<and> sign * n < 2 ^ 63 then Some (sign * n) else None))"

fun decimal :: "nat \<Rightarrow> string" where
  "decimal n =
     (if n < 10 then [char_of (48 + n)] else decimal (n div 10) @ [char_of (48 + n mod 10)])"

declare decimal.simps [simp del]

definition Itoa :: "int \<Rightarrow> string" where
  "Itoa n = (if n < 0 then CHR ''-'' # decimal (nat (- n)) else decimal (nat n))"

section \<open>Classification of errors\<close>

text \<open>\<open>errors.As(err, &executionErr)\<close>: the first \<open>ExecutionError\<close> of the chain.\<close>

fun as_ExecutionError :: "go_error \<Rightarrow> go_error option" where
  "as_ExecutionError (ExecutionError c m r a d) = Some (ExecutionError c m r a d)"
| "as_ExecutionError (Wrapped p e q) = as_ExecutionError e"
| "as_ExecutionError e = None"

definition ClassifyError :: "go_error \<Rightarrow> ExecutionResult" where
  "ClassifyError err =
     (case as_ExecutionError err of
        Some e \<Rightarrow> \<lparr>x_Metadata = ee_Metadata e, x_ErrorCode = ee_Code e,
                   x_Retryable = ee_Retryable e, x_Message = ee_Message e\<rparr>
      | None \<Rightarrow>
          if errors_Is err ContextDeadlineExceeded
          then \<lparr>x_Metadata = [], x_ErrorCode = ''TIMEOUT'', x_Retryable = True,
                x_Message = error_Error err\<rparr>
          else if errors_Is err ContextCanceled
          then \<lparr>x_Metadata = [], x_ErrorCode = ''CANCELLED'', x_Retryable = True,
                x_Message = error_Error err\<rparr>
          else \<lparr>x_Metadata = [], x_ErrorCode = ''HANDLER_ERROR'', x_Retryable = True,
                x_Message = error_Error err\<rparr>)"

definition retryAfter :: "go_error \<Rightarrow> duration" where
  "retryAfter err =
     (case as_ExecutionError err of Some e \<Rightarrow> ee_RetryAfter e | None \<Rightarrow> 0)"

definition parseRetryAfter :: "string \<Rightarrow> duration" where
  "parseRetryAfter value =
     (case Atoi (TrimSpace value) of
        None \<Rightarrow> 0
      | Some seconds \<Rightarrow>
          if seconds < 0 then 0
          else
            (let d = word_of_int seconds * Second in
             if sint d > sint (15 * Minute) then 15 * Minute else d))"

section \<open>Addresses\<close>

text \<open>\<open>net.IP\<close>: 4 or 16 bytes.\<close>

type_synonym ip = "8 word list"

definition To4 :: "ip \<Rightarrow> ip option" where
  "To4 a =
     (if length a = 4 then Some a
      else if length a = 16 \<and> take 10 a = replicate 10 0 \<and> a ! 10 = 0xFF \<and> a ! 11 = 0xFF
      then Some (drop 12 a)
      else None)"

definition IsLoopback :: "ip \<Rightarrow> bool" where
  "IsLoopback a =
     (case To4 a of Some b \<Rightarrow> b ! 0 = 127 | None \<Rightarrow> a = replicate 15 0 @ [1])"

definition IsPrivate :: "ip \<Rightarrow> bool" where
  "IsPrivate a =
     (case To4 a of
        Some b \<Rightarrow> b ! 0 = 10 \<or> b ! 0 = 172 \<and> and (b ! 1) 0xF0 = 16 \<or> b ! 0 = 192 \<and> b ! 1 = 168
      | None \<Rightarrow> length a = 16 \<and> and (a ! 0) 0xFE = 0xFC)"

definition IsLinkLocalMulticast :: "ip \<Rightarrow> bool" where
  "IsLinkLocalMulticast a =
     (case To4 a of
        Some b \<Rightarrow> b ! 0 = 224 \<and> b ! 1 = 0 \<and> b ! 2 = 0
      | None \<Rightarrow> length a = 16 \<and> a ! 0 = 0xFF \<and> and (a ! 1) 0x0F = 2)"

definition IsLinkLocalUnicast :: "ip \<Rightarrow> bool" where
  "IsLinkLocalUnicast a =
     (case To4 a of
        Some b \<Rightarrow> b ! 0 = 169 \<and> b ! 1 = 254
      | None \<Rightarrow> length a = 16 \<and> a ! 0 = 0xFE \<and> and (a ! 1) 0xC0 = 0x80)"

definition IsUnspecified :: "ip \<Rightarrow> bool" where
  "IsUnspecified a =
     (case To4 a of Some b \<Rightarrow> b = [0, 0, 0, 0] | None \<Rightarrow> a = replicate 16 0)"

section \<open>Headers\<close>

text \<open>\<open>http.CanonicalHeaderKey\<close>: keys that are not header tokens are left as they are.\<close>

definition is_token_char :: "char \<Rightarrow> bool" where
  "is_token_char c \<longleftrightarrow>
     c \<in> set ''ABCDEFGHIJKLMNOPQRSTUVWXYZ'' \<or> c \<in> set ''abcdefghijklmnopqrstuvwxyz'' \<or>
     c \<in> set ''0123456789!#$%&*+-.^_|~'' \<or> c = CHR 0x27 \<or> c = CHR 0x60"

definition upper_char :: "char \<Rightarrow> char" where
  "upper_char c =
     (case map_of (zip ''abcdefghijklmnopqrstuvwxyz'' ''ABCDEFGHIJKLMNOPQRSTUVWXYZ'') c of
        None \<Rightarrow> c | Some u \<Rightarrow> u)"

fun canonical_chars :: "bool \<Rightarrow> string \<Rightarrow> string" where
  "canonical_chars up [] = []"
| "canonical_chars up (c # cs) =
     (if up then upper_char c else lower_char c) # canonical_chars (c = CHR ''-'') cs"

definition CanonicalHeaderKey :: "string \<Rightarrow> string" where
  "CanonicalHeaderKey key = (if list_all is_token_char key then canonical_chars True key else key)"

definition isReservedHeader :: "string \<Rightarrow> bool" where
  "isReservedHeader key \<longleftrightarrow>
     key \<in> set [''Host'', ''Content-Length'', ''X-Scheduler-Job-Id'', ''X-Scheduler-Attempt'',
                ''Idempotency-Key'']"

type_synonym header = "string \<Rightarrow> string option"

definition Header_Set :: "string \<Rightarrow> string \<Rightarrow> header \<Rightarrow> header" where
  "Header_Set key value h = h(CanonicalHeaderKey key \<mapsto> value)"

section \<open>The webhook handler\<close>

record webhookPayload =
  wp_URL :: string
  wp_Method :: string
  wp_Headers :: "(string \<times> string) list"
  wp_Body :: json

record url =
  u_Scheme :: string
  u_HasUser :: bool
  u_Hostname :: string
  u_String :: string

record response =
  rs_StatusCode :: int
  rs_RetryAfter :: string
  rs_Body :: "go_error + string"

text \<open>
  \<open>we_lookup\<close> resolves a host name, \<open>we_do\<close> sends a request (the client checks every redirect and
  every dial with the policy below), \<open>we_elapsed_ms\<close> is the measured duration of the exchange.
\<close>

record webhook_env =
  we_unmarshal :: "json \<Rightarrow> webhookPayload option"
  we_marshal :: "int \<times> int \<times> string \<times> bool \<Rightarrow> json"
  we_parse :: "string \<Rightarrow> url option"
  we_upper :: "string \<Rightarrow> string"
  we_fold_eq :: "string \<Rightarrow> string \<Rightarrow> bool"
  we_uuid_String :: "uuid \<Rightarrow> string"
  we_lookup :: "string \<Rightarrow> go_error + ip list"
  we_new_request_fails :: "string \<Rightarrow> string \<Rightarrow> go_error option"
  we_do :: "string \<Rightarrow> string \<Rightarrow> header \<Rightarrow> json option \<Rightarrow> go_error + response"
  we_elapsed_ms :: int

record ExecutorOptions =
  eo_AllowedHosts :: "string list"
  eo_AllowPrivateNetworks :: bool

definition is_internal :: "ip \<Rightarrow> bool" where
  "is_internal a \<longleftrightarrow>
     IsLoopback a \<or> IsPrivate a \<or> IsLinkLocalMulticast a \<or> IsLinkLocalUnicast a \<or> IsUnspecified a"

definition validateHost :: "webhook_env \<Rightarrow> ExecutorOptions \<Rightarrow> string \<Rightarrow> go_error option" where
  "validateHost env opts host =
     (if \<exists>allowed\<in>set (eo_AllowedHosts opts). we_fold_eq env (TrimSpace allowed) host then None
      else
        (case we_lookup env host of
           Inl e \<Rightarrow> Some (Wrapped ''resolve webhook host: '' e '''')
         | Inr addresses \<Rightarrow>
             if eo_AllowPrivateNetworks opts then None
             else if \<exists>a\<in>set addresses. is_internal a
             then Some (ErrorString ''webhook target resolves to a private or local address'')
             else None))"

definition validateURL :: "webhook_env \<Rightarrow> ExecutorOptions \<Rightarrow> url \<Rightarrow> go_error option" where
  "validateURL env opts target =
     (if u_Scheme target \<noteq> ''http'' \<and> u_Scheme target \<noteq> ''https''
      then Some (ErrorString ''webhook URL must use http or https'')
      else if u_HasUser target
      then Some (ErrorString ''webhook URL must not contain credentials'')
      else if u_Hostname target = ''''
      then Some (ErrorString ''webhook URL requires a host'')
      else validateHost env opts (u_Hostname target))"

text \<open>The two hooks \<open>NewWebhookHandler\<close> installs in the HTTP client.\<close>

definition check_redirect :: "webhook_env \<Rightarrow> ExecutorOptions \<Rightarrow> url list \<Rightarrow> url \<Rightarrow> go_error option" where
  "check_redirect env opts via target =
     (if length via \<ge> 3 then Some (ErrorString ''too many redirects'')
      else validateURL env opts target)"

definition dial_check ::
  "webhook_env \<Rightarrow> ExecutorOptions \<Rightarrow> go_error + string \<times> string \<Rightarrow> go_error option" where
  "dial_check env opts split =
     (case split of Inl e \<Rightarrow> Some e | Inr (host, port) \<Rightarrow> validateHost env opts host)"

definition permanent :: "string \<Rightarrow> string \<Rightarrow> go_error" where
  "permanent code message = ExecutionError code message False 0 []"

definition base_headers :: "webhook_env \<Rightarrow> Job \<Rightarrow> header" where
  "base_headers env j =
     Header_Set ''Idempotency-Key'' (we_uuid_String env (j_ID j))
       (Header_Set ''X-Scheduler-Attempt'' (Itoa (j_AttemptNumber j))
         (Header_Set ''X-Scheduler-Job-ID'' (we_uuid_String env (j_ID j))
           (Header_Set ''Content-Type'' ''application/json'' Map.empty)))"

fun add_headers :: "(string \<times> string) list \<Rightarrow> header \<Rightarrow> header" where
  "add_headers [] h = h"
| "add_headers ((key, value) # rest) h =
     (let canonical = CanonicalHeaderKey key in
      if isReservedHeader canonical then add_headers rest h
      else add_headers rest (Header_Set canonical value h))"

definition handle_response :: "webhook_env \<Rightarrow> response \<Rightarrow> go_error + json" where
  "handle_response env resp =
     (case rs_Body resp of
        Inl e \<Rightarrow> Inl (ExecutionError ''WEBHOOK_READ_ERROR'' (error_Error e) True 0 [])
      | Inr body \<Rightarrow>
          (let read = take 4097 body; truncated = length read > 4096;
               excerpt = (if truncated then take 4096 read else read);
               metadata =
                 we_marshal env (rs_StatusCode resp, we_elapsed_ms env, excerpt, truncated) in
           if rs_StatusCode resp \<ge> 200 \<and> rs_StatusCode resp < 300 then Inr metadata
           else
             Inl (ExecutionError ''WEBHOOK_HTTP_ERROR''
               (''webhook returned HTTP '' @ Itoa (rs_StatusCode resp))
               (rs_StatusCode resp = 408 \<or> rs_StatusCode resp = 429 \<or> rs_StatusCode resp \<ge> 500)
               (parseRetryAfter (rs_RetryAfter resp)) metadata)))"

definition WebhookHandler_Execute ::
  "webhook_env \<Rightarrow> ExecutorOptions \<Rightarrow> Job \<Rightarrow> go_error + json" where
  "WebhookHandler_Execute env opts j =
     (case we_unmarshal env (j_Payload j) of
        None \<Rightarrow> Inl (permanent ''INVALID_PAYLOAD'' ''webhook payload must be valid JSON'')
      | Some payload \<Rightarrow>
          (case we_parse env (wp_URL payload) of
             None \<Rightarrow> Inl (permanent ''INVALID_URL'' ''webhook URL is invalid'')
           | Some parsed \<Rightarrow>
               (case validateURL env opts parsed of
                  Some err \<Rightarrow> Inl (permanent ''UNSAFE_WEBHOOK_TARGET'' (error_Error err))
                | None \<Rightarrow>
                    (let upper = we_upper env (TrimSpace (wp_Method payload));
                         method = (if upper = '''' then ''POST'' else upper);
                         body = (if wp_Body payload \<noteq> [] then Some (wp_Body payload) else None) in
                     if method \<notin> set [''GET'', ''POST'', ''PUT'', ''PATCH'', ''DELETE'']
                     then Inl (permanent ''INVALID_METHOD'' ''unsupported webhook method'')
                     else
                       (case we_new_request_fails env method (u_String parsed) of
                          Some err \<Rightarrow> Inl (permanent ''REQUEST_BUILD_FAILED'' (error_Error err))
                        | None \<Rightarrow>
                            (case we_do env method (u_String parsed)
                                    (add_headers (wp_Headers payload) (base_headers env j)) body of
                               Inl err \<Rightarrow>
                                 Inl (ExecutionError ''WEBHOOK_NETWORK_ERROR'' (error_Error err) True 0 [])
                             | Inr resp \<Rightarrow> handle_response env resp))))))"

definition Executor_Execute :: "webhook_env \<Rightarrow> ExecutorOptions \<Rightarrow> Job \<Rightarrow> go_error + json" where
  "Executor_Execute env opts j =
     (case map_of [(''CALL_WEBHOOK'', WebhookHandler_Execute env opts)] (j_JobType j) of
        None \<Rightarrow> Inl (permanent ''UNSUPPORTED_JOB_TYPE'' (''unsupported job type '' @ j_JobType j))
      | Some handler \<Rightarrow> handler j)"

section \<open>Lemmas\<close>

lemma digits_val_nonneg: "0 \<le> acc \<Longrightarrow> digits_val acc s = Some n \<Longrightarrow> 0 \<le> n"
  by (induction acc s rule: digits_val.induct)
     (auto simp: digit_val_def Let_def split: option.splits if_splits)

lemma parseRetryAfter_upper: "sint (parseRetryAfter v) \<le> sint (15 * Minute :: duration)"
  by (simp add: parseRetryAfter_def Let_def split: option.splits)

lemma parseRetryAfter_exact:
  assumes "Atoi (TrimSpace v) = Some n" and "0 \<le> n" and "n * 1000000000 < 2 ^ 63"
  shows "sint (parseRetryAfter v) = min (n * 1000000000) (900 * 1000000000)"
proof -
  have "(word_of_int n :: duration) * Second = word_of_int (n * 1000000000)" by simp
  then have "sint ((word_of_int n :: duration) * Second) = n * 1000000000"
    using assms sint_word_of_int_64 [of "n * 1000000000"] by simp
  moreover have "sint (15 * Minute :: duration) = 900 * 1000000000"
    by simp
  ultimately show ?thesis
    using assms by (auto simp: parseRetryAfter_def Let_def)
qed

lemma canonical_ids [simp]:
  "CanonicalHeaderKey ''Idempotency-Key'' = ''Idempotency-Key''"
  "CanonicalHeaderKey ''X-Scheduler-Attempt'' = ''X-Scheduler-Attempt''"
  "CanonicalHeaderKey ''X-Scheduler-Job-ID'' = ''X-Scheduler-Job-Id''"
  "CanonicalHeaderKey ''Content-Type'' = ''Content-Type''"
  by (simp_all add: CanonicalHeaderKey_def is_token_char_def upper_char_def lower_char_def)

lemma case_maps [simp]:
  "upper_char (upper_char c) = upper_char c"
  "lower_char (lower_char c) = lower_char c"
  by (simp_all add: upper_char_def lower_char_def map_of_zip_map split: option.splits if_splits)

lemma upper_char_cases:
  "upper_char c = c \<or> upper_char c \<in> set ''ABCDEFGHIJKLMNOPQRSTUVWXYZ'' \<and> c \<noteq> CHR ''-''"
  by (auto simp: upper_char_def split: option.splits if_splits)

lemma lower_char_cases:
  "lower_char c = c \<or> lower_char c \<in> set ''abcdefghijklmnopqrstuvwxyz'' \<and> c \<noteq> CHR ''-''"
  by (auto simp: lower_char_def split: option.splits if_splits)

lemma dash_maps [simp]:
  "upper_char c = CHR ''-'' \<longleftrightarrow> c = CHR ''-''"
  "lower_char c = CHR ''-'' \<longleftrightarrow> c = CHR ''-''"
  using upper_char_cases [of c] lower_char_cases [of c]
  by (auto simp: upper_char_def lower_char_def)

lemma token_maps:
  "is_token_char c \<Longrightarrow> is_token_char (upper_char c)"
  "is_token_char c \<Longrightarrow> is_token_char (lower_char c)"
  unfolding is_token_char_def using upper_char_cases [of c] lower_char_cases [of c] by metis+

lemma canonical_chars_idem: "canonical_chars up (canonical_chars up s) = canonical_chars up s"
  by (induction up s rule: canonical_chars.induct) auto

lemma canonical_chars_token:
  "list_all is_token_char s \<Longrightarrow> list_all is_token_char (canonical_chars up s)"
  by (induction up s rule: canonical_chars.induct) (auto simp: token_maps)

lemma CanonicalHeaderKey_idem [simp]:
  "CanonicalHeaderKey (CanonicalHeaderKey k) = CanonicalHeaderKey k"
  by (simp add: CanonicalHeaderKey_def canonical_chars_idem canonical_chars_token)

lemma add_headers_reserved:
  "isReservedHeader k \<Longrightarrow> add_headers hs h k = h k"
  by (induction hs h rule: add_headers.induct) (auto simp: Let_def Header_Set_def)

lemma base_headers_ids:
  "base_headers env j ''Idempotency-Key'' = Some (we_uuid_String env (j_ID j))"
  "base_headers env j ''X-Scheduler-Job-Id'' = Some (we_uuid_String env (j_ID j))"
  "base_headers env j ''X-Scheduler-Attempt'' = Some (Itoa (j_AttemptNumber j))"
  by (simp_all add: base_headers_def Header_Set_def)

end
