(* ===== verification/Redis_Lock.thy ===== *)
theory Redis_Lock
  imports Pg_Tx
begin

text \<open>
  internal/lock/redis_lock.go: the owner-checked lease on a Redis key.  The Redis server and its
  Go client are not part of the repository: the commands the code sends are a record of
  functions on a server state, and the locale \<open>redis_server\<close> lists what the code relies on, in the
  words of the Redis documentation.  The locale \<open>lease_manager\<close> is the contract of the worker's
  \<open>LockManager\<close>; \<open>sublocale\<close> shows that \<open>RedisLock\<close> meets it over any server with those laws, and the
  keyspace with expiry times at the end of the theory is such a server.
\<close>

section \<open>The commands\<close>

text \<open>
  \<open>rd_fault\<close> is the outcome of the round trip to the server: \<open>Some e\<close> when the command fails before it
  is executed.  Every command is executed at the server's clock \<open>now\<close>.
\<close>

record 'r redis =
  rd_fault :: "'r \<Rightarrow> go_error option"
  rd_get :: "time \<Rightarrow> string \<Rightarrow> 'r \<Rightarrow> string option"
  rd_setnx :: "time \<Rightarrow> string \<Rightarrow> string \<Rightarrow> duration \<Rightarrow> 'r \<Rightarrow> bool \<times> 'r"
  rd_del :: "time \<Rightarrow> string \<Rightarrow> 'r \<Rightarrow> int \<times> 'r"
  rd_pexpire :: "time \<Rightarrow> string \<Rightarrow> int \<Rightarrow> 'r \<Rightarrow> int \<times> 'r"

text \<open>A time to live reaches the server in whole milliseconds.\<close>

definition lease_time :: "duration \<Rightarrow> int" where
  "lease_time ttl = duration_Milliseconds ttl * 1000000"

section \<open>RedisLock\<close>

definition RedisLock_Acquire ::
  "'r redis \<Rightarrow> time \<Rightarrow> string \<Rightarrow> string \<Rightarrow> duration \<Rightarrow> 'r \<Rightarrow> (go_error + bool) \<times> 'r" where
  "RedisLock_Acquire rd now key owner ttl s =
     (case rd_fault rd s of
        Some e \<Rightarrow> (Inl e, s)
      | None \<Rightarrow> (case rd_setnx rd now key owner ttl s of (b, s') \<Rightarrow> (Inr b, s')))"

text \<open>The two Lua scripts run atomically on the server.\<close>

definition RedisLock_Release ::
  "'r redis \<Rightarrow> time \<Rightarrow> string \<Rightarrow> string \<Rightarrow> 'r \<Rightarrow> (go_error + bool) \<times> 'r" where
  "RedisLock_Release rd now key owner s =
     (case rd_fault rd s of
        Some e \<Rightarrow> (Inl e, s)
      | None \<Rightarrow>
          if rd_get rd now key s = Some owner
          then (case rd_del rd now key s of (n, s') \<Rightarrow> (Inr (n = 1), s'))
          else (Inr False, s))"

definition RedisLock_Extend ::
  "'r redis \<Rightarrow> time \<Rightarrow> string \<Rightarrow> string \<Rightarrow> duration \<Rightarrow> 'r \<Rightarrow> (go_error + bool) \<times> 'r" where
  "RedisLock_Extend rd now key owner ttl s =
     (case rd_fault rd s of
        Some e \<Rightarrow> (Inl e, s)
      | None \<Rightarrow>
          if rd_get rd now key s = Some owner
          then (case rd_pexpire rd now key (duration_Milliseconds ttl) s of (n, s') \<Rightarrow> (Inr (n = 1), s'))
          else (Inr False, s))"

section \<open>The contract of a lease manager\<close>

text \<open>
  \<open>holder t k s\<close> is the owner whose lease on \<open>k\<close> is live at \<open>t\<close>.  A lease ends by itself when its time
  to live has passed and is never revived; only its owner ends it earlier or renews it; an
  operation on one key leaves the others alone.
\<close>

locale lease_manager =
  fixes holder :: "time \<Rightarrow> string \<Rightarrow> 's \<Rightarrow> string option"
    and acquire :: "time \<Rightarrow> string \<Rightarrow> string \<Rightarrow> duration \<Rightarrow> 's \<Rightarrow> (go_error + bool) \<times> 's"
    and release :: "time \<Rightarrow> string \<Rightarrow> string \<Rightarrow> 's \<Rightarrow> (go_error + bool) \<times> 's"
    and extend :: "time \<Rightarrow> string \<Rightarrow> string \<Rightarrow> duration \<Rightarrow> 's \<Rightarrow> (go_error + bool) \<times> 's"
  assumes holder_ends: "\<lbrakk>t \<le> t'; holder t' k s = Some v\<rbrakk> \<Longrightarrow> holder t k s = Some v"
    and acquire_ok: "acquire t k v ttl s = (Inr True, s') \<Longrightarrow>
          holder t k s = None \<and> (\<forall>t'\<ge>t. holder t' k s' \<in> {None, Some v})"
    and acquire_lasts: "\<lbrakk>acquire t k v ttl s = (Inr True, s'); t \<le> t'; t' < t + lease_time ttl\<rbrakk> \<Longrightarrow>
          holder t' k s' = Some v"
    and acquire_no: "\<lbrakk>acquire t k v ttl s = (r, s'); r \<noteq> Inr True\<rbrakk> \<Longrightarrow> s' = s"
    and acquire_other: "\<lbrakk>acquire t k v ttl s = (r, s'); k' \<noteq> k\<rbrakk> \<Longrightarrow> holder t' k' s' = holder t' k' s"
    and release_ok: "release t k v s = (Inr True, s') \<Longrightarrow>
          holder t k s = Some v \<and> (\<forall>t'. holder t' k s' = None)"
    and release_no: "\<lbrakk>release t k v s = (r, s'); r \<noteq> Inr True\<rbrakk> \<Longrightarrow> s' = s"
    and release_other: "\<lbrakk>release t k v s = (r, s'); k' \<noteq> k\<rbrakk> \<Longrightarrow> holder t' k' s' = holder t' k' s"
    and extend_ok: "extend t k v ttl s = (Inr True, s') \<Longrightarrow>
          holder t k s = Some v \<and> (\<forall>t'\<ge>t. holder t' k s' \<in> {None, Some v})"
    and extend_lasts: "\<lbrakk>extend t k v ttl s = (Inr True, s'); t \<le> t'; t' < t + lease_time ttl\<rbrakk> \<Longrightarrow>
          holder t' k s' = Some v"
    and extend_no: "\<lbrakk>extend t k v ttl s = (r, s'); r \<noteq> Inr True\<rbrakk> \<Longrightarrow> s' = s"
    and extend_other: "\<lbrakk>extend t k v ttl s = (r, s'); k' \<noteq> k\<rbrakk> \<Longrightarrow> holder t' k' s' = holder t' k' s"
begin

text \<open>
  Another owner's operations never give the key to that owner while the lease is live, and never
  shorten the lease.
\<close>

lemma acquire_keeps_other_owner:
  assumes "holder t k s = Some u" and "acquire t k' v ttl s = (r, s')"
    and "t' \<ge> t" and "holder t' k s = Some u"
  shows "holder t' k s' = Some u"
proof (cases "k' = k")
  case True
  with assms acquire_ok [of t k v ttl s s'] have "r \<noteq> Inr True" by auto
  with acquire_no [OF assms(2)] assms show ?thesis by simp
next
  case False
  with acquire_other [OF assms(2), of k t'] assms show ?thesis by simp
qed

lemma release_keeps_other_owner:
  assumes "holder t k s = Some u" and "u \<noteq> v" and "release t k' v s = (r, s')"
    and "holder t' k s = Some u"
  shows "holder t' k s' = Some u"
proof (cases "k' = k")
  case True
  with assms release_ok [of t k v s s'] have "r \<noteq> Inr True" by auto
  with release_no [OF assms(3)] assms show ?thesis by simp
next
  case False
  with release_other [OF assms(3), of k t'] assms show ?thesis by simp
qed

lemma extend_keeps_other_owner:
  assumes "holder t k s = Some u" and "u \<noteq> v" and "extend t k' v ttl s = (r, s')"
    and "holder t' k s = Some u"
  shows "holder t' k s' = Some u"
proof (cases "k' = k")
  case True
  with assms extend_ok [of t k v ttl s s'] have "r \<noteq> Inr True" by auto
  with extend_no [OF assms(3)] assms show ?thesis by simp
next
  case False
  with extend_other [OF assms(3), of k t'] assms show ?thesis by simp
qed

end

section \<open>The laws of the server\<close>

locale redis_server =
  fixes rd :: "'r redis"
  assumes get_expires: "\<lbrakk>t \<le> t'; rd_get rd t' k s = Some v\<rbrakk> \<Longrightarrow> rd_get rd t k s = Some v"
    and setnx_new: "\<lbrakk>rd_get rd t k s = None; rd_setnx rd t k v ttl s = (b, s')\<rbrakk> \<Longrightarrow>
          b \<and> (\<forall>t'. rd_get rd t' k s' \<in> {None, Some v}) \<and>
          (\<forall>t'. t \<le> t' \<and> t' < t + lease_time ttl \<longrightarrow> rd_get rd t' k s' = Some v)"
    and setnx_old: "\<lbrakk>rd_get rd t k s = Some u; rd_setnx rd t k v ttl s = (b, s')\<rbrakk> \<Longrightarrow> \<not> b \<and> s' = s"
    and setnx_other: "\<lbrakk>rd_setnx rd t k v ttl s = (b, s'); k' \<noteq> k\<rbrakk> \<Longrightarrow>
          rd_get rd t' k' s' = rd_get rd t' k' s"
    and del_old: "\<lbrakk>rd_get rd t k s = Some u; rd_del rd t k s = (n, s')\<rbrakk> \<Longrightarrow>
          n = 1 \<and> (\<forall>t'. rd_get rd t' k s' = None)"
    and del_other: "\<lbrakk>rd_del rd t k s = (n, s'); k' \<noteq> k\<rbrakk> \<Longrightarrow>
          rd_get rd t' k' s' = rd_get rd t' k' s"
    and pexpire_old: "\<lbrakk>rd_get rd t k s = Some u; rd_pexpire rd t k ms s = (n, s')\<rbrakk> \<Longrightarrow>
          n = 1 \<and> (\<forall>t'. rd_get rd t' k s' \<in> {None, Some u}) \<and>
          (\<forall>t'. t \<le> t' \<and> t' < t + ms * 1000000 \<longrightarrow> rd_get rd t' k s' = Some u)"
    and pexpire_other: "\<lbrakk>rd_pexpire rd t k ms s = (n, s'); k' \<noteq> k\<rbrakk> \<Longrightarrow>
          rd_get rd t' k' s' = rd_get rd t' k' s"

sublocale redis_server \<subseteq> lease: lease_manager
  "rd_get rd" "RedisLock_Acquire rd" "RedisLock_Release rd" "RedisLock_Extend rd"
proof (unfold_locales, goal_cases)
  case (1 t t' k s v)
  then show ?case by (rule get_expires)
next
  case (2 t k v ttl s s')
  then have *: "rd_setnx rd t k v ttl s = (True, s')"
    by (auto simp: RedisLock_Acquire_def split: option.splits prod.splits)
  then have "rd_get rd t k s = None"
    by (cases "rd_get rd t k s") (auto dest: setnx_old)
  with setnx_new [OF this *] show ?case by blast
next
  case (3 t k v ttl s s' t')
  then have *: "rd_setnx rd t k v ttl s = (True, s')"
    by (auto simp: RedisLock_Acquire_def split: option.splits prod.splits)
  then have "rd_get rd t k s = None"
    by (cases "rd_get rd t k s") (auto dest: setnx_old)
  with setnx_new [OF this *] 3 show ?case by blast
next
  case (4 t k v ttl s r s')
  show ?case
  proof (cases "rd_fault rd s = None")
    case True
    obtain b s1 where b: "rd_setnx rd t k v ttl s = (b, s1)" by fastforce
    with True 4 have "r = Inr b" "s' = s1" by (auto simp: RedisLock_Acquire_def)
    with 4 b setnx_new [of t k s v ttl b s1] setnx_old [of t k s _ v ttl b s1] show ?thesis
      by (cases "rd_get rd t k s") auto
  next
    case False
    with 4 show ?thesis by (auto simp: RedisLock_Acquire_def)
  qed
next
  case (5 t k v ttl s r s' k' t')
  then show ?case
    by (auto simp: RedisLock_Acquire_def split: option.splits prod.splits intro: setnx_other)
next
  case (6 t k v s s')
  then show ?case
    by (auto simp: RedisLock_Release_def split: option.splits prod.splits if_splits dest: del_old)
next
  case (7 t k v s r s')
  then show ?case
    by (auto simp: RedisLock_Release_def split: option.splits prod.splits if_splits dest: del_old)
next
  case (8 t k v s r s' k' t')
  then show ?case
    by (auto simp: RedisLock_Release_def split: option.splits prod.splits if_splits intro: del_other)
next
  case (9 t k v ttl s s')
  then show ?case
    by (auto simp: RedisLock_Extend_def split: option.splits prod.splits if_splits dest: pexpire_old)
next
  case (10 t k v ttl s s' t')
  then show ?case
    by (auto simp: RedisLock_Extend_def lease_time_def split: option.splits prod.splits if_splits dest: pexpire_old)
next
  case (11 t k v ttl s r s')
  then show ?case
    by (auto simp: RedisLock_Extend_def split: option.splits prod.splits if_splits dest: pexpire_old)
next
  case (12 t k v ttl s r s' k' t')
  then show ?case
    by (auto simp: RedisLock_Extend_def split: option.splits prod.splits if_splits intro: pexpire_other)
qed

section \<open>A server: keys with an expiry time\<close>

record ttl_store =
  ts_fault :: "go_error option"
  ts_keys :: "string \<Rightarrow> (string \<times> time option) option"

definition ttl_get :: "time \<Rightarrow> string \<Rightarrow> ttl_store \<Rightarrow> string option" where
  "ttl_get t k s =
     (case ts_keys s k of
        None \<Rightarrow> None
      | Some (v, None) \<Rightarrow> Some v
      | Some (v, Some e) \<Rightarrow> if t < e then Some v else None)"

definition ttl_put :: "string \<Rightarrow> (string \<times> time option) option \<Rightarrow> ttl_store \<Rightarrow> ttl_store" where
  "ttl_put k x s = s\<lparr>ts_keys := (ts_keys s)(k := x)\<rparr>"

definition ttl_server :: "ttl_store redis" where
  "ttl_server =
     \<lparr>rd_fault = ts_fault, rd_get = ttl_get,
      rd_setnx = (\<lambda>t k v ttl s.
        if ttl_get t k s = None
        then (True, ttl_put k (Some (v, if sint ttl \<le> 0 then None else Some (t + lease_time ttl))) s)
        else (False, s)),
      rd_del = (\<lambda>t k s. if ttl_get t k s = None then (0, s) else (1, ttl_put k None s)),
      rd_pexpire = (\<lambda>t k ms s.
        case ttl_get t k s of
          None \<Rightarrow> (0, s)
        | Some v \<Rightarrow> (1, ttl_put k (Some (v, Some (t + ms * 1000000))) s))\<rparr>"

lemma ttl_get_put:
  "ttl_get t k (ttl_put k' x s) =
     (if k = k'
      then (case x of None \<Rightarrow> None | Some (v, None) \<Rightarrow> Some v
            | Some (v, Some e) \<Rightarrow> if t < e then Some v else None)
      else ttl_get t k s)"
  by (simp add: ttl_get_def ttl_put_def)

interpretation ttl: redis_server ttl_server
proof (unfold_locales, goal_cases)
  case (1 t t' k s v)
  then show ?case
    by (auto simp: ttl_server_def ttl_get_def split: option.splits prod.splits if_splits)
next
  case (2 t k s v ttl b s')
  then show ?case by (auto simp: ttl_server_def ttl_get_put split: option.splits if_splits)
next
  case (3 t k s u v ttl b s')
  then show ?case by (auto simp: ttl_server_def)
next
  case (4 t k v ttl s b s' k' t')
  then show ?case by (auto simp: ttl_server_def ttl_get_put split: if_splits)
next
  case (5 t k s u n s')
  then show ?case by (auto simp: ttl_server_def ttl_get_put)
next
  case (6 t k s n s' k' t')
  then show ?case by (auto simp: ttl_server_def ttl_get_put split: if_splits)
next
  case (7 t k s u ms n s')
  then show ?case by (auto simp: ttl_server_def ttl_get_put)
next
  case (8 t k ms s n s' k' t')
  then show ?case by (auto simp: ttl_server_def ttl_get_put split: option.splits)
qed

end
