(* ===== verification/Worker_Service.thy ===== *)
theory Worker_Service
  imports Executor Redis_Lock Repo_Invariant
begin

text \<open>
  internal/worker/service.go: the worker's settings, one round of the poll loop, lease renewal and
  \<open>ProcessJob\<close>.  As in the code, a worker knows the repository and the lock manager by their
  interfaces only: the record \<open>Repository\<close> has the methods of \<open>job.Repository\<close> it calls, the record
  \<open>LockManager\<close> those of the lock.  It acts on two stores, the database and whatever its lock manager
  keeps; between two of its calls other processes act on both (\<open>gap\<close>).  The handler that executes
  the job is a function of the job and of whether its context was cancelled.

  The locale \<open>worker_repository\<close> is the contract the worker needs of a repository; the theorems on
  \<open>ProcessJob\<close> are proved from it once, and the interpretation at the end of the theory discharges
  it for the PostgreSQL repository.
\<close>

section \<open>Settings\<close>

record worker =
  wk_ID :: string
  wk_concurrency :: int
  wk_batchSize :: int
  wk_pollInterval :: duration
  wk_lockTTL :: duration
  wk_heartbeatTTL :: duration
  wk_heartbeatInterval :: duration

definition worker_NewService ::
  "string \<Rightarrow> string \<Rightarrow> int \<Rightarrow> int \<Rightarrow> duration \<Rightarrow> duration \<Rightarrow> worker" where
  "worker_NewService generated workerID concurrency batchSize pollInterval lockTTL =
     \<lparr>wk_ID = (if workerID = '''' then ''worker-'' @ generated else workerID),
      wk_concurrency = (if concurrency < 1 then 1 else concurrency),
      wk_batchSize = (if batchSize < 1 then 1 else batchSize),
      wk_pollInterval = pollInterval, wk_lockTTL = lockTTL,
      wk_heartbeatTTL = 30 * Second, wk_heartbeatInterval = 10 * Second\<rparr>"

definition WithRegistry :: "duration \<Rightarrow> duration \<Rightarrow> worker \<Rightarrow> worker" where
  "WithRegistry ttl interval s =
     s\<lparr>wk_heartbeatTTL := (if sint ttl > 0 then ttl else wk_heartbeatTTL s),
       wk_heartbeatInterval := (if sint interval > 0 then interval else wk_heartbeatInterval s)\<rparr>"

section \<open>The repository as the worker sees it\<close>

record 'd Repository =
  rp_ClaimDueJobs :: "string \<Rightarrow> int \<Rightarrow> duration \<Rightarrow> ('d, Job list) tx"
  rp_CreateAttempt :: "uuid \<Rightarrow> string \<Rightarrow> int \<Rightarrow> ('d, Attempt) tx"
  rp_ReleaseClaim :: "uuid \<Rightarrow> string \<Rightarrow> Status \<Rightarrow> ('d, unit) tx"
  rp_RecoverExpiredRunningJobs :: "string \<Rightarrow> ('d, nat) tx"
  rp_CompleteExecution :: "Job \<Rightarrow> string \<Rightarrow> duration \<Rightarrow> json \<Rightarrow> ('d, unit) tx"
  rp_FailExecution ::
    "Job \<Rightarrow> string \<Rightarrow> duration \<Rightarrow> ExecutionResult \<Rightarrow> Status \<Rightarrow> int \<Rightarrow> time \<Rightarrow> ('d, unit) tx"
  rp_ExtendLease :: "uuid \<Rightarrow> string \<Rightarrow> duration \<Rightarrow> ('d, bool) tx"

definition PostgresRepository :: "db Repository" where
  "PostgresRepository =
     \<lparr>rp_ClaimDueJobs = ClaimDueJobs, rp_CreateAttempt = CreateAttempt,
      rp_ReleaseClaim = ReleaseClaim, rp_RecoverExpiredRunningJobs = RecoverExpiredRunningJobs,
      rp_CompleteExecution = CompleteExecution, rp_FailExecution = FailExecution,
      rp_ExtendLease = ExtendLease\<rparr>"

section \<open>Lock managers\<close>

text \<open>\<open>Extend\<close> is optional: \<open>renewLease\<close> tests for it with a type assertion.\<close>

record 'l LockManager =
  lm_Acquire :: "string \<Rightarrow> string \<Rightarrow> duration \<Rightarrow> 'l \<Rightarrow> (go_error + bool) \<times> 'l"
  lm_Release :: "string \<Rightarrow> string \<Rightarrow> 'l \<Rightarrow> (go_error + bool) \<times> 'l"
  lm_Extend :: "(string \<Rightarrow> string \<Rightarrow> duration \<Rightarrow> 'l \<Rightarrow> (go_error + bool) \<times> 'l) option"

definition noopLockManager :: "'l LockManager" where
  "noopLockManager =
     \<lparr>lm_Acquire = (\<lambda>key owner ttl l. (Inr True, l)),
      lm_Release = (\<lambda>key owner l. (Inr True, l)), lm_Extend = None\<rparr>"

text \<open>\<open>RedisLock\<close> as a lock manager: the n-th command is executed at the server's time \<open>clock n\<close>.\<close>

definition redisLockManager :: "'r redis \<Rightarrow> (nat \<Rightarrow> time) \<Rightarrow> ('r \<times> nat) LockManager" where
  "redisLockManager rd clock =
     \<lparr>lm_Acquire = (\<lambda>key owner ttl (s, n).
        case RedisLock_Acquire rd (clock n) key owner ttl s of (r, s') \<Rightarrow> (r, (s', Suc n))),
      lm_Release = (\<lambda>key owner (s, n).
        case RedisLock_Release rd (clock n) key owner s of (r, s') \<Rightarrow> (r, (s', Suc n))),
      lm_Extend = Some (\<lambda>key owner ttl (s, n).
        case RedisLock_Extend rd (clock n) key owner ttl s of (r, s') \<Rightarrow> (r, (s', Suc n)))\<rparr>"

section \<open>Polling\<close>

text \<open>One tick of \<open>Run\<close>: both errors are logged and the loop goes on.\<close>

definition poll_tick :: "'d Repository \<Rightarrow> worker \<Rightarrow> ('d, Job list) tx" where
  "poll_tick repo s =
     bind_tx (try_tx (rp_RecoverExpiredRunningJobs repo ''worker lease expired before completion'')) (\<lambda>_.
     bind_tx (try_tx (rp_ClaimDueJobs repo (wk_ID s) (wk_batchSize s) (wk_lockTTL s))) (\<lambda>res.
     return_tx (case res of Inl _ \<Rightarrow> [] | Inr claimed \<Rightarrow> claimed)))"

section \<open>Lease renewal\<close>

text \<open>\<open>ttl / 3\<close>, at least one and at most five seconds.  Go's division truncates towards zero.\<close>

definition renew_interval :: "duration \<Rightarrow> int" where
  "renew_interval ttl =
     (let interval = sint ttl sdiv 3;
          low = (if interval < 1000000000 then 1000000000 else interval)
      in if low > 5 * 1000000000 then 5 * 1000000000 else low)"

type_synonym ('d, 'l) wstate = "'d world \<times> 'l"

type_synonym ('d, 'l) gap = "'d \<times> 'l \<Rightarrow> 'd \<times> 'l"

definition apply_gap :: "('d, 'l) gap \<Rightarrow> ('d, 'l) wstate \<Rightarrow> ('d, 'l) wstate" where
  "apply_gap g s = (case s of (w, l) \<Rightarrow> (case g (w_db w, l) of (d, l') \<Rightarrow> (w\<lparr>w_db := d\<rparr>, l')))"

text \<open>
  The loop of \<open>renewLease\<close> until the context is done: one gap per tick.  The result says whether the
  loop cancelled the execution.
\<close>

fun renewLease ::
  "'d Repository \<Rightarrow> 'l LockManager \<Rightarrow> string \<Rightarrow> string \<Rightarrow> uuid \<Rightarrow> duration \<Rightarrow> ('d, 'l) gap list \<Rightarrow> ('d, 'l) wstate \<Rightarrow> bool \<times> ('d, 'l) wstate"
where
  "renewLease repo lm workerID lockKey jobID ttl [] s = (False, s)"
| "renewLease repo lm workerID lockKey jobID ttl (g # gs) s =
     (case apply_gap g s of (w, l) \<Rightarrow>
       (case rp_ExtendLease repo jobID workerID ttl w of
          (Inr True, w') \<Rightarrow>
            (case lm_Extend lm of
               None \<Rightarrow> renewLease repo lm workerID lockKey jobID ttl gs (w', l)
             | Some renew \<Rightarrow>
                 (case renew lockKey workerID ttl l of
                    (Inr True, l') \<Rightarrow> renewLease repo lm workerID lockKey jobID ttl gs (w', l')
                  | (_, l') \<Rightarrow> (True, (w', l'))))
        | (_, w') \<Rightarrow> (True, (w', l))))"

section \<open>ProcessJob\<close>

text \<open>
  What happens around one call: the gaps, the ticks of the renewal loop, the handler.  The handler
  gets the deadline of its context and whether the renewal loop cancelled it.
\<close>

record ('d, 'l) execution =
  ex_before :: "('d, 'l) gap"
  ex_ticks :: "('d, 'l) gap list"
  ex_handler :: "Job \<Rightarrow> duration \<Rightarrow> bool \<Rightarrow> go_error + json"
  ex_after :: "('d, 'l) gap"
  ex_duration :: duration

definition exec_timeout :: "Job \<Rightarrow> duration" where
  "exec_timeout j =
     (let timeout = word_of_int (j_TimeoutSeconds j) * Second
      in if sint timeout \<le> 0 then 300 * Second else timeout)"

definition next_status :: "FailureDecision \<Rightarrow> ExecutionResult \<Rightarrow> Status" where
  "next_status decision outcome =
     (if fd_Status decision = EngDeadLettered \<or> \<not> x_Retryable outcome
      then StatusDeadLettered else StatusRetryScheduled)"

text \<open>The last step of the failure path: a conflict after a cancellation is expected.\<close>

definition record_failure ::
  "'d Repository \<Rightarrow> string \<Rightarrow> Job \<Rightarrow> duration \<Rightarrow> go_error \<Rightarrow> Status \<Rightarrow> int \<Rightarrow> time \<Rightarrow> ('d, unit) tx" where
  "record_failure repo workerID j dur err nextStatus nextRetryCount nextRunAt =
     bind_tx (try_tx (rp_FailExecution repo j workerID dur (ClassifyError err) nextStatus nextRetryCount
                        nextRunAt)) (\<lambda>res.
     case res of
       Inr _ \<Rightarrow> return_tx ()
     | Inl failErr \<Rightarrow>
         if errors_Is err ContextCanceled \<and> errors_Is failErr ErrConflict then return_tx ()
         else fail_tx (Wrapped ''finalize failed execution: '' failErr ''''))"

definition finalize_failure :: "'d Repository \<Rightarrow> string \<Rightarrow> Job \<Rightarrow> duration \<Rightarrow> go_error \<Rightarrow> ('d, unit) tx" where
  "finalize_failure repo workerID j dur err =
     bind_tx time_Now (\<lambda>now.
     let decision = DecideFailure now (j_RetryCount j) (j_MaxRetries j) (j_RetryBackoffSeconds j)
     in bind_tx
          (if sint (retryAfter err) > 0
           then bind_tx time_Now (\<lambda>t. return_tx (time_Add t (retryAfter err)))
           else return_tx (fd_NextRunAt decision)) (\<lambda>nextRunAt.
        record_failure repo workerID j dur err (next_status decision (ClassifyError err))
          (fd_NextRetryCount decision) nextRunAt))"

definition finalize :: "'d Repository \<Rightarrow> string \<Rightarrow> Job \<Rightarrow> duration \<Rightarrow> go_error + json \<Rightarrow> ('d, unit) tx" where
  "finalize repo workerID j dur outcome =
     (case outcome of
        Inr result \<Rightarrow>
          bind_tx (try_tx (rp_CompleteExecution repo j workerID dur result)) (\<lambda>res.
          case res of
            Inr _ \<Rightarrow> return_tx ()
          | Inl successErr \<Rightarrow> fail_tx (Wrapped ''mark succeeded: '' successErr ''''))
      | Inl err \<Rightarrow> finalize_failure repo workerID j dur err)"

text \<open>The attempt of a claim; a job that was claimed without one gets it now.\<close>

definition ensure_attempt :: "'d Repository \<Rightarrow> string \<Rightarrow> Job \<Rightarrow> ('d, Job) tx" where
  "ensure_attempt repo workerID j =
     (if j_ActiveAttemptID j = uuid_Nil
      then
        bind_tx (try_tx (rp_CreateAttempt repo (j_ID j) workerID (j_RetryCount j + 1))) (\<lambda>res.
        case res of
          Inl err \<Rightarrow> fail_tx (Wrapped ''create attempt: '' err '''')
        | Inr attempt \<Rightarrow>
            return_tx (j\<lparr>j_ActiveAttemptID := a_ID attempt, j_AttemptNumber := j_RetryCount j + 1\<rparr>))
      else return_tx j)"

definition execute_locked ::
  "'d Repository \<Rightarrow> 'l LockManager \<Rightarrow> string \<Rightarrow> string \<Rightarrow> duration \<Rightarrow> ('d, 'l) execution \<Rightarrow> Job \<Rightarrow> ('d, 'l) wstate \<Rightarrow>
   (go_error + unit) \<times> ('d, 'l) wstate" where
  "execute_locked repo lm workerID lockKey leaseTTL ex j s =
     (case apply_gap (ex_before ex) s of (w, l) \<Rightarrow>
       (case ensure_attempt repo workerID j w of
          (Inl e, w1) \<Rightarrow> (Inl e, (w1, l))
        | (Inr j', w1) \<Rightarrow>
            (case renewLease repo lm workerID lockKey (j_ID j') leaseTTL (ex_ticks ex) (w1, l) of
               (cancelled, s2) \<Rightarrow>
                 (case apply_gap (ex_after ex) s2 of (w3, l3) \<Rightarrow>
                   (case finalize repo workerID j' (ex_duration ex)
                           (ex_handler ex j' (exec_timeout j') cancelled) w3 of
                      (r, w4) \<Rightarrow> (r, (w4, l3)))))))"

definition lease_ttl :: "worker \<Rightarrow> Job \<Rightarrow> duration" where
  "lease_ttl s j =
     (if sint (wk_lockTTL s) \<le> 0 then word_of_int (j_TimeoutSeconds j + 60) * Second
      else wk_lockTTL s)"

definition lock_key :: "(uuid \<Rightarrow> string) \<Rightarrow> uuid \<Rightarrow> string" where
  "lock_key ustr jobID = ''lock:job:'' @ ustr jobID"

definition ProcessJob ::
  "(uuid \<Rightarrow> string) \<Rightarrow> 'd Repository \<Rightarrow> 'l LockManager \<Rightarrow> worker \<Rightarrow> ('d, 'l) execution \<Rightarrow> Job \<Rightarrow> ('d, 'l) wstate \<Rightarrow>
   (go_error + unit) \<times> ('d, 'l) wstate" where
  "ProcessJob ustr repo lm s ex j st =
     (case st of (w, l) \<Rightarrow>
       (case lm_Acquire lm (lock_key ustr (j_ID j)) (wk_ID s) (lease_ttl s j) l of
          (Inl e, l1) \<Rightarrow> (Inl (Wrapped ''acquire redis lock: '' e ''''), (w, l1))
        | (Inr False, l1) \<Rightarrow>
            (case apply_gap (ex_before ex) (w, l1) of (w2, l2) \<Rightarrow>
              (case rp_ReleaseClaim repo (j_ID j) (wk_ID s) StatusRetryScheduled w2 of
                 (Inl e, w3) \<Rightarrow> (Inl (Wrapped ''release claim after lock miss: '' e ''''), (w3, l2))
               | (Inr _, w3) \<Rightarrow> (Inr (), (w3, l2))))
        | (Inr True, l1) \<Rightarrow>
            (case execute_locked repo lm (wk_ID s) (lock_key ustr (j_ID j)) (lease_ttl s j) ex j (w, l1) of
               (r, (w2, l2)) \<Rightarrow>
                 (case lm_Release lm (lock_key ustr (j_ID j)) (wk_ID s) l2 of (_, l3) \<Rightarrow>
                    (r, (w2, l3))))))"

section \<open>The arguments of FailExecution\<close>

lemma decision_args_ok:
  "fail_args_ok j (next_status (DecideFailure now (j_RetryCount j) (j_MaxRetries j) b) out)
     (fd_NextRetryCount (DecideFailure now (j_RetryCount j) (j_MaxRetries j) b))"
  by (simp add: fail_args_ok_def next_status_def DecideFailure_status)

lemma record_failure_run:
  "record_failure repo wk j dur err st n at w = (r, w') \<Longrightarrow>
     \<exists>r1. rp_FailExecution repo j wk dur (ClassifyError err) st n at w = (r1, w')"
  by (auto simp: record_failure_def bind_tx_def try_tx_def return_tx_def fail_tx_def
      split: prod.splits sum.splits if_splits)

lemma finalize_failure_run:
  assumes "finalize_failure repo wk j dur err w = (r, w')"
  obtains w1 t at where "w_db w1 = w_db w"
    and "record_failure repo wk j dur err
           (next_status (DecideFailure t (j_RetryCount j) (j_MaxRetries j) (j_RetryBackoffSeconds j))
              (ClassifyError err))
           (fd_NextRetryCount
              (DecideFailure t (j_RetryCount j) (j_MaxRetries j) (j_RetryBackoffSeconds j))) at w1
         = (r, w')"
proof (cases "sint (retryAfter err) > 0")
  case True
  with assms show thesis
    by (intro that [of "w\<lparr>w_ticks := Suc (Suc (w_ticks w))\<rparr>" "w_clock w (w_ticks w)"
          "time_Add (w_clock w (Suc (w_ticks w))) (retryAfter err)"])
       (simp_all add: finalize_failure_def bind_tx_def time_Now_def return_tx_def Let_def)
next
  case False
  with assms show thesis
    by (intro that [of "w\<lparr>w_ticks := Suc (w_ticks w)\<rparr>" "w_clock w (w_ticks w)"])
       (simp_all add: finalize_failure_def bind_tx_def time_Now_def return_tx_def Let_def)
qed

section \<open>The contract of a repository\<close>

text \<open>Other processes act in the gaps; they keep the invariant and only move the store forward.\<close>

definition benign :: "('d \<Rightarrow> bool) \<Rightarrow> ('d \<Rightarrow> 'd \<Rightarrow> bool) \<Rightarrow> ('d, 'l) gap \<Rightarrow> bool" where
  "benign good later g \<longleftrightarrow> (\<forall>d l. good d \<longrightarrow> good (fst (g (d, l))) \<and> later d (fst (g (d, l))))"

definition benign_execution ::
  "('d \<Rightarrow> bool) \<Rightarrow> ('d \<Rightarrow> 'd \<Rightarrow> bool) \<Rightarrow> ('d, 'l) execution \<Rightarrow> bool" where
  "benign_execution good later ex \<longleftrightarrow>
     benign good later (ex_before ex) \<and> benign good later (ex_after ex) \<and>
     (\<forall>g\<in>set (ex_ticks ex). benign good later g)"

text \<open>
  \<open>inv\<close> is the repository's invariant, \<open>claimed d j\<close> what it promises of a job it handed out, \<open>call\<close> relates
  the stores before and after one call and \<open>later\<close> any number of calls by anyone.
\<close>

locale worker_repository =
  fixes repo :: "'d Repository"
    and inv :: "'d \<Rightarrow> bool"
    and claimed :: "'d \<Rightarrow> Job \<Rightarrow> bool"
    and call :: "'d \<Rightarrow> 'd \<Rightarrow> bool"
    and later :: "'d \<Rightarrow> 'd \<Rightarrow> bool"
  assumes call_refl: "inv d \<Longrightarrow> call d d"
    and call_later: "call d d' \<Longrightarrow> inv d' \<and> later d d'"
    and later_trans: "later d d' \<Longrightarrow> later d' d'' \<Longrightarrow> later d d''"
    and claimed_later: "claimed d j \<Longrightarrow> later d d' \<Longrightarrow> claimed d' j"
    and recover_call: "inv (w_db w) \<Longrightarrow> rp_RecoverExpiredRunningJobs repo reason w = (m, w') \<Longrightarrow>
          call (w_db w) (w_db w')"
    and claim_call: "inv (w_db w) \<Longrightarrow> rp_ClaimDueJobs repo wk n ttl w = (c, w') \<Longrightarrow>
          call (w_db w) (w_db w') \<and> (\<forall>ys. c = Inr ys \<longrightarrow> (\<forall>y\<in>set ys. claimed (w_db w') y))"
    and extend_call: "inv (w_db w) \<Longrightarrow> rp_ExtendLease repo i wk ttl w = (b, w') \<Longrightarrow>
          call (w_db w) (w_db w')"
    and release_call: "inv (w_db w) \<Longrightarrow> rp_ReleaseClaim repo i wk StatusRetryScheduled w = (u, w') \<Longrightarrow>
          call (w_db w) (w_db w')"
    and attempt_call: "inv (w_db w) \<Longrightarrow> claimed (w_db w) j \<Longrightarrow>
          rp_CreateAttempt repo (j_ID j) wk n w = (a, w') \<Longrightarrow>
          call (w_db w) (w_db w') \<and>
          (\<forall>x. a = Inr x \<longrightarrow> claimed (w_db w') (j\<lparr>j_ActiveAttemptID := a_ID x, j_AttemptNumber := n\<rparr>))"
    and complete_call: "inv (w_db w) \<Longrightarrow> claimed (w_db w) j \<Longrightarrow>
          rp_CompleteExecution repo j wk dur res w = (u, w') \<Longrightarrow> call (w_db w) (w_db w')"
    and fail_call: "inv (w_db w) \<Longrightarrow> claimed (w_db w) j \<Longrightarrow> fail_args_ok j st n \<Longrightarrow>
          rp_FailExecution repo j wk dur out st n at w = (u, w') \<Longrightarrow> call (w_db w) (w_db w')"
begin

abbreviation carries :: "'d \<Rightarrow> 'd \<Rightarrow> bool" where
  "carries d d' \<equiv> inv d' \<and> later d d'"

lemma carries_refl: "inv d \<Longrightarrow> carries d d"
  using call_later call_refl by blast

lemma carries_trans: "carries d d' \<Longrightarrow> carries d' d'' \<Longrightarrow> carries d d''"
  using later_trans by blast

lemma carries_call: "call d d' \<Longrightarrow> carries d d'"
  using call_later by blast

lemma apply_gap_carries:
  "benign inv later g \<Longrightarrow> inv (w_db w) \<Longrightarrow> apply_gap g (w, l) = (w', l') \<Longrightarrow> carries (w_db w) (w_db w')"
  by (auto simp: benign_def apply_gap_def split: prod.splits dest!: spec [of _ "w_db w"] spec [of _ l])

lemma finalize_call:
  assumes "inv (w_db w)" and "claimed (w_db w) j" and "finalize repo wk j dur out w = (r, w')"
  shows "call (w_db w) (w_db w')"
proof (cases out)
  case (Inl e)
  with assms(3) have "finalize_failure repo wk j dur e w = (r, w')" by (simp add: finalize_def)
  then show ?thesis
  proof (rule finalize_failure_run)
    fix w1 t at
    let ?dec = "DecideFailure t (j_RetryCount j) (j_MaxRetries j) (j_RetryBackoffSeconds j)"
    assume w1: "w_db w1 = w_db w"
      and "record_failure repo wk j dur e (next_status ?dec (ClassifyError e))
             (fd_NextRetryCount ?dec) at w1 = (r, w')"
    then obtain r1 where "rp_FailExecution repo j wk dur (ClassifyError e)
        (next_status ?dec (ClassifyError e)) (fd_NextRetryCount ?dec) at w1 = (r1, w')"
      using record_failure_run by blast
    from fail_call [OF _ _ decision_args_ok this] assms w1 show ?thesis by simp
  qed
next
  case (Inr res)
  with assms(3) obtain r1 where "rp_CompleteExecution repo j wk dur res w = (r1, w')"
    by (auto simp: finalize_def bind_tx_def try_tx_def return_tx_def fail_tx_def
        split: prod.splits sum.splits)
  with assms show ?thesis by (auto intro: complete_call)
qed

lemma ensure_attempt_call:
  assumes "inv (w_db w)" and "claimed (w_db w) j" and "ensure_attempt repo wk j w = (r, w')"
  shows "call (w_db w) (w_db w') \<and> (\<forall>j'. r = Inr j' \<longrightarrow> claimed (w_db w') j' \<and> j_ID j' = j_ID j)"
proof (cases "j_ActiveAttemptID j = uuid_Nil")
  case False
  with assms show ?thesis by (auto simp: ensure_attempt_def return_tx_def call_refl)
next
  case True
  obtain a w1 where a: "rp_CreateAttempt repo (j_ID j) wk (j_RetryCount j + 1) w = (a, w1)"
    by fastforce
  note c = attempt_call [OF assms(1,2) a]
  show ?thesis
  proof (cases a)
    case (Inl e)
    with True assms(3) a c show ?thesis
      by (auto simp: ensure_attempt_def bind_tx_def try_tx_def fail_tx_def)
  next
    case (Inr x)
    with True assms(3) a c show ?thesis
      by (auto simp: ensure_attempt_def bind_tx_def try_tx_def return_tx_def)
  qed
qed

lemma renewLease_carries:
  assumes "\<forall>g\<in>set gs. benign inv later g" and "inv (w_db (fst s))"
    and "renewLease repo lm wk key i ttl gs s = (c, s')"
  shows "carries (w_db (fst s)) (w_db (fst s'))"
  using assms
proof (induction gs arbitrary: s)
  case Nil
  then show ?case by (simp add: carries_refl)
next
  case (Cons g gs)
  obtain w l where s: "s = (w, l)" by fastforce
  obtain w1 l1 where g: "apply_gap g (w, l) = (w1, l1)" by fastforce
  obtain r w2 where e: "rp_ExtendLease repo i wk ttl w1 = (r, w2)" by fastforce
  have c1: "carries (w_db w) (w_db w1)"
    using Cons.prems s g by (intro apply_gap_carries [of g]) auto
  then have c2: "carries (w_db w1) (w_db w2)"
    using e by (intro carries_call extend_call) auto
  have c: "carries (w_db w) (w_db w2)" by (rule carries_trans [OF c1 c2])
  then have inv2: "inv (w_db w2)" by simp
  have rest: "carries (w_db w) (w_db (fst s'))"
    if "renewLease repo lm wk key i ttl gs (w2, l2) = (c, s')" for l2
    using Cons.IH [of "(w2, l2)"] Cons.prems(1) that inv2 carries_trans [OF c] by simp
  show ?case
    using Cons.prems(3) s g e c rest
    by (auto split: sum.splits bool.splits option.splits prod.splits)
qed

lemma execute_locked_carries:
  assumes "benign_execution inv later ex" and "inv (w_db w)" and "claimed (w_db w) j"
    and "execute_locked repo lm wk key ttl ex j (w, l) = (r, (w', l'))"
  shows "carries (w_db w) (w_db w')"
proof -
  obtain w1 l1 where g: "apply_gap (ex_before ex) (w, l) = (w1, l1)" by fastforce
  obtain r1 w2 where a: "ensure_attempt repo wk j w1 = (r1, w2)" by fastforce
  have c1: "carries (w_db w) (w_db w1)"
    using assms g by (intro apply_gap_carries [of "ex_before ex"]) (auto simp: benign_execution_def)
  then have j1: "inv (w_db w1)" "claimed (w_db w1) j"
    using claimed_later [OF assms(3)] by auto
  note A = ensure_attempt_call [OF j1 a]
  then have c2: "carries (w_db w) (w_db w2)" using carries_trans [OF c1] carries_call by blast
  show ?thesis
  proof (cases r1)
    case (Inl e)
    with assms(4) g a c2 show ?thesis by (simp add: execute_locked_def)
  next
    case (Inr j')
    have j2: "inv (w_db w2)" "claimed (w_db w2) j'" using A Inr c2 by auto
    obtain c w3 l3 where n: "renewLease repo lm wk key (j_ID j') ttl (ex_ticks ex) (w2, l1) = (c, (w3, l3))"
      by (metis prod.exhaust)
    have c3: "carries (w_db w2) (w_db w3)"
      using renewLease_carries [of "ex_ticks ex" "(w2, l1)", OF _ _ n] assms(1) j2
      by (simp add: benign_execution_def)
    obtain w4 l4 where g2: "apply_gap (ex_after ex) (w3, l3) = (w4, l4)" by fastforce
    have c4: "carries (w_db w3) (w_db w4)"
      using assms g2 c3
      by (intro apply_gap_carries [of "ex_after ex"]) (auto simp: benign_execution_def)
    have c34: "carries (w_db w2) (w_db w4)" by (rule carries_trans [OF c3 c4])
    then have "inv (w_db w4)" "claimed (w_db w4) j'"
      using claimed_later [OF j2(2)] by auto
    moreover from assms(4) g a Inr n g2
    have "finalize repo wk j' (ex_duration ex) (ex_handler ex j' (exec_timeout j') c) w4 = (r, w')"
      by (simp add: execute_locked_def split: prod.splits)
    ultimately have "carries (w_db w4) (w_db w')" by (intro carries_call) (rule finalize_call)
    then show ?thesis
      using carries_trans [OF c2 carries_trans [OF c34]] by blast
  qed
qed

lemma ProcessJob_carries:
  assumes "benign_execution inv later ex" and "inv (w_db w)" and "claimed (w_db w) j"
    and "ProcessJob ustr repo lm s ex j (w, l) = (r, (w', l'))"
  shows "carries (w_db w) (w_db w')"
proof -
  obtain q l1 where q: "lm_Acquire lm (lock_key ustr (j_ID j)) (wk_ID s) (lease_ttl s j) l = (q, l1)"
    by fastforce
  consider (err) e where "q = Inl e" | (miss) "q = Inr False" | (hit) "q = Inr True"
    by (cases q) auto
  then show ?thesis
  proof cases
    case err
    with q assms show ?thesis using carries_refl by (simp add: ProcessJob_def)
  next
    case miss
    obtain w2 l2 where g: "apply_gap (ex_before ex) (w, l1) = (w2, l2)" by fastforce
    obtain x w3 where R: "rp_ReleaseClaim repo (j_ID j) (wk_ID s) StatusRetryScheduled w2 = (x, w3)"
      by fastforce
    have c1: "carries (w_db w) (w_db w2)"
      using assms g by (intro apply_gap_carries [of "ex_before ex"]) (auto simp: benign_execution_def)
    then have "carries (w_db w2) (w_db w3)"
      using carries_call [OF release_call [OF _ R]] by simp
    with c1 have "carries (w_db w) (w_db w3)" by (rule carries_trans)
    moreover have "w' = w3"
      using assms(4) q miss g R by (auto simp: ProcessJob_def split: sum.splits)
    ultimately show ?thesis by simp
  next
    case hit
    obtain r2 w2 l2 where E: "execute_locked repo lm (wk_ID s) (lock_key ustr (j_ID j)) (lease_ttl s j) ex j
        (w, l1) = (r2, (w2, l2))"
      by (metis prod.exhaust)
    with assms(4) q hit have "w' = w2"
      by (auto simp: ProcessJob_def split: prod.splits)
    with execute_locked_carries [OF assms(1-3) E] show ?thesis by simp
  qed
qed

lemma poll_tick_carries:
  assumes "inv (w_db w)" and "poll_tick repo s w = (r, w')"
  shows "carries (w_db w) (w_db w') \<and> (\<exists>ys. r = Inr ys \<and> (\<forall>y\<in>set ys. claimed (w_db w') y))"
proof -
  obtain m w1 where m: "rp_RecoverExpiredRunningJobs repo ''worker lease expired before completion'' w
      = (m, w1)" by fastforce
  obtain c w2 where c: "rp_ClaimDueJobs repo (wk_ID s) (wk_batchSize s) (wk_lockTTL s) w1 = (c, w2)"
    by fastforce
  have c1: "carries (w_db w) (w_db w1)" by (rule carries_call [OF recover_call [OF assms(1) m]])
  then have C: "call (w_db w1) (w_db w2) \<and> (\<forall>ys. c = Inr ys \<longrightarrow> (\<forall>y\<in>set ys. claimed (w_db w2) y))"
    using claim_call [OF _ c] by simp
  have "w' = w2" and "r = Inr (case c of Inl _ \<Rightarrow> [] | Inr ys \<Rightarrow> ys)"
    using assms(2) m c by (auto simp: poll_tick_def bind_tx_def try_tx_def return_tx_def)
  then show ?thesis
    using C carries_trans [OF c1 carries_call] by (auto split: sum.splits)
qed

end

section \<open>The PostgreSQL repository meets the contract\<close>

lemma atomic_CreateAttempt: "atomic_tx (CreateAttempt i wk n)"
  unfolding CreateAttempt_def by (intro atomic_uuid_New atomic_pool_stmt)

lemma CreateAttempt_claim:
  assumes "db_ok (w_db w)" and "claim_ok (w_db w) j" and "CreateAttempt (j_ID j) wk n w = (Inr x, w')"
  shows "claim_ok (w_db w') (j\<lparr>j_ActiveAttemptID := a_ID x, j_AttemptNumber := n\<rparr>)"
proof -
  note S = CreateAttempt_sound [OF assms(1,3)]
  have "claim_ok (w_db w') j"
    using claim_ok_extends [OF assms(2)] S(1) by (simp add: sound_call_def)
  with S(2) show ?thesis by (simp add: claim_ok_def job_const_def)
qed

lemma RecoverExpiredRunningJobs_any:
  "db_ok (w_db w) \<Longrightarrow> RecoverExpiredRunningJobs reason w = (r, w') \<Longrightarrow> sound_call (w_db w) (w_db w')"
  by (rule sound_or_same [OF atomic_RecoverExpiredRunningJobs])
     (auto intro: RecoverExpiredRunningJobs_effect(5))

lemma ClaimDueJobs_any:
  assumes "db_ok (w_db w)" and "ClaimDueJobs wk n ttl w = (c, w')"
  shows "sound_call (w_db w) (w_db w')" and "c = Inr ys \<Longrightarrow> \<forall>y\<in>set ys. claim_ok (w_db w') y"
proof -
  show "sound_call (w_db w) (w_db w')"
    by (rule sound_or_same [OF atomic_ClaimDueJobs assms]) (rule ClaimDueJobs_batch [OF assms(1)])
  show "\<forall>y\<in>set ys. claim_ok (w_db w') y" if "c = Inr ys"
    using ClaimDueJobs_batch [OF assms(1) assms(2) [unfolded that]] by blast
qed

lemma ExtendLease_any:
  "db_ok (w_db w) \<Longrightarrow> ExtendLease i wk ttl w = (r, w') \<Longrightarrow> sound_call (w_db w) (w_db w')"
  by (rule sound_or_same [OF atomic_ExtendLease]) (auto intro: ExtendLease_sound)

lemma ReleaseClaim_any:
  "db_ok (w_db w) \<Longrightarrow> ReleaseClaim i wk StatusRetryScheduled w = (r, w') \<Longrightarrow>
   sound_call (w_db w) (w_db w')"
  by (rule sound_or_same [OF atomic_ReleaseClaim]) (auto intro: ReleaseClaim_sound)

lemma CreateAttempt_any:
  "db_ok (w_db w) \<Longrightarrow> CreateAttempt i wk n w = (r, w') \<Longrightarrow> sound_call (w_db w) (w_db w')"
  by (rule sound_or_same [OF atomic_CreateAttempt]) (auto intro: CreateAttempt_sound)

lemma CompleteExecution_any:
  "db_ok (w_db w) \<Longrightarrow> claim_ok (w_db w) j \<Longrightarrow> CompleteExecution j wk dur res w = (r, w') \<Longrightarrow>
   sound_call (w_db w) (w_db w')"
  by (rule sound_or_same [OF atomic_CompleteExecution]) (auto intro: CompleteExecution_sound)

lemma FailExecution_any:
  "db_ok (w_db w) \<Longrightarrow> claim_ok (w_db w) j \<Longrightarrow> fail_args_ok j st n \<Longrightarrow>
   FailExecution j wk dur out st n at w = (r, w') \<Longrightarrow> sound_call (w_db w) (w_db w')"
  by (rule sound_or_same [OF atomic_FailExecution]) (auto intro: FailExecution_sound)

lemma PostgresRepository_sel [simp]:
  "rp_ClaimDueJobs PostgresRepository = ClaimDueJobs"
  "rp_CreateAttempt PostgresRepository = CreateAttempt"
  "rp_ReleaseClaim PostgresRepository = ReleaseClaim"
  "rp_RecoverExpiredRunningJobs PostgresRepository = RecoverExpiredRunningJobs"
  "rp_CompleteExecution PostgresRepository = CompleteExecution"
  "rp_FailExecution PostgresRepository = FailExecution"
  "rp_ExtendLease PostgresRepository = ExtendLease"
  by (simp_all add: PostgresRepository_def)

interpretation pg: worker_repository PostgresRepository db_ok claim_ok sound_call extends
proof (unfold_locales, goal_cases)
  case (1 d)
  then show ?case by (rule sound_call_refl)
next
  case (2 d d')
  then show ?case by (simp add: sound_call_def)
next
  case (3 d d' d'')
  then show ?case by (rule extends_trans)
next
  case (4 d j d')
  then show ?case by (rule claim_ok_extends)
next
  case (5 w reason m w')
  then show ?case by (simp add: RecoverExpiredRunningJobs_any)
next
  case (6 w wk n ttl c w')
  then show ?case using ClaimDueJobs_any [of w wk n ttl c w'] by simp
next
  case (7 w i wk ttl b w')
  then show ?case by (simp add: ExtendLease_any)
next
  case (8 w i wk u w')
  then show ?case by (simp add: ReleaseClaim_any)
next
  case (9 w j wk n a w')
  then show ?case by (auto intro: CreateAttempt_any CreateAttempt_claim)
next
  case (10 w j wk dur res u w')
  then show ?case by (simp add: CompleteExecution_any)
next
  case (11 w j st n wk dur out at u w')
  then show ?case by (simp add: FailExecution_any)
qed

end
