(* ===== verification/Outbox.thy ===== *)
theory Outbox
  imports Repo_Invariant
begin

text \<open>
  internal/outbox/outbox.go with the envelope of internal/events/events.go: the store that leases
  unpublished events, and one batch of the relay.  The order in which \<open>UPDATE ... RETURNING\<close> gives back
  the rows it changed is not specified by PostgreSQL; it is the argument \<open>arrange\<close>.  The event
  transport (Kafka) is a record with the outcomes of the publications to come and the events
  accepted so far.
\<close>

section \<open>The envelope\<close>

record outbox_Event =
  ev_EventID :: uuid
  ev_SchemaVersion :: int
  ev_TenantID :: uuid
  ev_EventType :: string
  ev_Source :: string
  ev_EntityType :: string
  ev_EntityID :: uuid
  ev_OccurredAt :: time
  ev_CorrelationID :: string
  ev_CausationID :: "uuid option"
  ev_Payload :: event_payload
  ev_PublishAttempts :: int

definition to_event :: "events_row \<Rightarrow> outbox_Event" where
  "to_event e =
     \<lparr>ev_EventID = e_ID e, ev_SchemaVersion = e_SchemaVersion e, ev_TenantID = e_TenantID e,
      ev_EventType = e_EventType e, ev_Source = e_Source e, ev_EntityType = ''job'',
      ev_EntityID = e_JobID e, ev_OccurredAt = e_CreatedAt e,
      ev_CorrelationID = (case e_CorrelationID e of None \<Rightarrow> '''' | Some c \<Rightarrow> c),
      ev_CausationID = e_CausationID e, ev_Payload = e_Payload e,
      ev_PublishAttempts = e_PublishAttempts e\<rparr>"

section \<open>The store\<close>

definition update_events ::
  "(events_row \<Rightarrow> bool) \<Rightarrow> (time \<Rightarrow> events_row \<Rightarrow> events_row) \<Rightarrow> (db, nat) tx" where
  "update_events P f = pool_stmt (\<lambda>w d.
     Inr (rows_affected P (job_events d),
          d\<lparr>job_events := upd_where P (f (w_now w)) (job_events d)\<rparr>))"

definition publishable :: "time \<Rightarrow> events_row \<Rightarrow> bool" where
  "publishable now e \<longleftrightarrow>
     e_PublishedAt e = None \<and> e_NextPublishAt e \<le> now \<and>
     (case e_ClaimedUntil e of None \<Rightarrow> True | Some t \<Rightarrow> t < now)"

definition pending_events :: "time \<Rightarrow> (uuid \<Rightarrow> bool) \<Rightarrow> int \<Rightarrow> events_row list \<Rightarrow> events_row list" where
  "pending_events now locked batch es =
     take (nat batch)
       (sort_key (\<lambda>e. (e_CreatedAt e, e_ID e))
          (filter (\<lambda>e. publishable now e \<and> \<not> locked (e_ID e)) es))"

definition claim_event_row :: "string \<Rightarrow> duration \<Rightarrow> time \<Rightarrow> events_row \<Rightarrow> events_row" where
  "claim_event_row relayID lease now e =
     e\<lparr>e_ClaimedBy := Some relayID,
       e_ClaimedUntil := Some (now + interval_seconds (duration_Seconds lease))\<rparr>"

definition Claim ::
  "(events_row list \<Rightarrow> events_row list) \<Rightarrow> string \<Rightarrow> int \<Rightarrow> duration \<Rightarrow> (db, outbox_Event list) tx" where
  "Claim arrange relayID batch0 lease =
     (let batch = (if batch0 < 1 then 50 else batch0) in
      pool_stmt (\<lambda>w d.
        let ids = map e_ID (pending_events (w_now w) (skip_locked w) batch (job_events d));
            es = upd_where (\<lambda>e. e_ID e \<in> set ids) (claim_event_row relayID lease (w_now w))
                   (job_events d)
        in Inr (map to_event (arrange (filter (\<lambda>e. e_ID e \<in> set ids) es)), d\<lparr>job_events := es\<rparr>)))"

definition MarkPublished :: "uuid \<Rightarrow> string \<Rightarrow> (db, unit) tx" where
  "MarkPublished eventID relayID =
     bind_tx (update_events (\<lambda>e. e_ID e = eventID \<and> e_ClaimedBy e = Some relayID)
       (\<lambda>now e. e\<lparr>e_PublishedAt := Some now, e_PublishAttempts := e_PublishAttempts e + 1,
                  e_LastPublishError := None, e_ClaimedBy := None, e_ClaimedUntil := None\<rparr>)) (\<lambda>n.
     if n = 0 then fail_tx (ErrorString ''outbox lease lost'') else return_tx ())"

text \<open>\<open>int(math.Min(300, math.Pow(2, float64(attempts))))\<close>: below one second for a negative count.\<close>

definition publish_backoff :: "int \<Rightarrow> int" where
  "publish_backoff attempts = (if attempts < 0 then 0 else min 300 (2 ^ nat attempts))"

definition MarkFailed :: "uuid \<Rightarrow> string \<Rightarrow> int \<Rightarrow> string \<Rightarrow> (db, unit) tx" where
  "MarkFailed eventID relayID attempts message =
     bind_tx (update_events (\<lambda>e. e_ID e = eventID \<and> e_ClaimedBy e = Some relayID)
       (\<lambda>now e. e\<lparr>e_PublishAttempts := e_PublishAttempts e + 1, e_LastPublishError := Some message,
                  e_NextPublishAt := now + interval_seconds (publish_backoff attempts),
                  e_ClaimedBy := None, e_ClaimedUntil := None\<rparr>)) (\<lambda>_.
     return_tx ())"

definition Replay :: "uuid \<Rightarrow> uuid \<Rightarrow> (db, unit) tx" where
  "Replay tenantID eventID =
     bind_tx (update_events (\<lambda>e. e_TenantID e = tenantID \<and> e_ID e = eventID)
       (\<lambda>now e. e\<lparr>e_PublishedAt := None, e_NextPublishAt := now, e_LastPublishError := None,
                  e_ClaimedBy := None, e_ClaimedUntil := None\<rparr>)) (\<lambda>n.
     if n = 0 then fail_tx PgxErrNoRows else return_tx ())"

definition Backlog :: "uuid option \<Rightarrow> (db, nat) tx" where
  "Backlog tenantID = pool_query (\<lambda>w d.
     case tenantID of
       None \<Rightarrow> length (filter (\<lambda>e. e_PublishedAt e = None) (job_events d))
     | Some t \<Rightarrow> length (filter (\<lambda>e. e_TenantID e = t \<and> e_PublishedAt e = None) (job_events d)))"

section \<open>The relay\<close>

definition truncate_string :: "string \<Rightarrow> nat \<Rightarrow> string" where
  "truncate_string value limit = (if length value > limit then take limit value else value)"

record transport =
  tr_outcomes :: "go_error option list"
  tr_accepted :: "outbox_Event list"

definition Publish :: "outbox_Event \<Rightarrow> transport \<Rightarrow> go_error option \<times> transport" where
  "Publish ev p =
     (case tr_outcomes p of
        Some e # os \<Rightarrow> (Some e, p\<lparr>tr_outcomes := os\<rparr>)
      | os \<Rightarrow> (None, p\<lparr>tr_outcomes := tl os, tr_accepted := tr_accepted p @ [ev]\<rparr>))"

fun publish_loop ::
  "string \<Rightarrow> outbox_Event list \<Rightarrow> pg_world \<times> transport \<Rightarrow> (go_error + unit) \<times> (pg_world \<times> transport)"
where
  "publish_loop relayID [] s = (Inr (), s)"
| "publish_loop relayID (ev # evs) (w, p) =
     (case Publish ev p of
        (Some err, p') \<Rightarrow>
          publish_loop relayID evs
            (snd (MarkFailed (ev_EventID ev) relayID (ev_PublishAttempts ev)
                    (truncate_string (error_Error err) 1000) w), p')
      | (None, p') \<Rightarrow>
          (case MarkPublished (ev_EventID ev) relayID w of
             (Inl e, w') \<Rightarrow> (Inl (Wrapped ''mark event published: '' e ''''), (w', p'))
           | (Inr _, w') \<Rightarrow> publish_loop relayID evs (w', p')))"

definition publishBatch ::
  "(events_row list \<Rightarrow> events_row list) \<Rightarrow> string \<Rightarrow> int \<Rightarrow> duration \<Rightarrow> pg_world \<times> transport \<Rightarrow>
   (go_error + unit) \<times> (pg_world \<times> transport)" where
  "publishBatch arrange relayID batch lease s =
     (case s of (w, p) \<Rightarrow>
       (case Claim arrange relayID batch lease w of
          (Inl e, w') \<Rightarrow> (Inl e, (w', p))
        | (Inr items, w') \<Rightarrow> publish_loop relayID items (w', p)))"

text \<open>\<open>NewRelay\<close> fixes the lease at 30 seconds.\<close>

definition relay_lease :: duration where
  "relay_lease = 30 * Second"

section \<open>The store only touches publication columns\<close>

text \<open>Two databases that differ in publication columns only.\<close>

definition same_but_published :: "db \<Rightarrow> db \<Rightarrow> bool" where
  "same_but_published d d' \<longleftrightarrow>
     (\<exists>es. d' = d\<lparr>job_events := es\<rparr> \<and> map event_const es = map event_const (job_events d))"

lemma same_but_publishedI:
  "d' = d\<lparr>job_events := es\<rparr> \<Longrightarrow> map event_const es = map event_const (job_events d) \<Longrightarrow>
   same_but_published d d'"
  by (auto simp: same_but_published_def)

lemma same_but_published_refl: "same_but_published d d"
  by (auto simp: same_but_published_def intro!: exI [of _ "job_events d"])

lemma same_but_published_trans:
  "same_but_published d d' \<Longrightarrow> same_but_published d' d'' \<Longrightarrow> same_but_published d d''"
  by (auto simp: same_but_published_def)

lemma update_events_ok:
  "update_events P f w = (Inr n, w') \<longleftrightarrow>
     healthy w \<and> n = rows_affected P (job_events (w_db w)) \<and>
     w' = w\<lparr>w_txs := Suc (w_txs w), w_faults := tl (w_faults w),
            w_db := (w_db w)\<lparr>job_events :=
              upd_where P (f (w_dbclock w (Suc (w_txs w)))) (job_events (w_db w))\<rparr>\<rparr>"
  by (auto simp: update_events_def pool_stmt_def tx_simps w_now_def)

lemma update_events_same:
  assumes "update_events P f w = (r, w')" and "\<And>t e. event_const (f t e) = event_const e"
  shows "same_but_published (w_db w) (w_db w')"
proof (cases r)
  case (Inl err)
  then have "w_db w' = w_db w"
    using assms(1) atomic_txD [OF atomic_pool_stmt, of _ w err w'] by (simp add: update_events_def)
  then show ?thesis by (simp add: same_but_published_refl)
next
  case (Inr n)
  with assms show ?thesis
    by (auto simp: update_events_ok same_but_published_def map_upd_where)
qed

lemma bind_update_events:
  assumes "bind_tx (update_events P f) k w = (r, w')" and "\<And>n w. snd (k n w) = w"
    and "\<And>t e. event_const (f t e) = event_const e"
  shows "same_but_published (w_db w) (w_db w')"
proof -
  obtain r1 w1 where u: "update_events P f w = (r1, w1)" by fastforce
  have "w1 = w'"
    using assms(1) u assms(2) [of "projr r1" w1] by (cases r1) (auto simp: bind_tx_def)
  with update_events_same [OF u assms(3)] show ?thesis by simp
qed

lemma MarkPublished_same:
  "MarkPublished i relay w = (r, w') \<Longrightarrow> same_but_published (w_db w) (w_db w')"
  unfolding MarkPublished_def
  by (erule bind_update_events) (simp_all add: fail_tx_def return_tx_def event_const_def)

lemma MarkFailed_same:
  "MarkFailed i relay n m w = (r, w') \<Longrightarrow> same_but_published (w_db w) (w_db w')"
  unfolding MarkFailed_def
  by (erule bind_update_events) (simp_all add: fail_tx_def return_tx_def event_const_def)

lemma Replay_same:
  "Replay t i w = (r, w') \<Longrightarrow> same_but_published (w_db w) (w_db w')"
  unfolding Replay_def
  by (erule bind_update_events) (simp_all add: fail_tx_def return_tx_def event_const_def)

lemma Claim_okE:
  assumes "Claim arrange relay batch lease w = (Inr items, w')"
  obtains now ids where
    "w_db w' = (w_db w)\<lparr>job_events := upd_where (\<lambda>e. e_ID e \<in> set ids)
        (claim_event_row relay lease now) (job_events (w_db w))\<rparr>"
    and "items = map to_event (arrange (filter (\<lambda>e. e_ID e \<in> set ids) (job_events (w_db w'))))"
    and "ids = map e_ID (pending_events now (w_locked w (Suc (w_txs w)))
               (if batch < 1 then 50 else batch) (job_events (w_db w)))"
    and "now = w_dbclock w (Suc (w_txs w))"
  using assms
  by (auto simp: Claim_def Let_def pool_stmt_def tx_simps w_now_def skip_locked_def intro!: that)

lemma Claim_same:
  assumes "Claim arrange relay batch lease w = (r, w')"
  shows "same_but_published (w_db w) (w_db w')"
proof (cases r)
  case (Inl e)
  with assms have "w_db w' = w_db w"
    using atomic_txD [OF atomic_pool_stmt] unfolding Claim_def Let_def by blast
  then show ?thesis by (simp add: same_but_published_refl)
next
  case (Inr items)
  with assms have "Claim arrange relay batch lease w = (Inr items, w')" by simp
  then show ?thesis
  proof (cases rule: Claim_okE)
    case (1 now ids)
    show ?thesis
      by (rule same_but_publishedI [OF 1(1)])
         (simp add: map_upd_where event_const_def claim_event_row_def)
  qed
qed

lemma publish_loop_same:
  "publish_loop relay evs s = (r, s') \<Longrightarrow> same_but_published (w_db (fst s)) (w_db (fst s'))"
proof (induction relay evs s arbitrary: r s' rule: publish_loop.induct)
  case (1 relay s)
  then show ?case by (simp add: same_but_published_refl)
next
  case (2 relay ev evs w p)
  obtain o1 p1 where P: "Publish ev p = (o1, p1)" by fastforce
  show ?case
  proof (cases o1)
    case (Some err)
    let ?m = "MarkFailed (ev_EventID ev) relay (ev_PublishAttempts ev)
                (truncate_string (error_Error err) 1000) w"
    have "same_but_published (w_db w) (w_db (snd ?m))"
      by (rule MarkFailed_same [of _ _ _ _ _ "fst ?m"]) simp
    with 2 P Some show ?thesis by (auto intro: same_but_published_trans)
  next
    case None
    obtain q w1 where M: "MarkPublished (ev_EventID ev) relay w = (q, w1)" by fastforce
    note m = MarkPublished_same [OF M]
    show ?thesis
    proof (cases q)
      case (Inl e)
      with 2(3) P None M m show ?thesis by auto
    next
      case (Inr u)
      with 2 P None M m show ?thesis by (auto intro: same_but_published_trans)
    qed
  qed
qed

lemma publishBatch_same:
  assumes "publishBatch arrange relay batch lease (w, p) = (r, s')"
  shows "same_but_published (w_db w) (w_db (fst s'))"
proof -
  obtain q w1 where C: "Claim arrange relay batch lease w = (q, w1)" by fastforce
  note c = Claim_same [OF C]
  show ?thesis
  proof (cases q)
    case (Inl e)
    with assms C c show ?thesis by (auto simp: publishBatch_def)
  next
    case (Inr items)
    with assms C publish_loop_same [of relay items "(w1, p)" r s'] c show ?thesis
      by (auto simp: publishBatch_def intro: same_but_published_trans)
  qed
qed

lemma same_but_published_sound:
  assumes "db_ok d" and "same_but_published d d'"
  shows "sound_call d d'"
proof -
  from assms(2) obtain es where d': "d' = d\<lparr>job_events := es\<rparr>"
    and es: "map event_const es = map event_const (job_events d)"
    by (auto simp: same_but_published_def)
  have "map (\<lambda>e. (e_JobID e, e_TenantID e)) es = map (\<lambda>c. snd (fst c)) (map event_const es)"
    and "map e_ID es = map (\<lambda>c. fst (fst c)) (map event_const es)"
    and "map (\<lambda>e. (e_JobID e, e_TenantID e)) (job_events d)
       = map (\<lambda>c. snd (fst c)) (map event_const (job_events d))"
    and "map e_ID (job_events d) = map (\<lambda>c. fst (fst c)) (map event_const (job_events d))"
    by (simp_all add: event_const_def comp_def)
  then have "map (\<lambda>e. (e_JobID e, e_TenantID e)) es = map (\<lambda>e. (e_JobID e, e_TenantID e)) (job_events d)"
    and "map e_ID es = map e_ID (job_events d)"
    unfolding es by metis+
  moreover have "has_attempt d' = has_attempt d" by (intro ext) (simp add: d' has_attempt_def)
  ultimately have "db_ok d'"
    using assms(1)
    by (simp add: db_ok_def keys_ok_def rows_ok_def refs_ok_def dlq_ok_def running_ok_def d'
        split: option.splits)
  moreover have "extends d d'" by (simp add: extends_def attempt_keys_def d')
  moreover have "moves d d'" by (rule moves_append [of _ _ "[]"]) (simp add: d')
  moreover have "log_grows d d'" "settled d d'" using es by (simp_all add: d' log_grows_def settled_def)
  ultimately show ?thesis by (simp add: sound_call_def)
qed

end
