(* ===== verification/System.thy ===== *)
theory System
  imports Job_Service Worker_Service Outbox
begin

text \<open>
  The whole scheduler as a transition system: any number of API processes, workers, relays and
  administrators act on one database, one committed transaction (or one failed call) at a time.
  Besides the database a state has the claims ever handed to workers; a claim is never taken back,
  so that a worker may try to finish a job long after it lost its lease.  Every rule runs the
  operation of the code in an arbitrary world over the current database: arbitrary clocks, fresh
  identifiers, row locks of other transactions and failing round trips.
\<close>

section \<open>States and steps\<close>

record system =
  sy_db :: db
  sy_claims :: "(string \<times> Job) set"

datatype action =
    DoCreate | DoOperator | DoRequeue | DoRecover | DoClaim | DoExtend | DoAttempt | DoRelease
  | DoFinalize | DoRelay | DoReplay | DoAuth

text \<open>The four operator transitions of the service, as passed to \<open>TransitionJob\<close>.\<close>

definition service_moves :: "(Status list \<times> Status) list" where
  "service_moves =
     [([StatusPending, StatusScheduled, StatusRetryScheduled, StatusRunning], StatusCancelled),
      ([StatusPending, StatusScheduled], StatusPaused),
      ([StatusPaused], StatusScheduled),
      ([StatusFailed], StatusRetryScheduled)]"

inductive sys_step :: "action \<Rightarrow> system \<Rightarrow> system \<Rightarrow> bool" where
  create: "\<lbrakk>w_db w = sy_db s; Service_Create valid digest cfg ctx req w = (r, w')\<rbrakk> \<Longrightarrow>
     sys_step DoCreate s (s\<lparr>sy_db := w_db w'\<rparr>)"
| operator: "\<lbrakk>w_db w = sy_db s; (from, to) \<in> set service_moves;
     TransitionJob t i from to w = (r1, w')\<rbrakk> \<Longrightarrow> sys_step DoOperator s (s\<lparr>sy_db := w_db w'\<rparr>)"
| requeue: "\<lbrakk>w_db w = sy_db s; Service_RequeueDeadLetter ctx i w = (r2, w')\<rbrakk> \<Longrightarrow>
     sys_step DoRequeue s (s\<lparr>sy_db := w_db w'\<rparr>)"
| recover: "\<lbrakk>w_db w = sy_db s; RecoverExpiredRunningJobs reason w = (r3, w')\<rbrakk> \<Longrightarrow>
     sys_step DoRecover s (s\<lparr>sy_db := w_db w'\<rparr>)"
| claim: "\<lbrakk>w_db w = sy_db s; ClaimDueJobs wk n ttl w = (r4, w')\<rbrakk> \<Longrightarrow>
     sys_step DoClaim s (s\<lparr>sy_db := w_db w',
       sy_claims := sy_claims s \<union> (case r4 of Inl _ \<Rightarrow> {} | Inr ys \<Rightarrow> {wk} \<times> set ys)\<rparr>)"
| extend: "\<lbrakk>w_db w = sy_db s; ExtendLease i wk ttl w = (r5, w')\<rbrakk> \<Longrightarrow>
     sys_step DoExtend s (s\<lparr>sy_db := w_db w'\<rparr>)"
| attempt: "\<lbrakk>w_db w = sy_db s; (wk, j) \<in> sy_claims s; ensure_attempt PostgresRepository wk j w = (r6, w')\<rbrakk> \<Longrightarrow>
     sys_step DoAttempt s (s\<lparr>sy_db := w_db w',
       sy_claims := sy_claims s \<union> (case r6 of Inl _ \<Rightarrow> {} | Inr j' \<Rightarrow> {(wk, j')})\<rparr>)"
| release: "\<lbrakk>w_db w = sy_db s; (wk, j) \<in> sy_claims s;
     ReleaseClaim (j_ID j) wk StatusRetryScheduled w = (r7, w')\<rbrakk> \<Longrightarrow>
     sys_step DoRelease s (s\<lparr>sy_db := w_db w'\<rparr>)"
| finalize: "\<lbrakk>w_db w = sy_db s; (wk, j) \<in> sy_claims s; finalize PostgresRepository wk j dur out w = (r8, w')\<rbrakk> \<Longrightarrow>
     sys_step DoFinalize s (s\<lparr>sy_db := w_db w'\<rparr>)"
| relay: "\<lbrakk>w_db w = sy_db s; publishBatch arrange relay batch lease (w, p) = (r9, (w', p'))\<rbrakk> \<Longrightarrow>
     sys_step DoRelay s (s\<lparr>sy_db := w_db w'\<rparr>)"
| replay: "\<lbrakk>w_db w = sy_db s; Replay t i w = (r10, w')\<rbrakk> \<Longrightarrow>
     sys_step DoReplay s (s\<lparr>sy_db := w_db w'\<rparr>)"
| auth: "\<lbrakk>w_db w = sy_db s;
     Authenticate sha key w = (r11, w') \<or> CreateClient sha gen t name role supplied w = (r12, w') \<or>
     RevokeClient c w = (r13, w')\<rbrakk> \<Longrightarrow> sys_step DoAuth s (s\<lparr>sy_db := w_db w'\<rparr>)"

inductive_cases sys_stepE: "sys_step a s s'"

definition any_step :: "system \<Rightarrow> system \<Rightarrow> bool" where
  "any_step s s' \<longleftrightarrow> (\<exists>a. sys_step a s s')"

text \<open>The database after the migrations, for a given list of tenants and API clients.\<close>

definition empty_db :: "tenants_row list \<Rightarrow> api_clients_row list \<Rightarrow> db" where
  "empty_db ts cs =
     \<lparr>jobs = [], job_attempts = [], dead_letter_jobs = [], job_events = [], tenants = ts,
      api_clients = cs\<rparr>"

definition initial :: "system \<Rightarrow> bool" where
  "initial s \<longleftrightarrow> (\<exists>ts cs. s = \<lparr>sy_db = empty_db ts cs, sy_claims = {}\<rparr>)"

definition reachable :: "system \<Rightarrow> bool" where
  "reachable s \<longleftrightarrow> (\<exists>s0. initial s0 \<and> any_step\<^sup>*\<^sup>* s0 s)"

section \<open>The authentication store leaves the jobs alone\<close>

definition same_but_clients :: "db \<Rightarrow> db \<Rightarrow> bool" where
  "same_but_clients d d' \<longleftrightarrow> (\<exists>cs. d' = d\<lparr>api_clients := cs\<rparr>)"

lemma same_but_clients_refl: "same_but_clients d d"
  by (auto simp: same_but_clients_def intro!: exI [of _ "api_clients d"])

lemma same_but_clients_sound:
  assumes "db_ok d" and "same_but_clients d d'"
  shows "sound_call d d'"
proof -
  from assms(2) obtain cs where d': "d' = d\<lparr>api_clients := cs\<rparr>" by (auto simp: same_but_clients_def)
  have "has_attempt d' = has_attempt d" by (intro ext) (simp add: d' has_attempt_def)
  then have "db_ok d'"
    using assms(1)
    by (simp add: db_ok_def keys_ok_def rows_ok_def refs_ok_def dlq_ok_def running_ok_def d'
        split: option.splits)
  moreover have "moves d d'" by (rule moves_append [of _ _ "[]"]) (simp add: d')
  ultimately show ?thesis
    by (simp add: sound_call_def log_grows_def settled_def extends_def attempt_keys_def d')
qed

definition clients_only :: "(db, 'a) tx \<Rightarrow> bool" where
  "clients_only m \<longleftrightarrow> (\<forall>w r w'. m w = (r, w') \<longrightarrow> same_but_clients (w_db w) (w_db w'))"

lemma clients_only_bind:
  assumes "clients_only m" and "\<And>x. clients_only (k x)"
  shows "clients_only (bind_tx m k)"
  unfolding clients_only_def
proof (intro allI impI)
  fix w r w'
  assume b: "bind_tx m k w = (r, w')"
  obtain q w1 where q: "m w = (q, w1)" by fastforce
  with assms(1) have 1: "same_but_clients (w_db w) (w_db w1)" by (auto simp: clients_only_def)
  show "same_but_clients (w_db w) (w_db w')"
  proof (cases q)
    case (Inl e)
    with b q 1 show ?thesis by (simp add: bind_tx_def)
  next
    case (Inr x)
    with b q have "k x w1 = (r, w')" by (simp add: bind_tx_def)
    with assms(2) [of x] 1 show ?thesis
      by (fastforce simp: clients_only_def same_but_clients_def)
  qed
qed

lemma clients_only_try: "clients_only m \<Longrightarrow> clients_only (try_tx m)"
  by (auto simp: clients_only_def try_tx_def split: prod.splits)

lemma clients_only_basic:
  "clients_only (return_tx x)" "clients_only (fail_tx e)" "clients_only uuid_New" "clients_only time_Now"
  by (auto simp: clients_only_def return_tx_def fail_tx_def uuid_New_def time_Now_def
      same_but_clients_refl)

lemma clients_only_pool:
  assumes "\<And>w d x d'. f w d = Inr (x, d') \<Longrightarrow> same_but_clients d d'"
  shows "clients_only (pool_stmt f)"
  unfolding clients_only_def
proof (intro allI impI)
  fix w r w'
  assume p: "pool_stmt f w = (r, w')"
  show "same_but_clients (w_db w) (w_db w')"
  proof (cases r)
    case (Inl e)
    with p atomic_txD [OF atomic_pool_stmt, of f w e w'] show ?thesis
      by (simp add: same_but_clients_refl)
  next
    case (Inr x)
    with p assms show ?thesis by (auto simp: pool_stmt_def tx_simps)
  qed
qed

lemma clients_only_update: "clients_only (update_clients P f)"
  unfolding update_clients_def by (rule clients_only_pool) (auto simp: same_but_clients_def)

lemmas clients_only_rules =
  clients_only_bind clients_only_try clients_only_basic clients_only_update

lemma clients_only_Authenticate: "clients_only (Authenticate sha key)"
  unfolding Authenticate_def Let_def
  by (rule clients_only_bind, rule clients_only_pool)
     (auto intro!: clients_only_rules simp: same_but_clients_refl split: list.splits prod.splits)

lemma clients_only_CreateClient: "clients_only (CreateClient sha gen t name role supplied)"
proof -
  have ins: "clients_only (insert_client mk)" for mk
    unfolding insert_client_def
    by (rule clients_only_pool) (auto simp: Let_def same_but_clients_def split: if_splits)
  have look: "clients_only (pool_stmt (\<lambda>w d. case find P (api_clients d) of
      None \<Rightarrow> Inl PgxErrNoRows | Some c \<Rightarrow> Inr (g c, d)))" for P g
    by (rule clients_only_pool) (auto simp: same_but_clients_refl split: option.splits)
  show ?thesis
    unfolding CreateClient_def
    by (auto intro!: clients_only_rules ins look split: sum.splits)
qed

lemma clients_only_RevokeClient: "clients_only (RevokeClient c)"
  unfolding RevokeClient_def by (auto intro!: clients_only_rules)

section \<open>Every step keeps the invariant\<close>

definition sys_inv :: "system \<Rightarrow> bool" where
  "sys_inv s \<longleftrightarrow> db_ok (sy_db s) \<and> (\<forall>(wk, j)\<in>sy_claims s. claim_ok (sy_db s) j)"

lemma empty_db_ok: "db_ok (empty_db ts cs)"
  by (simp add: db_ok_def keys_ok_def rows_ok_def refs_ok_def dlq_ok_def running_ok_def
      empty_db_def idem_keys_def)

lemma service_moves_ok:
  "(from, to) \<in> set service_moves \<Longrightarrow> operator_move from to \<and> (\<forall>s\<in>set from. can_move s to)"
  by (auto simp: service_moves_def operator_move_def)

lemma sys_inv_plain:
  assumes "sys_inv s" and "sound_call (sy_db s) d'"
  shows "sys_inv (s\<lparr>sy_db := d'\<rparr>) \<and> sound_call (sy_db s) (sy_db (s\<lparr>sy_db := d'\<rparr>))"
  using assms by (auto simp: sys_inv_def sound_call_def intro: claim_ok_extends)

lemma sys_inv_claims:
  assumes "sys_inv s" and "sound_call (sy_db s) d'" and "\<forall>(wk, j)\<in>C. claim_ok d' j"
  shows "sys_inv (s\<lparr>sy_db := d', sy_claims := sy_claims s \<union> C\<rparr>) \<and>
     sound_call (sy_db s) (sy_db (s\<lparr>sy_db := d', sy_claims := sy_claims s \<union> C\<rparr>))"
  using assms by (auto simp: sys_inv_def sound_call_def intro: claim_ok_extends)

lemma sys_step_sound:
  assumes "sys_step a s s'" and "sys_inv s"
  shows "sys_inv s' \<and> sound_call (sy_db s) (sy_db s')"
  using assms
proof (induction rule: sys_step.induct)
  case (create w s valid digest cfg ctx req r w')
  then show ?case
    using Service_Create_sound [of w] by (intro sys_inv_plain) (auto simp: sys_inv_def)
next
  case (operator w s "from" to t i r1 w')
  have "sound_call (w_db w) (w_db w')"
    by (rule sound_or_same [OF atomic_TransitionJob _ operator(3)])
       (use operator service_moves_ok [of "from" to] TransitionJob_sound [of w "from" to t i _ w'] in
         \<open>auto simp: sys_inv_def\<close>)
  with operator show ?case by (intro sys_inv_plain) auto
next
  case (requeue w s ctx i r2 w')
  define w1 where "w1 = w\<lparr>w_ticks := Suc (w_ticks w)\<rparr>"
  have w1: "w_db w1 = w_db w" by (simp add: w1_def)
  from requeue(2)
  have R: "RequeueDeadLetter (p_TenantID (PrincipalOrDefault ctx)) i (w_clock w (w_ticks w)) w1 = (r2, w')"
    by (simp add: w1_def Service_RequeueDeadLetter_def bind_tx_def time_Now_def)
  have "sound_call (w_db w1) (w_db w')"
    by (rule sound_or_same [OF atomic_RequeueDeadLetter _ R])
       (use requeue w1 RequeueDeadLetter_sound [of w1 _ _ _ _ w'] in \<open>auto simp: sys_inv_def\<close>)
  with requeue w1 show ?case by (intro sys_inv_plain) auto
next
  case (recover w s reason r3 w')
  then show ?case
    using RecoverExpiredRunningJobs_any [of w] by (intro sys_inv_plain) (auto simp: sys_inv_def)
next
  case (claim w s wk n ttl r4 w')
  then have ok: "db_ok (w_db w)" by (simp add: sys_inv_def)
  note C = ClaimDueJobs_any [OF ok claim(2)]
  have "\<forall>(wk, j)\<in>(case r4 of Inl _ \<Rightarrow> {} | Inr ys \<Rightarrow> {wk} \<times> set ys). claim_ok (w_db w') j"
    using C(2) by (cases r4) auto
  with claim C(1) show ?case by (intro sys_inv_claims) auto
next
  case (extend w s i wk ttl r5 w')
  then show ?case
    using ExtendLease_any [of w] by (intro sys_inv_plain) (auto simp: sys_inv_def)
next
  case (attempt w s wk j r6 w')
  then have j: "db_ok (w_db w)" "claim_ok (w_db w) j" by (auto simp: sys_inv_def)
  note A = pg.ensure_attempt_call [OF j attempt(3)]
  have "\<forall>(wk, j)\<in>(case r6 of Inl _ \<Rightarrow> {} | Inr j' \<Rightarrow> {(wk, j')}). claim_ok (w_db w') j"
    using A by (cases r6) auto
  with attempt A show ?case by (intro sys_inv_claims) auto
next
  case (release w s wk j r7 w')
  then show ?case
    using ReleaseClaim_any [of w] by (intro sys_inv_plain) (auto simp: sys_inv_def)
next
  case (finalize w s wk j dur out r8 w')
  then have j: "db_ok (w_db w)" "claim_ok (w_db w) j" by (auto simp: sys_inv_def)
  with finalize show ?case
    using pg.finalize_call [OF j finalize(3)] by (intro sys_inv_plain) auto
next
  case (relay w s arrange relay batch lease p r9 w' p')
  then show ?case
    using same_but_published_sound [OF _ publishBatch_same [OF relay(2)]]
    by (intro sys_inv_plain) (auto simp: sys_inv_def)
next
  case (replay w s t i r10 w')
  then show ?case
    using same_but_published_sound [OF _ Replay_same [OF replay(2)]]
    by (intro sys_inv_plain) (auto simp: sys_inv_def)
next
  case (auth w s sha key r11 w' gen t name role supplied r12 c r13)
  then have "same_but_clients (w_db w) (w_db w')"
    using clients_only_Authenticate clients_only_CreateClient clients_only_RevokeClient
    unfolding clients_only_def by blast
  with auth show ?case
    using same_but_clients_sound by (intro sys_inv_plain) (auto simp: sys_inv_def)
qed

lemma initial_inv: "initial s \<Longrightarrow> sys_inv s"
  by (auto simp: initial_def sys_inv_def empty_db_ok)

lemma steps_inv: "any_step\<^sup>*\<^sup>* s s' \<Longrightarrow> sys_inv s \<Longrightarrow> sys_inv s'"
  by (induction rule: rtranclp_induct) (auto simp: any_step_def dest: sys_step_sound)

lemma reachable_inv: "reachable s \<Longrightarrow> sys_inv s"
  using steps_inv initial_inv unfolding reachable_def by blast

lemma steps_log: "any_step\<^sup>*\<^sup>* s s' \<Longrightarrow> sys_inv s \<Longrightarrow> log_grows (sy_db s) (sy_db s')"
proof (induction rule: rtranclp_induct)
  case base
  then show ?case by (simp add: log_grows_def)
next
  case (step s1 s2)
  then have "sys_inv s1" using steps_inv by blast
  with step have "log_grows (sy_db s1) (sy_db s2)"
    using sys_step_sound by (auto simp: any_step_def sound_call_def)
  with step show ?case by (blast intro: log_grows_trans)
qed

lemma steps_settled: "any_step\<^sup>*\<^sup>* s s' \<Longrightarrow> sys_inv s \<Longrightarrow> settled (sy_db s) (sy_db s')"
proof (induction rule: rtranclp_induct)
  case base
  then show ?case by (simp add: settled_def)
next
  case (step s1 s2)
  then have "sys_inv s1" using steps_inv by blast
  with step have "settled (sy_db s1) (sy_db s2)"
    using sys_step_sound by (auto simp: any_step_def sound_call_def)
  with step show ?case by (blast intro: settled_trans)
qed

text \<open>A job in a state that no edge leaves stays as it is.\<close>

definition is_final :: "Status \<Rightarrow> bool" where
  "is_final st \<longleftrightarrow> st \<in> {StatusSucceeded, StatusCancelled, StatusDeadLettered}"

lemma moves_final:
  assumes "moves d d'" and "r \<in> set (jobs d)" and "is_final (j_Status r)"
  obtains r' where "r' \<in> set (jobs d')" and "job_const r' = job_const r" and "j_Status r' = j_Status r"
  using assms by (auto simp: moves_def is_final_def)

lemma steps_final:
  assumes "any_step\<^sup>*\<^sup>* s s'" and "sys_inv s" and "r \<in> set (jobs (sy_db s))" and "is_final (j_Status r)"
  shows "\<exists>r'\<in>set (jobs (sy_db s')). job_const r' = job_const r \<and> j_Status r' = j_Status r"
  using assms
proof (induction rule: rtranclp_induct)
  case base
  then show ?case by auto
next
  case (step s1 s2)
  then obtain r1 where r1: "r1 \<in> set (jobs (sy_db s1))" "job_const r1 = job_const r"
      "j_Status r1 = j_Status r"
    by blast
  have "sys_inv s1" using steps_inv step by blast
  with step have "moves (sy_db s1) (sy_db s2)"
    using sys_step_sound by (auto simp: any_step_def sound_call_def)
  with r1 step(6) obtain r2 where "r2 \<in> set (jobs (sy_db s2))" "job_const r2 = job_const r1"
      "j_Status r2 = j_Status r1"
    using moves_final [of "sy_db s1" "sy_db s2" r1] by metis
  with r1 show ?case by auto
qed

end
