(* ===== verification/Samples.thy ===== *)
theory Samples
  imports Repo_Invariant
begin

text \<open>
  Concrete rows, databases and worlds on which the properties are evaluated.  The clocks of a
  sample world stand in the year 2025; instants count nanoseconds from the zero \<open>time.Time\<close>.
\<close>

abbreviation sample_now :: time where
  "sample_now \<equiv> 63900000000000000000"

definition sample_world :: "db \<Rightarrow> pg_world" where
  "sample_world d =
     \<lparr>w_db = d, w_faults = [], w_fresh = (\<lambda>n. of_nat (1000 + n)), w_used = 0,
      w_clock = (\<lambda>_. sample_now), w_ticks = 0, w_dbclock = (\<lambda>_. sample_now), w_txs = 0,
      w_locked = (\<lambda>_ _. False)\<rparr>"

lemma sample_world_sel [simp]:
  "w_db (sample_world d) = d"
  "w_faults (sample_world d) = []"
  "w_fresh (sample_world d) n = of_nat (1000 + n)"
  "w_used (sample_world d) = 0"
  "w_clock (sample_world d) n = sample_now"
  "w_ticks (sample_world d) = 0"
  "w_dbclock (sample_world d) n = sample_now"
  "w_txs (sample_world d) = 0"
  "w_locked (sample_world d) n i = False"
  by (simp_all add: sample_world_def)

lemma sample_world_now [simp]:
  "w_now (sample_world d) = sample_now"
  "w_now (begun (sample_world d)) = sample_now"
  "skip_locked (begun (sample_world d)) = (\<lambda>_. False)"
  by (simp_all add: w_now_def begun_def skip_locked_def sample_world_def)

lemma no_faults_sample [simp]: "no_faults (sample_world d)"
  by (simp add: no_faults_def)

definition sample_job :: "uuid \<Rightarrow> Status \<Rightarrow> int \<Rightarrow> jobs_row" where
  "sample_job i st prio =
     \<lparr>j_ID = i, j_TenantID = 1, j_Name = ''report'', j_JobType = ''CALL_WEBHOOK'',
      j_Payload = ''{}'', j_Status = st, j_Priority = prio, j_RunAt = 1000, j_LockedUntil = None,
      j_LockedBy = None, j_RetryCount = 0, j_MaxRetries = 3, j_RetryBackoffSeconds = 30,
      j_TimeoutSeconds = 300, j_LastError = None, j_CreatedBy = None, j_CreatedAt = 500,
      j_UpdatedAt = 500, j_CompletedAt = None, j_FailedAt = None, j_CancelledAt = None,
      j_IdempotencyKey = None, j_RequestHash = None, r_SourceDeadLetterID = None\<rparr>"

definition sample_running :: "uuid \<Rightarrow> string \<Rightarrow> time \<Rightarrow> jobs_row" where
  "sample_running i wk until =
     (sample_job i StatusRunning 5)\<lparr>j_LockedBy := Some wk, j_LockedUntil := Some until\<rparr>"

definition sample_attempt :: "uuid \<Rightarrow> uuid \<Rightarrow> string \<Rightarrow> attempts_row" where
  "sample_attempt a i wk = running_attempt 2000 a i 1 wk 1"

text \<open>The default tenant; a waiting job, a more urgent waiting job, a job running on worker w1.\<close>

definition sample_db :: db where
  "sample_db =
     \<lparr>jobs = [sample_job 10 StatusPending 5, sample_job 11 StatusScheduled 9,
              sample_running 12 ''w1'' (sample_now + 4000)],
      job_attempts = [sample_attempt 20 12 ''w1''], dead_letter_jobs = [], job_events = [],
      tenants = [\<lparr>t_ID = 1, t_Slug = ''default'', t_Name = ''Default Tenant'', t_CreatedAt = 0\<rparr>], api_clients = []\<rparr>"

text \<open>The claim worker w1 holds in that database.\<close>

definition sample_claim :: Job where
  "sample_claim =
     (scanJob (sample_running 12 ''w1'' (sample_now + 4000)))\<lparr>j_ActiveAttemptID := 20, j_AttemptNumber := 1\<rparr>"

lemmas sample_defs =
  sample_db_def sample_job_def sample_running_def sample_attempt_def running_attempt_def

lemma sample_db_ok [simp]: "db_ok sample_db"
  by (simp add: db_ok_def keys_ok_def rows_ok_def refs_ok_def dlq_ok_def running_ok_def
      has_attempt_def job_ok_def idem_keys_def is_dead_def job_ref_key_def sample_defs)

lemma sample_db_sel [simp]:
  "job_events sample_db = []" "dead_letter_jobs sample_db = []" "api_clients sample_db = []"
  by (simp_all add: sample_db_def)

definition sample_outcome :: "bool \<Rightarrow> ExecutionResult" where
  "sample_outcome retryable =
     \<lparr>x_Metadata = [], x_ErrorCode = ''WEBHOOK_HTTP_ERROR'', x_Retryable = retryable,
      x_Message = ''webhook returned HTTP 503''\<rparr>"

lemma sample_claim_sel [simp]:
  "j_ID sample_claim = 12" "j_TenantID sample_claim = 1" "j_ActiveAttemptID sample_claim = 20"
  "j_RetryCount sample_claim = 0" "j_MaxRetries sample_claim = 3"
  by (simp_all add: sample_claim_def sample_defs)

lemma sample_claim_ok [simp]: "claim_ok sample_db sample_claim"
  by (simp add: claim_ok_def attempt_keys_def job_const_def sample_claim_def scanJob_def
      job_cols.defs Job.defs sample_defs)

end
