(* ===== verification/Repo_Total.thy ===== *)
theory Repo_Total
  imports Samples
begin

text \<open>
  Total correctness of the repository: without failing round trips, with identifiers that are new,
  each method returns and does what its effect says, and the only error it reports is the one the
  code gives for the state it finds.
\<close>

section \<open>Running statements when no round trip fails\<close>

lemma stmt_run [run_simps]:
  "no_faults w \<Longrightarrow> stmt f w =
     (case f w (w_db w) of Inl e \<Rightarrow> (Inl e, w) | Inr (x, d) \<Rightarrow> (Inr x, w\<lparr>w_db := d\<rparr>))"
  by (cases w) (simp add: stmt_def no_faults_def split: sum.splits prod.splits)

lemma no_faults_upd [simp]:
  "no_faults (w\<lparr>w_db := d\<rparr>) = no_faults w"
  "no_faults (w\<lparr>w_used := n\<rparr>) = no_faults w"
  "no_faults (w\<lparr>w_ticks := n\<rparr>) = no_faults w"
  "no_faults (w\<lparr>w_txs := n\<rparr>) = no_faults w"
  "no_faults (w\<lparr>w_faults := fs\<rparr>) = (fs = [])"
  "no_faults (begun w) = (tl (w_faults w) = [])"
  by (simp_all add: no_faults_def begun_def)

lemma begun_run: "no_faults w \<Longrightarrow> begun w = w\<lparr>w_txs := Suc (w_txs w)\<rparr>"
  by (cases w) (simp add: begun_def no_faults_def)

lemma no_faults_begun [simp]: "no_faults w \<Longrightarrow> tl (w_faults w) = []"
  by (simp add: no_faults_def)

lemma begin_run: "no_faults w \<Longrightarrow> pool_stmt (\<lambda>_ d. Inr ((), d)) w = (Inr (), begun w)"
  by (cases w) (simp add: pool_stmt_def new_tx_def bind_tx_def stmt_run begun_def no_faults_def)

lemma in_tx_run [run_simps]:
  "no_faults w \<Longrightarrow> in_tx body w =
     (case body (begun w) of
        (Inl e, w2) \<Rightarrow> (Inl e, w2\<lparr>w_db := w_db w\<rparr>)
      | (Inr (Abort x), w2) \<Rightarrow> (Inr x, w2\<lparr>w_db := w_db w\<rparr>)
      | (Inr (Commit x), w2) \<Rightarrow>
          (case stmt (\<lambda>_ d. Inr ((), d)) w2 of
             (Inl e, w3) \<Rightarrow> (Inl e, w3\<lparr>w_db := w_db w\<rparr>)
           | (Inr _, w3) \<Rightarrow> (Inr x, w3)))"
  by (simp add: in_tx_def begin_run)

lemma basic_run [run_simps]:
  "return_tx x w = (Inr x, w)"
  "fail_tx e w = (Inl e, w)"
  "commit_tx x w = (Inr (Commit x), w)"
  "abort_tx x w = (Inr (Abort x), w)"
  "uuid_New w = (Inr (w_fresh w (w_used w)), w\<lparr>w_used := Suc (w_used w)\<rparr>)"
  "time_Now w = (Inr (w_clock w (w_ticks w)), w\<lparr>w_ticks := Suc (w_ticks w)\<rparr>)"
  by (simp_all add: return_tx_def fail_tx_def commit_tx_def abort_tx_def uuid_New_def time_Now_def)

lemmas statement_defs =
  update_jobs_def update_attempts_def update_dead_letters_def bind_tx_def insertJobEvent_def
  json_Marshal_def

lemma rows_affected_pos: "r \<in> set rs \<Longrightarrow> P r \<Longrightarrow> rows_affected P rs \<noteq> 0"
  by (auto simp: rows_affected_0)

lemma rows_affected_iff: "rows_affected P rs = 0 \<longleftrightarrow> \<not> (\<exists>r\<in>set rs. P r)"
  by (auto simp: rows_affected_0)

lemma atomic_compat:
  "atomic_tx (CompleteAttempt a dur)" "atomic_tx (FailAttempt a dur m)" "atomic_tx (MarkSucceeded i)"
  "atomic_tx (MarkSucceededByWorker i wk)" "atomic_tx (MarkFailedForRetry j m at)"
  "atomic_tx (MarkFailedForRetryByWorker j wk m n at)" "atomic_tx (MoveToDeadLetter j m)"
  "atomic_tx (MoveToDeadLetterByWorker j wk m n)" "atomic_tx (CreateAttempt i wk n)"
proof -
  note D = CompleteAttempt_def FailAttempt_def MarkSucceeded_def MarkSucceededByWorker_def
    MarkFailedForRetry_def MarkFailedForRetryByWorker_def MoveToDeadLetter_def
    MoveToDeadLetterByWorker_def CreateAttempt_def
  note R = atomic_new_tx atomic_bind_int4 atomic_uuid_New atomic_plain_update
    atomic_guarded_update [where g = "\<lambda>_. ()"] atomic_in_tx atomic_pool_stmt
  show "atomic_tx (CompleteAttempt a dur)" "atomic_tx (FailAttempt a dur m)"
    "atomic_tx (MarkSucceeded i)" "atomic_tx (MarkSucceededByWorker i wk)"
    "atomic_tx (MarkFailedForRetry j m at)" "atomic_tx (MarkFailedForRetryByWorker j wk m n at)"
    "atomic_tx (MoveToDeadLetter j m)" "atomic_tx (MoveToDeadLetterByWorker j wk m n)"
    "atomic_tx (CreateAttempt i wk n)"
    unfolding D by (intro R)+
qed

section \<open>Finalizing an execution\<close>

text \<open>What \<open>CompleteExecution\<close> checks: the worker holds the job and the attempt is still running.\<close>

definition holds_job :: "db \<Rightarrow> Job \<Rightarrow> string \<Rightarrow> bool" where
  "holds_job d j wk \<longleftrightarrow> (\<exists>r\<in>set (jobs d). owned_by (j_ID j) wk r \<and> j_TenantID r = j_TenantID j)"

definition attempt_open :: "db \<Rightarrow> Job \<Rightarrow> bool" where
  "attempt_open d j \<longleftrightarrow>
     (\<exists>a\<in>set (job_attempts d). a_ID a = j_ActiveAttemptID j \<and> a_Status a = AttemptRunning)"

abbreviation next_id :: "pg_world \<Rightarrow> uuid" where
  "next_id w \<equiv> w_fresh w (w_used w)"

abbreviation event_ids :: "db \<Rightarrow> uuid set" where
  "event_ids d \<equiv> e_ID ` set (job_events d)"

lemma CompleteExecution_run:
  assumes "no_faults w" and "next_id w \<notin> event_ids (w_db w)"
  shows "fst (CompleteExecution j wk dur res w) =
       (if holds_job (w_db w) j wk \<and> attempt_open (w_db w) j then Inr () else Inl ErrConflict)"
    and "w_db (snd (CompleteExecution j wk dur res w)) =
       (if holds_job (w_db w) j wk \<and> attempt_open (w_db w) j
        then complete_effect j wk dur res (tx_now w) (next_id w) (w_db w) else w_db w)"
  using assms
  by (auto simp: CompleteExecution_def run_simps statement_defs holds_job_def attempt_open_def
      rows_affected_0 jval_ok_def complete_effect_def)

text \<open>The next \<open>n\<close> identifiers are new and different from each other.\<close>

definition used_ids :: "db \<Rightarrow> uuid set" where
  "used_ids d = event_ids d \<union> a_ID ` set (job_attempts d) \<union> d_ID ` set (dead_letter_jobs d) \<union>
     j_ID ` set (jobs d)"

definition fresh_ids :: "nat \<Rightarrow> pg_world \<Rightarrow> bool" where
  "fresh_ids n w \<longleftrightarrow>
     inj_on (w_fresh w) {w_used w ..< w_used w + n} \<and>
     w_fresh w ` {w_used w ..< w_used w + n} \<inter> used_ids (w_db w) = {}"

definition owns_job :: "db \<Rightarrow> uuid \<Rightarrow> string \<Rightarrow> bool" where
  "owns_job d i wk \<longleftrightarrow> (\<exists>r\<in>set (jobs d). owned_by i wk r)"

lemma fresh_idsD:
  assumes "fresh_ids n w" and "k < n"
  shows "w_fresh w (w_used w + k) \<notin> event_ids (w_db w)"
    and "w_fresh w (w_used w + k) \<notin> a_ID ` set (job_attempts (w_db w))"
    and "w_fresh w (w_used w + k) \<notin> d_ID ` set (dead_letter_jobs (w_db w))"
    and "w_fresh w (w_used w + k) \<notin> j_ID ` set (jobs (w_db w))"
  using assms unfolding fresh_ids_def used_ids_def by (auto simp: disjoint_iff)

lemma fresh_ids_neq:
  assumes "fresh_ids n w" and "k < n" and "l < n" and "k \<noteq> l"
  shows "w_fresh w (w_used w + k) \<noteq> w_fresh w (w_used w + l)"
  using assms unfolding fresh_ids_def by (auto dest: inj_onD)

lemma FailExecution_run:
  assumes "no_faults w" and f: "fresh_ids 3 w" and "int4 n" and "jval_ok (JTime at)"
  defines "d \<equiv> w_db w" and "now \<equiv> tx_now w" and "fresh \<equiv> \<lambda>k. w_fresh w (w_used w + k)"
  shows "fst (FailExecution j wk dur out st n at w) =
       (if attempt_open d j \<and> owns_job d (j_ID j) wk then Inr () else Inl ErrConflict)"
    and "w_db (snd (FailExecution j wk dur out st n at w)) =
       (if \<not> (attempt_open d j \<and> owns_job d (j_ID j) wk) then d
        else if st = StatusDeadLettered
        then dead_effect j wk dur out n now (fresh 1) (fresh 0) (fresh 2) d
        else retry_effect j wk dur out n at now (fresh 0) (fresh 1) d)"
proof -
  have e: "w_fresh w (w_used w) \<notin> event_ids d" "w_fresh w (Suc (w_used w)) \<notin> event_ids d"
      "w_fresh w (Suc (Suc (w_used w))) \<notin> event_ids d"
      "w_fresh w (Suc (w_used w)) \<notin> d_ID ` set (dead_letter_jobs d)"
    using fresh_idsD [OF f, of 0] fresh_idsD [OF f, of 1] fresh_idsD [OF f, of 2]
    by (simp_all add: d_def)
  have n: "w_fresh w (w_used w) \<noteq> w_fresh w (Suc (w_used w))"
      "w_fresh w (w_used w) \<noteq> w_fresh w (Suc (Suc (w_used w)))"
    using fresh_ids_neq [OF f, of 0 1] fresh_ids_neq [OF f, of 0 2] by simp_all
  note S = FailExecution_def run_simps statement_defs attempt_open_def owns_job_def
      rows_affected_0 bind_int4_def insert_dead_letter_def
  show "fst (FailExecution j wk dur out st n at w) =
       (if attempt_open d j \<and> owns_job d (j_ID j) wk then Inr () else Inl ErrConflict)"
    using assms(1,3,4) e n unfolding d_def
    by (auto simp: S jval_ok_def failed_event_def)
  show "w_db (snd (FailExecution j wk dur out st n at w)) =
       (if \<not> (attempt_open d j \<and> owns_job d (j_ID j) wk) then d
        else if st = StatusDeadLettered
        then dead_effect j wk dur out n now (fresh 1) (fresh 0) (fresh 2) d
        else retry_effect j wk dur out n at now (fresh 0) (fresh 1) d)"
    using assms(1,3,4) e n unfolding d_def now_def fresh_def
    by (auto simp: S jval_ok_def failed_event_def dead_effect_def retry_effect_def)
qed

section \<open>Claiming\<close>

lemma fresh_ids_step:
  assumes f: "fresh_ids (k + m) w" and w': "w_fresh w' = w_fresh w" "w_used w' = w_used w + k"
    and sub: "used_ids (w_db w') \<subseteq> used_ids (w_db w) \<union> w_fresh w ` {w_used w ..< w_used w + k}"
  shows "fresh_ids m w'"
proof -
  let ?A = "{w_used w ..< w_used w + k}" and ?B = "{w_used w + k ..< w_used w + k + m}"
    and ?C = "{w_used w ..< w_used w + (k + m)}"
  have inj: "inj_on (w_fresh w) ?C" and dis: "w_fresh w ` ?C \<inter> used_ids (w_db w) = {}"
    using f by (simp_all add: fresh_ids_def used_ids_def)
  have "w_fresh w ` ?B \<inter> w_fresh w ` ?A = {}"
    using inj_on_image_Int [OF inj, of ?B ?A] by (force simp: disjoint_iff)
  moreover have "w_fresh w ` ?B \<subseteq> w_fresh w ` ?C" by (rule image_mono) auto
  with dis have "w_fresh w ` ?B \<inter> used_ids (w_db w) = {}" by blast
  ultimately have "w_fresh w ` ?B \<inter> used_ids (w_db w') = {}" using sub by blast
  moreover have "inj_on (w_fresh w) ?B" using inj by (rule inj_on_subset) auto
  ultimately show ?thesis by (simp add: fresh_ids_def used_ids_def w' add.assoc)
qed

lemma stable_ids [simp]:
  "stable_row f \<Longrightarrow> j_ID ` set (upd_where P f rs) = j_ID ` set rs"
  "stable_attempt g \<Longrightarrow> a_ID ` set (upd_where Q g as) = a_ID ` set as"
  by (metis stable_maps(1) list.set_map, metis stable_attempt_maps(1) list.set_map)

lemma claim_one_run:
  assumes "no_faults w" and f: "fresh_ids (2 + m) w" and "int4 (j_RetryCount j + 1)"
  shows "\<exists>j' w'. claim_one wk ttl j w = (Inr j', w') \<and> no_faults w' \<and> fresh_ids m w'"
proof -
  define j' where "j' = claimed_job wk ttl (w_clock w (w_ticks w)) (w_fresh w (w_used w)) j"
  define w' where "w' = w\<lparr>w_ticks := Suc (w_ticks w), w_used := Suc (Suc (w_used w)),
      w_db := claim_effect wk ttl (w_now w) (w_fresh w (Suc (w_used w))) j' (w_db w)\<rparr>"
  have e: "w_fresh w (w_used w) \<notin> a_ID ` set (job_attempts (w_db w))"
      "w_fresh w (Suc (w_used w)) \<notin> event_ids (w_db w)"
    using fresh_idsD [OF f, of 0] fresh_idsD [OF f, of 1] by simp_all
  have "claim_one wk ttl j w = (Inr j', w')"
    using assms(1,3) e
    by (simp add: claim_one_def run_simps statement_defs insert_attempt_def Let_def j'_def w'_def
        claim_effect_def jval_ok_def running_attempt_def attempt_of_def started_event_def)
  moreover have "fresh_ids m w'"
    by (rule fresh_ids_step [OF f])
       (auto simp: w'_def used_ids_def claim_effect_def j'_def)
  ultimately show ?thesis using assms(1) by (auto simp: w'_def)
qed

lemma claim_loop_run:
  "no_faults w \<Longrightarrow> fresh_ids (2 * length xs) w \<Longrightarrow> \<forall>x\<in>set xs. int4 (j_RetryCount x + 1) \<Longrightarrow>
   \<exists>ys w'. for_tx (claim_one wk ttl) xs w = (Inr ys, w') \<and> no_faults w'"
proof (induction xs arbitrary: w)
  case Nil
  then show ?case by (simp add: run_simps)
next
  case (Cons x xs)
  then obtain y w1 where 1: "claim_one wk ttl x w = (Inr y, w1)" "no_faults w1"
      "fresh_ids (2 * length xs) w1"
    using claim_one_run [of w "2 * length xs" x wk ttl] by auto
  with Cons obtain ys w' where "for_tx (claim_one wk ttl) xs w1 = (Inr ys, w')" "no_faults w'"
    by fastforce
  with 1 show ?case by (simp add: bind_tx_def run_simps)
qed

abbreviation due_rows :: "int \<Rightarrow> pg_world \<Rightarrow> jobs_row list" where
  "due_rows n w \<equiv> select_due (tx_now w) (skip_locked (begun w)) n (jobs (w_db w))"

lemma ClaimDueJobs_run:
  assumes "no_faults w" and "0 \<le> n" and "fresh_ids (2 * length (due_rows n w)) w"
    and "\<forall>r\<in>set (due_rows n w). int4 (j_RetryCount r + 1)"
  shows "\<exists>ys w'. ClaimDueJobs wk n ttl w = (Inr ys, w')"
proof -
  let ?w = "(begun w)\<lparr>w_db := w_db w\<rparr>" and ?xs = "map scanJob (due_rows n w)"
  have "fresh_ids (2 * length ?xs) ?w" using assms(3) by (simp add: fresh_ids_def)
  moreover have "no_faults ?w" using assms(1) by simp
  ultimately obtain ys w' where "for_tx (claim_one wk ttl) ?xs ?w = (Inr ys, w')" "no_faults w'"
    using claim_loop_run [of ?w ?xs wk ttl] assms(4) by auto
  with assms show ?thesis by (simp add: ClaimDueJobs_def run_simps bind_tx_def)
qed

section \<open>Recovery\<close>

text \<open>
  The process clock stands between the years 293 and 9507, so that no delay of a \<open>time.Duration\<close>
  leaves the years that \<open>json.Marshal\<close> accepts.
\<close>

definition clock_ok :: "pg_world \<Rightarrow> bool" where
  "clock_ok w \<longleftrightarrow> (\<forall>k. 2 ^ 63 \<le> w_clock w k \<and> w_clock w k \<le> 300000000000000000000)"

lemma NextRetryAt_json:
  assumes "2 ^ 63 \<le> t" and "t \<le> 300000000000000000000"
  shows "jval_ok (JTime (NextRetryAt t b n))"
  using assms wrap64_range [of "backoff_base b * 1000000000 * 2 ^ nat (max 1 n - 1)"]
  by (simp add: jval_ok_def NextRetryAt_eq)

lemma fresh_ids_mono:
  assumes "fresh_ids n w" and "m \<le> n"
  shows "fresh_ids m w"
proof -
  have "{w_used w ..< w_used w + m} \<subseteq> {w_used w ..< w_used w + n}" using assms(2) by auto
  from inj_on_subset [OF _ this] image_mono [OF this, of "w_fresh w"] assms(1) show ?thesis
    unfolding fresh_ids_def by blast
qed

lemma expire_attempts_ids [simp]:
  "a_ID ` set (expire_attempts reason i now as) = a_ID ` set as"
  by (simp add: expire_attempts_def)

lemma recover_one_run:
  assumes nf: "no_faults w" and f: "fresh_ids (2 + m) w" and i: "int4 (j_RetryCount j + 1)"
    and c: "clock_ok w"
  shows "\<exists>w'. recover_one reason j w = (Inr (), w') \<and> no_faults w' \<and> fresh_ids m w' \<and> clock_ok w'"
proof -
  let ?u = "w_used w" and ?t = "w_clock w (w_ticks w)"
  have e: "w_fresh w ?u \<notin> event_ids (w_db w)" "w_fresh w (Suc ?u) \<notin> event_ids (w_db w)"
      "w_fresh w ?u \<notin> d_ID ` set (dead_letter_jobs (w_db w))"
    using fresh_idsD [OF f, of 0] fresh_idsD [OF f, of 1] by simp_all
  note S = recover_one_def run_simps statement_defs insert_dead_letter_def bind_int4_def Let_def
      DecideFailure_status DecideFailure_run_at
  show ?thesis
  proof (cases "j_RetryCount j < j_MaxRetries j")
    case True
    define at where "at = NextRetryAt ?t (j_RetryBackoffSeconds j) (j_RetryCount j + 1)"
    define w' where "w' = w\<lparr>w_ticks := Suc (w_ticks w), w_used := Suc ?u,
        w_db := recover_retry reason at (w_now w) (w_fresh w ?u) j (w_db w)\<rparr>"
    have "jval_ok (JTime at)" using c by (auto simp: at_def clock_ok_def intro: NextRetryAt_json)
    with nf i e True have "recover_one reason j w = (Inr (), w')"
      by (simp add: S w'_def recover_retry_def at_def jval_ok_def expire_attempts_def)
    moreover have "fresh_ids (1 + m) w'"
      by (rule fresh_ids_step [of 1]) (use f in \<open>auto simp: w'_def used_ids_def recover_retry_def\<close>)
    then have "fresh_ids m w'" by (rule fresh_ids_mono) simp
    ultimately show ?thesis using nf c by (auto simp: w'_def clock_ok_def)
  next
    case False
    define w' where "w' = w\<lparr>w_ticks := Suc (w_ticks w), w_used := Suc (Suc ?u),
        w_db := recover_dead reason (w_now w) (w_fresh w ?u) (w_fresh w (Suc ?u)) j (w_db w)\<rparr>"
    have "recover_one reason j w = (Inr (), w')"
      using nf i e False
      by (simp add: S w'_def recover_dead_def jval_ok_def expire_attempts_def)
    moreover have "fresh_ids m w'"
      by (rule fresh_ids_step [OF f]) (auto simp: w'_def used_ids_def recover_dead_def)
    ultimately show ?thesis using nf c by (auto simp: w'_def clock_ok_def)
  qed
qed

lemma recover_loop_run:
  "no_faults w \<Longrightarrow> fresh_ids (2 * length xs) w \<Longrightarrow> clock_ok w \<Longrightarrow>
   \<forall>x\<in>set xs. int4 (j_RetryCount x + 1) \<Longrightarrow>
   \<exists>us w'. for_tx (recover_one reason) xs w = (Inr us, w') \<and> no_faults w'"
proof (induction xs arbitrary: w)
  case Nil
  then show ?case by (simp add: run_simps)
next
  case (Cons x xs)
  then obtain w1 where 1: "recover_one reason x w = (Inr (), w1)" "no_faults w1"
      "fresh_ids (2 * length xs) w1" "clock_ok w1"
    using recover_one_run [of w "2 * length xs" x reason] by auto
  with Cons obtain us w' where "for_tx (recover_one reason) xs w1 = (Inr us, w')" "no_faults w'"
    by fastforce
  with 1 show ?case by (simp add: bind_tx_def run_simps)
qed

lemma RecoverExpiredRunningJobs_run:
  assumes "no_faults w" and "clock_ok w" and "fresh_ids (2 * length (expired_rows w)) w"
    and "\<forall>r\<in>set (expired_rows w). int4 (j_RetryCount r + 1)"
  shows "\<exists>m w'. RecoverExpiredRunningJobs reason w = (Inr m, w')"
proof -
  let ?w = "(begun w)\<lparr>w_db := w_db w\<rparr>" and ?xs = "map scanJob (expired_rows w)"
  have "fresh_ids (2 * length ?xs) ?w" "clock_ok ?w" "no_faults ?w"
    using assms(1-3) by (simp_all add: fresh_ids_def clock_ok_def)
  then obtain us w' where "for_tx (recover_one reason) ?xs ?w = (Inr us, w')" "no_faults w'"
    using recover_loop_run [of ?w ?xs reason] assms(4) by auto
  with assms(1) show ?thesis
    by (auto simp: RecoverExpiredRunningJobs_def run_simps bind_tx_def query_def
        filter_empty_conv)
qed

section \<open>Create\<close>

abbreviation job_ints :: "'a job_cols_scheme \<Rightarrow> int list" where
  "job_ints r \<equiv>
     [j_Priority r, j_RetryCount r, j_MaxRetries r, j_RetryBackoffSeconds r, j_TimeoutSeconds r]"

lemma create_row_ints [simp]:
  "j_Priority (create_row j now) = j_Priority j"
  "j_RetryBackoffSeconds (create_row j now) = j_RetryBackoffSeconds j"
  "j_TimeoutSeconds (create_row j now) = j_TimeoutSeconds j"
  by (simp_all add: create_row_def)

lemma idem_find:
  assumes "keys_ok d" and r: "r \<in> set (jobs d)" "j_IdempotencyKey r = Some k"
  shows "find (\<lambda>s. j_TenantID s = j_TenantID r \<and> j_IdempotencyKey s = Some k) (jobs d) = Some r"
proof -
  let ?P = "\<lambda>s. j_TenantID s = j_TenantID r \<and> j_IdempotencyKey s = Some k"
  obtain s where s: "find ?P (jobs d) = Some s"
    using r by (cases "find ?P (jobs d)") (auto simp: find_None_iff)
  have "distinct (map (\<lambda>s. (j_TenantID s, j_IdempotencyKey s))
      (filter (\<lambda>s. j_IdempotencyKey s \<noteq> None) (jobs d)))"
    using assms(1) by (simp add: keys_ok_def idem_keys_def)
  from key_unique [OF this, of s r] find_SomeD [OF s] r have "s = r" by simp
  with s show ?thesis by simp
qed

text \<open>A tenant already has a job with the key of the request.\<close>

lemma Create_existing:
  assumes "no_faults w" and "keys_ok (w_db w)" and "list_all int4 (job_ints j)"
    and r: "r \<in> set (jobs (w_db w))" "j_TenantID r = j_TenantID j"
      "j_IdempotencyKey r = Some k" "j_IdempotencyKey j = Some k"
  shows "fst (Create j w) =
       (if j_RequestHash r \<noteq> None \<and> j_RequestHash r = j_RequestHash j then Inr (scanJob r)
        else Inl ErrIdempotency)"
    and "w_db (snd (Create j w)) = w_db w"
proof -
  have "(j_TenantID j, Some k) \<in> (\<lambda>s. (j_TenantID s, j_IdempotencyKey s)) ` set (jobs (w_db w))"
    by (rule image_eqI [OF _ r(1)]) (use r in simp)
  then have "create_body j (begun w) = (Inr (Abort None), begun w)"
    using assms(1,3) r(4)
    by (simp add: create_body_def bind_tx_def try_tx_def insert_job_def run_simps Let_def)
  moreover have "find (\<lambda>s. j_TenantID s = j_TenantID j \<and> j_IdempotencyKey s = Some k)
      (jobs (w_db w)) = Some r"
    using idem_find [OF assms(2) r(1,3)] r(2) by simp
  ultimately show "fst (Create j w) =
       (if j_RequestHash r \<noteq> None \<and> j_RequestHash r = j_RequestHash j then Inr (scanJob r)
        else Inl ErrIdempotency)"
    and "w_db (snd (Create j w)) = w_db w"
    using assms(1) r
    by (auto simp: Create_def bind_tx_def getByIdempotencyKey_def pool_stmt_def new_tx_def run_simps)
qed

text \<open>The request has no key, or a key that its tenant has not used.\<close>

lemma Create_new:
  assumes "no_faults w" and "list_all int4 (job_ints j)" and "jval_ok (JTime (j_RunAt j))"
    and "j_ID j \<notin> j_ID ` set (jobs (w_db w))" and "next_id w \<notin> event_ids (w_db w)"
    and "j_TenantID j \<in> t_ID ` set (tenants (w_db w))"
    and "\<And>s. s \<in> set (jobs (w_db w)) \<Longrightarrow> j_TenantID s = j_TenantID j \<Longrightarrow>
           j_IdempotencyKey j \<noteq> None \<Longrightarrow> j_IdempotencyKey s \<noteq> j_IdempotencyKey j"
  shows "\<exists>w'. Create j w = (Inr (scanJob (create_row j (tx_now w))), w') \<and>
     jobs (w_db w') = jobs (w_db w) @ [create_row j (tx_now w)]"
proof -
  let ?r = "create_row j (tx_now w)"
  have "\<not> (j_IdempotencyKey j \<noteq> None \<and> (j_TenantID j, j_IdempotencyKey j) \<in>
      (\<lambda>s. (j_TenantID s, j_IdempotencyKey s)) ` set (jobs (w_db w)))"
    using assms(7) by force
  then have "insert_job (create_row j) (begun w) =
      (Inr (scanJob ?r), (begun w)\<lparr>w_db := (w_db w)\<lparr>jobs := jobs (w_db w) @ [?r]\<rparr>\<rparr>)"
    using assms(1,2,4,6) by (auto simp: insert_job_def run_simps Let_def create_row_def)
  then show ?thesis
    using assms(1,3,5)
    by (simp add: Create_def create_body_def try_tx_def run_simps statement_defs jval_ok_def
        create_row_def)
qed

section \<open>New identifiers in the sample worlds\<close>

lemma fresh_ids_sample:
  assumes "n \<le> 1000" and "\<forall>i\<in>used_ids d. unat i < 1000"
  shows "fresh_ids n (sample_world d)"
proof -
  have u: "unat (of_nat (1000 + k) :: uuid) = 1000 + k" if "k < n" for k
    using that assms(1) by (simp only: unat_of_nat) simp
  have "inj_on (\<lambda>k. of_nat (1000 + k) :: uuid) {0..<n}"
    by (rule inj_onI) (metis u atLeastLessThan_iff add_left_cancel)
  moreover have "(\<lambda>k. of_nat (1000 + k) :: uuid) ` {0..<n} \<inter> used_ids d = {}"
  proof (rule equals0I)
    fix x
    assume "x \<in> (\<lambda>k. of_nat (1000 + k) :: uuid) ` {0..<n} \<inter> used_ids d"
    then obtain k where "k < n" "x = of_nat (1000 + k)" "unat x < 1000" using assms(2) by auto
    with u [of k] show False by simp
  qed
  ultimately show ?thesis by (simp add: fresh_ids_def sample_world_def)
qed

lemma sample_ids: "\<forall>i\<in>used_ids sample_db. unat i < 1000"
  by (simp add: used_ids_def sample_defs)

end
