(* ===== verification/Claim_Properties.thy ===== *)
theory Claim_Properties
  imports Repo_Total
begin

text \<open>
  The contract of internal/job/repository.go, first part: every method is atomic, and the claim
  protocol of \<open>ClaimDueJobs\<close>.
\<close>

section \<open>Atomicity\<close>


section \<open>Claiming\<close>

abbreviation due :: "time \<Rightarrow> (uuid \<Rightarrow> bool) \<Rightarrow> jobs_row list \<Rightarrow> jobs_row list" where
  "due now locked rs \<equiv> filter (\<lambda>r. claimable now r \<and> \<not> locked (j_ID r)) rs"

lemma sorted_take_drop:
  assumes "sorted (map k xs)" and "x \<in> set (take n xs)" and "y \<in> set (drop n xs)"
  shows "k x \<le> k y"
proof -
  have "sorted (map k (take n xs @ drop n xs))" using assms(1) by simp
  with assms(2,3) show ?thesis unfolding map_append sorted_append by auto
qed



text \<open>
  C5: without failing round trips and with new identifiers, \<open>ClaimDueJobs\<close> returns, and what it
  returns and writes is exactly the selection: one job per selected row, in that order, marked
  RUNNING for the worker with attempt number retry count + 1; the selected rows become RUNNING,
  locked by the worker until now plus the lease, and every other row stays; one RUNNING attempt and
  one \<open>job.started\<close> event per job are appended; the database stays well formed.
\<close>

theorem claim_due_jobs_exact:
  assumes "db_ok (w_db w)" and "no_faults w" and "0 \<le> n"
    and "fresh_ids (2 * length (due_rows n w)) w"
    and "\<forall>r\<in>set (due_rows n w). int4 (j_RetryCount r + 1)"
  shows "\<exists>ys eids w'. ClaimDueJobs wk n ttl w = (Inr ys, w') \<and>
    claim_batch wk ttl (tx_now w) (map scanJob (due_rows n w)) ys eids (w_db w) (w_db w') \<and>
    db_ok (w_db w') \<and> (\<forall>y\<in>set ys. claim_ok (w_db w') y)"
proof -
  obtain ys w' where C: "ClaimDueJobs wk n ttl w = (Inr ys, w')"
    using ClaimDueJobs_run [OF assms(2-5)] by blast
  from ClaimDueJobs_batch [OF assms(1) C] C show ?thesis by (auto simp: sound_call_def)
qed

lemma due_rows_sample:
  "select_due sample_now (\<lambda>_. False) 2 (jobs sample_db) =
     [sample_job 11 StatusScheduled 9, sample_job 10 StatusPending 5]"
  by (simp add: select_due_def claimable_def claim_key_def sample_db_def sample_job_def
      sample_running_def numeral_eq_Suc)

theorem claim_due_jobs_exact_witness:
  "\<exists>ys eids w'. ClaimDueJobs ''w2'' 2 Minute (sample_world sample_db) = (Inr ys, w') \<and>
    claim_batch ''w2'' Minute sample_now
      (map scanJob [sample_job 11 StatusScheduled 9, sample_job 10 StatusPending 5]) ys eids
      sample_db (w_db w')"
proof -
  have "\<forall>r\<in>{sample_job 11 StatusScheduled 9, sample_job 10 StatusPending 5}.
      int4 (j_RetryCount r + 1)"
    by (simp add: sample_job_def int4_def)
  then show ?thesis
    using claim_due_jobs_exact [of "sample_world sample_db" 2 "''w2''" Minute]
      fresh_ids_sample [OF _ sample_ids, of 4]
    by (auto simp: due_rows_sample)
qed

lemma claim_batch_ids:
  assumes "claim_batch wk ttl now xs ys eids d d'"
  shows "map j_ID ys = map j_ID xs"
proof -
  have "list_all2 (\<lambda>j y. \<exists>t aid. y = claimed_job wk ttl t aid j) xs ys"
    using assms by (simp add: claim_batch_def)
  then show ?thesis by (induction rule: list_all2_induct) auto
qed

lemma claim_batch_running:
  assumes "claim_batch wk ttl now xs ys eids d d'" and "y \<in> set ys" and "r \<in> set (jobs d')"
    and "j_ID r = j_ID y"
  shows "j_Status r = StatusRunning"
proof -
  have "j_ID y \<in> j_ID ` set xs"
    using arg_cong [OF claim_batch_ids [OF assms(1)], of set] assms(2) by auto
  moreover from assms have
    "r \<in> set (upd_where (\<lambda>r. j_ID r \<in> j_ID ` set xs) (claim_row wk ttl now) (jobs d))"
    by (simp add: claim_batch_def)
  ultimately show ?thesis
    using assms(4) by (auto simp: claim_row_def elim: upd_whereE)
qed

text \<open>
  C7: two claims that follow each other hand out different jobs, whoever makes them, however
  many jobs they ask for and whatever the clocks say: a claimed job is RUNNING, and only
  waiting jobs are claimed.
\<close>

theorem claims_disjoint:
  assumes "db_ok (w_db w)" and "ClaimDueJobs wk n ttl w = (Inr xs, w')"
    and "w_db v = w_db w'" and "ClaimDueJobs wk' n' ttl' v = (Inr ys, v')"
  shows "j_ID ` set xs \<inter> j_ID ` set ys = {}"
proof (rule equals0I)
  fix i
  assume "i \<in> j_ID ` set xs \<inter> j_ID ` set ys"
  then obtain x y where x: "x \<in> set xs" and y: "y \<in> set ys" and e: "j_ID x = j_ID y" by auto
  from ClaimDueJobs_batch [OF assms(1,2)] obtain eids where
    b: "claim_batch wk ttl (tx_now w) (map scanJob (due_rows n w)) xs eids (w_db w) (w_db w')"
    and s: "sound_call (w_db w) (w_db w')" by blast
  from s assms(3) have "db_ok (w_db v)" by (simp add: sound_call_def)
  from ClaimDueJobs_batch [OF this assms(4)] obtain eids' where
    "claim_batch wk' ttl' (tx_now v) (map scanJob (due_rows n' v)) ys eids' (w_db v) (w_db v')"
    by blast
  from claim_batch_ids [OF this] y obtain r where r: "r \<in> set (due_rows n' v)" "j_ID r = j_ID y"
    by (force dest: arg_cong [where f = set])
  with select_due_sub have "r \<in> set (jobs (w_db v))" "claimable (tx_now v) r" by blast+
  with claim_batch_running [OF b x, of r] r e assms(3) show False
    by (auto dest: claimable_waiting simp: waiting_def)
qed

lemmas claim_eval =
  ClaimDueJobs_def claim_one_def run_simps statement_defs insert_attempt_def Let_def
  select_due_def claimable_def claim_key_def claim_row_def jval_ok_def int4_def sample_defs

theorem claims_disjoint_witness:
  "\<exists>xs w' ys v'. ClaimDueJobs ''w2'' 1 Minute (sample_world sample_db) = (Inr xs, w') \<and>
     ClaimDueJobs ''w3'' 5 Minute w' = (Inr ys, v') \<and> map j_ID xs = [11] \<and> map j_ID ys = [10] \<and>
     j_ID ` set xs \<inter> j_ID ` set ys = {}"
proof -
  have "\<exists>xs w'. ClaimDueJobs ''w2'' 1 Minute (sample_world sample_db) = (Inr xs, w') \<and>
      map j_ID xs = [11] \<and>
      (\<exists>ys v'. ClaimDueJobs ''w3'' 5 Minute w' = (Inr ys, v') \<and> map j_ID ys = [10])"
    by (simp add: claim_eval w_now_def skip_locked_def begun_def)
  then show ?thesis
    using claims_disjoint [of "sample_world sample_db" "''w2''" 1 Minute] by fastforce
qed

end
