(* ===== verification/Finalize_Properties.thy ===== *)
theory Finalize_Properties
  imports Repo_Total
begin

text \<open>
  The contract of internal/job/repository.go, second part: how an execution ends.  Success, failure,
  cancellation by an operator and recovery of an expired lease, and that a worker that lost its
  claim can no longer write.
\<close>

section \<open>Success and failure\<close>

text \<open>
  C8: without failing round trips \<open>CompleteExecution\<close> succeeds exactly when the worker still holds
  the job and the attempt of the claim is still running.  It then marks the job SUCCEEDED and
  unlocked, closes that attempt, and appends one \<open>job.completed\<close> event.  In every other case it
  returns \<open>ErrConflict\<close> and changes nothing.
\<close>

theorem complete_execution_exact:
  assumes "no_faults w" and "next_id w \<notin> event_ids (w_db w)"
  shows "fst (CompleteExecution j wk dur res w) =
       (if holds_job (w_db w) j wk \<and> attempt_open (w_db w) j then Inr () else Inl ErrConflict) \<and>
     w_db (snd (CompleteExecution j wk dur res w)) =
       (if holds_job (w_db w) j wk \<and> attempt_open (w_db w) j
        then complete_effect j wk dur res (tx_now w) (next_id w) (w_db w) else w_db w)"
  by (intro conjI CompleteExecution_run assms)

lemma sample_holds:
  "holds_job sample_db sample_claim ''w1''" "\<not> holds_job sample_db sample_claim ''w2''"
  "attempt_open sample_db sample_claim"
  "owns_job sample_db 12 ''w1''" "\<not> owns_job sample_db 12 ''w2''"
  by (simp_all add: holds_job_def attempt_open_def owns_job_def owned_by_def sample_defs)

theorem complete_execution_exact_witness:
  "fst (CompleteExecution sample_claim ''w1'' Second ''{}'' (sample_world sample_db)) = Inr () \<and>
   fst (CompleteExecution sample_claim ''w2'' Second ''{}'' (sample_world sample_db)) = Inl ErrConflict"
  using complete_execution_exact [of "sample_world sample_db" sample_claim "''w1''" Second "''{}''"]
    complete_execution_exact [of "sample_world sample_db" sample_claim "''w2''" Second "''{}''"]
  by (simp add: sample_holds)

text \<open>
  C9: without failing round trips \<open>FailExecution\<close> succeeds exactly when the attempt of the claim is
  running and the worker holds the job.  The attempt is closed as FAILED with the outcome.  For
  DEAD_LETTERED the job gets that status and one dead letter of its tenant is written; otherwise the
  job waits until \<open>nextRunAt\<close>; two events tell what happened.  In every other case it returns
  \<open>ErrConflict\<close> and changes nothing.
\<close>

theorem fail_execution_exact:
  fixes w :: pg_world
  assumes "no_faults w" and "fresh_ids 3 w" and "int4 n" and "jval_ok (JTime at)"
  defines "d \<equiv> w_db w" and "fresh \<equiv> \<lambda>k. w_fresh w (w_used w + k)"
  shows "fst (FailExecution j wk dur out st n at w) =
       (if attempt_open d j \<and> owns_job d (j_ID j) wk then Inr () else Inl ErrConflict) \<and>
     w_db (snd (FailExecution j wk dur out st n at w)) =
       (if \<not> (attempt_open d j \<and> owns_job d (j_ID j) wk) then d
        else if st = StatusDeadLettered
        then dead_effect j wk dur out n (tx_now w) (fresh 1) (fresh 0) (fresh 2) d
        else retry_effect j wk dur out n at (tx_now w) (fresh 0) (fresh 1) d)"
  unfolding d_def fresh_def by (intro conjI FailExecution_run assms)

theorem fail_execution_exact_witness:
  "fst (FailExecution sample_claim ''w1'' Second (sample_outcome True) StatusRetryScheduled 1
      sample_now (sample_world sample_db)) = Inr () \<and>
   map d_OriginalJobID (dead_letter_jobs (w_db (snd (FailExecution sample_claim ''w1'' Second
      (sample_outcome False) StatusDeadLettered 1 sample_now (sample_world sample_db))))) = [12]"
  using fail_execution_exact [of "sample_world sample_db" 1 sample_now sample_claim "''w1''" Second
      "sample_outcome True" StatusRetryScheduled]
    fail_execution_exact [of "sample_world sample_db" 1 sample_now sample_claim "''w1''" Second
      "sample_outcome False" StatusDeadLettered]
    fresh_ids_sample [OF _ sample_ids, of 3]
  by (simp add: sample_holds int4_def jval_ok_def dead_effect_def)

section \<open>Workers that lost their claim\<close>

lemma fails_unchanged:
  assumes "atomic_tx m" and "\<And>x w'. m w = (Inr x, w') \<Longrightarrow> False"
  shows "isl (fst (m w)) \<and> w_db (snd (m w)) = w_db w"
  using assms atomic_txD [OF assms(1)] by (cases "m w"; cases "fst (m w)") auto

lemma worker_methods_need_owner:
  "MarkSucceededByWorker i wk w = (Inr x, w') \<Longrightarrow> owns_job (w_db w) i wk"
  "MarkFailedForRetryByWorker j wk msg n at w = (Inr x, w') \<Longrightarrow> owns_job (w_db w) (j_ID j) wk"
  "MoveToDeadLetterByWorker j wk msg n w = (Inr x, w') \<Longrightarrow> owns_job (w_db w) (j_ID j) wk"
  "CompleteExecution j wk dur res w = (Inr x, w') \<Longrightarrow> owns_job (w_db w) (j_ID j) wk"
  "FailExecution j wk dur out st n at w = (Inr x, w') \<Longrightarrow> owns_job (w_db w) (j_ID j) wk"
  "ReleaseClaim i wk st w = (Inr x, w') \<Longrightarrow> owns_job (w_db w) i wk"
proof -
  note D = owns_job_def tx_simps rows_affected_0 in_tx_ok
  show "MarkSucceededByWorker i wk w = (Inr x, w') \<Longrightarrow> owns_job (w_db w) i wk"
    by (auto simp: MarkSucceededByWorker_def D split: if_splits)
  show "MarkFailedForRetryByWorker j wk msg n at w = (Inr x, w') \<Longrightarrow> owns_job (w_db w) (j_ID j) wk"
    by (auto simp: MarkFailedForRetryByWorker_def D split: if_splits)
  show "MoveToDeadLetterByWorker j wk msg n w = (Inr x, w') \<Longrightarrow> owns_job (w_db w) (j_ID j) wk"
    by (auto simp: MoveToDeadLetterByWorker_def D split: if_splits)
  show "CompleteExecution j wk dur res w = (Inr x, w') \<Longrightarrow> owns_job (w_db w) (j_ID j) wk"
    by (erule CompleteExecution_okE) (auto simp: owns_job_def)
  show "FailExecution j wk dur out st n at w = (Inr x, w') \<Longrightarrow> owns_job (w_db w) (j_ID j) wk"
    by (erule FailExecution_okE) (auto simp: owns_job_def)
  show "ReleaseClaim i wk st w = (Inr x, w') \<Longrightarrow> owns_job (w_db w) i wk"
    by (erule ReleaseClaim_okE) (auto simp: owns_job_def)
qed

lemma ExtendLease_stale:
  assumes "\<not> owns_job (w_db w) i wk"
  shows "fst (ExtendLease i wk ttl w) \<noteq> Inr True \<and> w_db (snd (ExtendLease i wk ttl w)) = w_db w"
proof -
  have none: "rows_affected (owned_by i wk) (jobs (w_db w)) = 0"
    using assms by (auto simp: owns_job_def rows_affected_0)
  obtain r w' where E: "ExtendLease i wk ttl w = (r, w')" by fastforce
  show ?thesis
  proof (cases r)
    case (Inl e)
    with E atomic_txD [OF atomic_ExtendLease] show ?thesis by fastforce
  next
    case (Inr b)
    with E have "ExtendLease i wk ttl w = (Inr b, w')" by simp
    then show ?thesis by (rule ExtendLease_okE) (auto simp: E Inr none upd_where_none)
  qed
qed

text \<open>
  C10: a worker that no longer holds a job cannot change anything through it.  Completing, failing,
  releasing and the three older worker methods end in an error with the database as it was, and
  extending the lease reports that it did not, whatever the attempt, the outcome and the failures of
  the connection.
\<close>

theorem stale_worker_fenced:
  assumes "\<not> owns_job (w_db w) (j_ID j) wk"
  shows "isl (fst (CompleteExecution j wk dur res w)) \<and>
    w_db (snd (CompleteExecution j wk dur res w)) = w_db w \<and>
    isl (fst (FailExecution j wk dur out st n at w)) \<and>
    w_db (snd (FailExecution j wk dur out st n at w)) = w_db w \<and>
    isl (fst (ReleaseClaim (j_ID j) wk st w)) \<and>
    w_db (snd (ReleaseClaim (j_ID j) wk st w)) = w_db w \<and>
    fst (ExtendLease (j_ID j) wk ttl w) \<noteq> Inr True \<and>
    w_db (snd (ExtendLease (j_ID j) wk ttl w)) = w_db w \<and>
    isl (fst (MarkSucceededByWorker (j_ID j) wk w)) \<and>
    w_db (snd (MarkSucceededByWorker (j_ID j) wk w)) = w_db w \<and>
    isl (fst (MarkFailedForRetryByWorker j wk msg n at w)) \<and>
    w_db (snd (MarkFailedForRetryByWorker j wk msg n at w)) = w_db w \<and>
    isl (fst (MoveToDeadLetterByWorker j wk msg n w)) \<and>
    w_db (snd (MoveToDeadLetterByWorker j wk msg n w)) = w_db w"
proof -
  note F = fails_unchanged [where w = w]
  have "isl (fst (CompleteExecution j wk dur res w)) \<and>
      w_db (snd (CompleteExecution j wk dur res w)) = w_db w"
    by (rule F [OF atomic_CompleteExecution]) (use assms worker_methods_need_owner(4) in blast)
  moreover have "isl (fst (FailExecution j wk dur out st n at w)) \<and>
      w_db (snd (FailExecution j wk dur out st n at w)) = w_db w"
    by (rule F [OF atomic_FailExecution]) (use assms worker_methods_need_owner(5) in blast)
  moreover have "isl (fst (ReleaseClaim (j_ID j) wk st w)) \<and>
      w_db (snd (ReleaseClaim (j_ID j) wk st w)) = w_db w"
    by (rule F [OF atomic_ReleaseClaim]) (use assms worker_methods_need_owner(6) in blast)
  moreover have "isl (fst (MarkSucceededByWorker (j_ID j) wk w)) \<and>
      w_db (snd (MarkSucceededByWorker (j_ID j) wk w)) = w_db w"
    by (rule F [OF atomic_compat(4)]) (use assms worker_methods_need_owner(1) in blast)
  moreover have "isl (fst (MarkFailedForRetryByWorker j wk msg n at w)) \<and>
      w_db (snd (MarkFailedForRetryByWorker j wk msg n at w)) = w_db w"
    by (rule F [OF atomic_compat(6)]) (use assms worker_methods_need_owner(2) in blast)
  moreover have "isl (fst (MoveToDeadLetterByWorker j wk msg n w)) \<and>
      w_db (snd (MoveToDeadLetterByWorker j wk msg n w)) = w_db w"
    by (rule F [OF atomic_compat(8)]) (use assms worker_methods_need_owner(3) in blast)
  ultimately show ?thesis using ExtendLease_stale [OF assms] by blast
qed

theorem stale_worker_fenced_witness:
  "\<not> owns_job sample_db 12 ''w2'' \<and>
   w_db (snd (CompleteExecution sample_claim ''w2'' Second ''{}'' (sample_world sample_db))) = sample_db"
  using stale_worker_fenced [of "sample_world sample_db" sample_claim "''w2''" Second "''{}''"]
  by (simp add: sample_holds)

text \<open>
  After an operator cancelled a job, its row is CANCELLED and unlocked, none of its attempts is
  running, and no worker holds it any more, so that no worker can finish it.
\<close>

theorem cancel_takes_the_job:
  assumes "db_ok (w_db w)" and "TransitionJob t i from StatusCancelled w = (Inr u, w')"
  shows "(\<exists>r\<in>set (jobs (w_db w')). j_ID r = i \<and> j_Status r = StatusCancelled \<and>
       j_LockedBy r = None \<and> j_LockedUntil r = None) \<and>
    (\<forall>a\<in>set (job_attempts (w_db w')). a_JobID a = i \<longrightarrow> a_Status a \<noteq> AttemptRunning) \<and>
    (\<forall>wk. \<not> owns_job (w_db w') i wk)"
  using assms(2)
proof (cases rule: TransitionJob_okE)
  case (1 eid r)
  let ?P = "\<lambda>s. j_TenantID s = t \<and> j_ID s = i \<and> j_Status s \<in> set from"
  have js: "jobs (w_db w') = upd_where ?P (transition_row StatusCancelled (tx_now w)) (jobs (w_db w))"
    and as: "job_attempts (w_db w') = upd_where (\<lambda>a. a_JobID a = i \<and> a_Status a = AttemptRunning)
        (cancel_attempt_row (tx_now w)) (job_attempts (w_db w))"
    by (simp_all add: 1(1) transition_effect_def)
  have row: "s = transition_row StatusCancelled (tx_now w) r"
    if "s \<in> set (jobs (w_db w'))" and "j_ID s = i" for s
    using that(1) unfolding js
  proof (cases rule: upd_whereE)
    case (changed q)
    then show ?thesis using job_key_unique [OF db_okD(1) [OF assms(1)], of q r] 1 by simp
  next
    case same
    then show ?thesis using job_key_unique [OF db_okD(1) [OF assms(1)], of s r] 1 that(2) by simp
  qed
  moreover have "transition_row StatusCancelled (tx_now w) r \<in> set (jobs (w_db w'))"
    unfolding js in_upd_where using 1 by (intro bexI [of _ r]) auto
  moreover have "a_Status a \<noteq> AttemptRunning"
    if "a \<in> set (job_attempts (w_db w'))" and "a_JobID a = i" for a
    using that(1) unfolding as
    by (cases rule: upd_whereE) (use that(2) in \<open>simp_all add: cancel_attempt_row_def\<close>)
  moreover have "j_ID (transition_row StatusCancelled (tx_now w) r) = i"
      "j_Status (transition_row StatusCancelled (tx_now w) r) = StatusCancelled"
      "j_LockedBy (transition_row StatusCancelled (tx_now w) r) = None"
      "j_LockedUntil (transition_row StatusCancelled (tx_now w) r) = None"
    using 1 by (simp_all add: transition_row_def)
  ultimately show ?thesis unfolding owns_job_def owned_by_def by (metis option.distinct(1))
qed

theorem cancel_takes_the_job_witness:
  "\<exists>w'. TransitionJob 1 12 [StatusRunning] StatusCancelled (sample_world sample_db) = (Inr (), w') \<and>
     \<not> owns_job (w_db w') 12 ''w1''"
proof -
  have "\<exists>w'. TransitionJob 1 12 [StatusRunning] StatusCancelled (sample_world sample_db) = (Inr (), w')"
    by (simp add: TransitionJob_def run_simps statement_defs rows_affected_def jval_ok_def sample_defs)
  then show ?thesis
    using cancel_takes_the_job [of "sample_world sample_db" 1 12 "[StatusRunning]"] by fastforce
qed

section \<open>Recovery\<close>

text \<open>
  C11: without failing round trips, with new identifiers and a sane clock,
  \<open>RecoverExpiredRunningJobs\<close> returns the number of RUNNING jobs whose lease ran out and that no other
  transaction has locked.  Each of them, and no other row, is unlocked with its retry count raised
  by one, RETRY_SCHEDULED while the budget lasts and DEAD_LETTERED when it is spent; its running
  attempts are closed as expired; one event per job is appended; the database stays well formed.
\<close>

theorem recovery_exact:
  assumes "db_ok (w_db w)" and "no_faults w" and "clock_ok w"
    and "fresh_ids (2 * length (expired_rows w)) w"
    and "\<forall>r\<in>set (expired_rows w). int4 (j_RetryCount r + 1)"
  defines "B \<equiv> j_ID ` set (expired_rows w)"
  shows "\<exists>w'. RecoverExpiredRunningJobs reason w = (Inr (length (expired_rows w)), w') \<and>
    list_all2 (recovered_row B) (jobs (w_db w)) (jobs (w_db w')) \<and>
    job_attempts (w_db w') = recovered_attempts reason (tx_now w) B (job_attempts (w_db w)) \<and>
    (\<exists>es. job_events (w_db w') = job_events (w_db w) @ es \<and>
       map e_JobID es = map j_ID (expired_rows w)) \<and>
    db_ok (w_db w')"
proof -
  obtain m w' where R: "RecoverExpiredRunningJobs reason w = (Inr m, w')"
    using RecoverExpiredRunningJobs_run [OF assms(2-5)] by blast
  note E = RecoverExpiredRunningJobs_effect [OF assms(1) R]
  from E(5) have "db_ok (w_db w')" by (simp add: sound_call_def)
  with R E(1-4) show ?thesis unfolding B_def by blast
qed

definition sample_expired :: db where
  "sample_expired = sample_db\<lparr>jobs := [sample_running 12 ''w1'' 3000]\<rparr>"

lemma sample_expired_ok: "db_ok sample_expired"
  by (simp add: db_ok_def keys_ok_def rows_ok_def refs_ok_def dlq_ok_def running_ok_def
      has_attempt_def job_ok_def idem_keys_def is_dead_def job_ref_key_def sample_defs
      sample_expired_def)

lemma sample_expired_row: "expired sample_now (sample_running 12 ''w1'' 3000)"
  by (simp add: expired_def sample_running_def sample_job_def)

lemma sample_running_sel [simp]:
  "j_ID (sample_running i wk u) = i" "j_Status (sample_running i wk u) = StatusRunning"
  "j_RetryCount (sample_running i wk u) = 0" "j_MaxRetries (sample_running i wk u) = 3"
  by (simp_all add: sample_running_def sample_job_def)

theorem recovery_exact_witness:
  "\<exists>w' r. RecoverExpiredRunningJobs ''expired'' (sample_world sample_expired) = (Inr 1, w') \<and>
     jobs (w_db w') = [r] \<and> j_Status r = StatusRetryScheduled \<and> j_RetryCount r = 1"
proof -
  have "fresh_ids 2 (sample_world sample_expired)"
    by (rule fresh_ids_sample) (simp_all add: used_ids_def sample_expired_def sample_defs)
  moreover have "clock_ok (sample_world sample_expired)" by (simp add: clock_ok_def)
  moreover have "jobs sample_expired = [sample_running 12 ''w1'' 3000]"
    by (simp add: sample_expired_def)
  ultimately show ?thesis
    using recovery_exact [of "sample_world sample_expired" "''expired''"]
    by (auto simp: sample_expired_ok sample_expired_row int4_def recovered_row_def list_all2_Cons1)
qed

end
