(* ===== verification/Tenant_Properties.thy ===== *)
theory Tenant_Properties
  imports Repo_Total Job_Service
begin

text \<open>
  What the API sees and writes: reads and writes stay within the tenant of the caller, pages cover
  the list without gaps, a repeated request with an idempotency key is answered from the first,
  and a dead letter is requeued once.
\<close>

section \<open>Reads stay within the tenant\<close>

text \<open>The rows of one tenant, and those of all others.\<close>

definition tenant_view :: "uuid \<Rightarrow> db \<Rightarrow> db" where
  "tenant_view t d =
     d\<lparr>jobs := filter (\<lambda>r. j_TenantID r = t) (jobs d),
       job_attempts := filter (\<lambda>a. a_TenantID a = t) (job_attempts d),
       dead_letter_jobs := filter (\<lambda>x. d_TenantID x = t) (dead_letter_jobs d),
       job_events := filter (\<lambda>e. e_TenantID e = t) (job_events d)\<rparr>"

definition other_tenants ::
  "uuid \<Rightarrow> db \<Rightarrow> jobs_row list \<times> attempts_row list \<times> DeadLetterJob list \<times> events_row list" where
  "other_tenants t d =
     (filter (\<lambda>r. j_TenantID r \<noteq> t) (jobs d), filter (\<lambda>a. a_TenantID a \<noteq> t) (job_attempts d),
      filter (\<lambda>x. d_TenantID x \<noteq> t) (dead_letter_jobs d),
      filter (\<lambda>e. e_TenantID e \<noteq> t) (job_events d))"

lemma find_view: "find (\<lambda>x. P x \<and> Q x) (filter P xs) = find (\<lambda>x. P x \<and> Q x) xs"
  by (induction xs) auto

text \<open>
  A computation that does not notice when the rows of all other tenants are taken away: it gives
  the same result and leaves the same world, apart from those rows.
\<close>

definition viewed :: "uuid \<Rightarrow> pg_world \<Rightarrow> pg_world" where
  "viewed t w = w\<lparr>w_db := tenant_view t (w_db w)\<rparr>"

definition tenant_blind :: "uuid \<Rightarrow> (db, 'a) tx \<Rightarrow> bool" where
  "tenant_blind t m \<longleftrightarrow> (\<forall>w. m (viewed t w) = map_prod id (viewed t) (m w))"

lemma tenant_blind_bind:
  assumes "tenant_blind t m" and "\<And>x. tenant_blind t (k x)"
  shows "tenant_blind t (bind_tx m k)"
  using assms by (auto simp: tenant_blind_def bind_tx_def split: prod.splits sum.splits)

lemma tenant_blind_return: "tenant_blind t (return_tx x)"
  by (simp add: tenant_blind_def return_tx_def)

lemma tenant_blind_read:
  assumes "\<And>w d. f w d = map_sum id (\<lambda>x. (x, d)) (g d)" and "\<And>d. g (tenant_view t d) = g d"
  shows "tenant_blind t (pool_stmt f)"
proof -
  have "stmt f (viewed t w) = map_prod id (viewed t) (stmt f w)" for w
  proof -
    have "f (viewed t w) (w_db (viewed t w)) = map_sum id (\<lambda>x. (x, tenant_view t (w_db w))) (g (w_db w))"
      by (simp add: assms viewed_def)
    then show ?thesis
      by (cases "g (w_db w)")
         (auto simp: stmt_def viewed_def assms(1) split: list.splits option.splits)
  qed
  moreover have "(viewed t w)\<lparr>w_txs := n\<rparr> = viewed t (w\<lparr>w_txs := n\<rparr>)"
      "w_txs (viewed t w) = w_txs w" for w n
    by (simp_all add: viewed_def)
  ultimately show ?thesis
    by (simp add: tenant_blind_def pool_stmt_def bind_tx_def new_tx_def)
qed

lemma list_matches_view [simp]:
  "filter (\<lambda>r. j_TenantID r = t \<and> list_matches t f r) rs = filter (list_matches t f) rs"
  by (induction rs) (auto simp: list_matches_def)

lemma tenant_blind_reads:
  "tenant_blind t (List t f)"
  "tenant_blind t (GetByID t i)"
  "tenant_blind t (ListAttempts t i)"
  "tenant_blind t (ListEvents t i)"
  "tenant_blind t (ListDeadLetters t pg n)"
proof -
  show "tenant_blind t (GetByID t i)"
    unfolding GetByID_def
    by (rule tenant_blind_read [where g = "\<lambda>d. case find (\<lambda>r. j_TenantID r = t \<and> j_ID r = i) (jobs d) of
          None \<Rightarrow> Inl ErrNotFound | Some r \<Rightarrow> Inr (scanJob r)"])
       (auto simp: tenant_view_def find_view split: option.splits)
  show "tenant_blind t (ListAttempts t i)"
    unfolding ListAttempts_def pool_query_def
    by (rule tenant_blind_read [where g = "\<lambda>d. Inr (map Attempt.truncate (sort_key a_AttemptNumber
          (filter (\<lambda>a. a_TenantID a = t \<and> a_JobID a = i) (job_attempts d))))"])
       (auto simp: tenant_view_def intro!: arg_cong [where f = "sort_key _"] filter_cong)
  show "tenant_blind t (ListEvents t i)"
    unfolding ListEvents_def pool_query_def
    by (rule tenant_blind_read [where g = "\<lambda>d. Inr (map Event.truncate (sort_key (\<lambda>e. (e_CreatedAt e, e_ID e))
          (filter (\<lambda>e. e_TenantID e = t \<and> e_JobID e = i) (job_events d))))"])
       (auto simp: tenant_view_def intro!: arg_cong [where f = "sort_key _"] filter_cong)
  show "tenant_blind t (ListDeadLetters t pg n)"
    unfolding ListDeadLetters_def Let_def
    by (rule tenant_blind_read [where g = "\<lambda>d. limit_offset (normalizePageSize n)
          (wrap64 ((normalizePage pg - 1) * normalizePageSize n))
          (rev (sort_key (\<lambda>x. (d_CreatedAt x, d_ID x))
             (filter (\<lambda>x. d_TenantID x = t) (dead_letter_jobs d))))"])
       (auto simp: tenant_view_def split: sum.splits)
  have count: "tenant_blind t (pool_query (\<lambda>w d. length (filter (list_matches t f) (jobs d))))"
    unfolding pool_query_def
    by (rule tenant_blind_read [where g = "\<lambda>d. Inr (length (filter (list_matches t f) (jobs d)))"])
       (auto simp: tenant_view_def)
  have items: "tenant_blind t (pool_stmt (\<lambda>w d. case sort_column (lf_Sort f) of
      None \<Rightarrow> Inl (ErrorString ''ORDER BY text outside the model'')
    | Some col \<Rightarrow> (case limit_offset n off (order_rows col (lf_Order f)
        (filter (list_matches t f) (jobs d))) of Inl e \<Rightarrow> Inl e | Inr rs \<Rightarrow> Inr (map scanJob rs, d))))"
    for n off
    by (rule tenant_blind_read [where g = "\<lambda>d. case sort_column (lf_Sort f) of
          None \<Rightarrow> Inl (ErrorString ''ORDER BY text outside the model'')
        | Some col \<Rightarrow> map_sum id (map scanJob) (limit_offset n off (order_rows col (lf_Order f)
            (filter (list_matches t f) (jobs d))))"])
       (auto simp: tenant_view_def split: option.splits sum.splits)
  show "tenant_blind t (List t f)"
    unfolding List_def Let_def by (intro tenant_blind_bind tenant_blind_return count items)
qed


section \<open>Writes stay within the tenant\<close>

lemma filter_upd_outside:
  assumes "\<And>r. r \<in> set rs \<Longrightarrow> P r \<Longrightarrow> \<not> Q r \<and> \<not> Q (f r)"
  shows "filter Q (upd_where P f rs) = filter Q rs"
  using assms by (induction rs) auto

lemma transition_other_tenants:
  assumes ok: "db_ok d" and r: "r \<in> set (jobs d)" "j_TenantID r = t" "j_ID r = i"
  shows "other_tenants t (transition_effect t i from to now eid d) = other_tenants t d"
proof -
  have "a_TenantID a = t" if a: "a \<in> set (job_attempts d)" "a_JobID a = i" for a
  proof -
    have "(a_JobID a, a_TenantID a) \<in> job_ref_key ` set (jobs d)"
      using db_okD(3) [OF ok] a(1) by (auto simp: refs_ok_def)
    then obtain s where s: "s \<in> set (jobs d)" "j_ID s = i" "j_TenantID s = a_TenantID a"
      using a(2) by (auto simp: job_ref_key_def)
    with job_key_unique [OF db_okD(1) [OF ok], of s r] r show ?thesis by auto
  qed
  then show ?thesis
    by (auto simp: other_tenants_def transition_effect_def transition_row_def cancel_attempt_row_def
        intro!: filter_upd_outside)
qed

lemma requeue_other_tenants:
  assumes ok: "db_ok d" and dl: "dl \<in> set (dead_letter_jobs d)" "d_TenantID dl = t"
  shows "other_tenants t (requeue_effect dl newID t st tm now eid d) = other_tenants t d"
proof -
  have "d_TenantID x = t" if "x \<in> set (dead_letter_jobs d)" and "d_ID x = d_ID dl" for x
    using key_unique [of d_ID "dead_letter_jobs d" x dl] db_okD(1) [OF ok] that dl
    by (simp add: keys_ok_def)
  then show ?thesis
    by (auto simp: other_tenants_def requeue_effect_def intro!: filter_upd_outside)
qed

lemma unchanged_or:
  assumes "atomic_tx m" and "\<And>x w'. m w = (Inr x, w') \<Longrightarrow> f (w_db w') = f (w_db w)"
  shows "f (w_db (snd (m w))) = f (w_db w)"
  using assms(2) atomic_txD [OF assms(1)] by (cases "m w"; cases "fst (m w)") auto

text \<open>
  C25: a request changes no row of another tenant.  Creating a job, the four operator transitions
  and requeueing a dead letter leave the jobs, attempts, dead letters and events of every other
  tenant as they were, whether they succeed or fail.
\<close>

theorem writes_stay_in_tenant:
  fixes ctx :: ctx
  assumes "db_ok (w_db w)"
  defines "t \<equiv> p_TenantID (PrincipalOrDefault ctx)"
  shows "other_tenants t (w_db (snd (Service_Create valid digest s ctx req w))) =
      other_tenants t (w_db w) \<and>
    other_tenants t (w_db (snd (TransitionJob t i from to w))) = other_tenants t (w_db w) \<and>
    other_tenants t (w_db (snd (Service_RequeueDeadLetter ctx i w))) = other_tenants t (w_db w)"
proof (intro conjI)
  show "other_tenants t (w_db (snd (TransitionJob t i from to w))) = other_tenants t (w_db w)"
    by (rule unchanged_or [OF atomic_TransitionJob])
       (auto elim!: TransitionJob_okE simp: transition_other_tenants [OF assms(1)])
  define w1 where "w1 = w\<lparr>w_ticks := Suc (w_ticks w)\<rparr>"
  have "other_tenants t (w_db (snd (RequeueDeadLetter t i tm w1))) = other_tenants t (w_db w1)" for tm
    by (rule unchanged_or [OF atomic_RequeueDeadLetter])
       (use assms(1) in \<open>auto elim!: RequeueDeadLetter_okE simp: requeue_other_tenants w1_def\<close>)
  then show "other_tenants t (w_db (snd (Service_RequeueDeadLetter ctx i w))) = other_tenants t (w_db w)"
    by (simp add: Service_RequeueDeadLetter_def bind_tx_def time_Now_def t_def w1_def)
  obtain r w' where S: "Service_Create valid digest s ctx req w = (r, w')" by fastforce
  from S have "other_tenants t (w_db w') = other_tenants t (w_db w)"
  proof (cases rule: Service_Create_run)
    case (called r1 w1 newID now)
    let ?j = "new_job digest (PrincipalOrDefault ctx) (effective s req) newID now"
    have "other_tenants t (w_db (snd (Create ?j w1))) = other_tenants t (w_db w1)"
    proof (rule unchanged_or [OF atomic_Create])
      fix x w2
      assume "Create ?j w1 = (Inr x, w2)"
      then show "other_tenants t (w_db w2) = other_tenants t (w_db w1)"
        by (cases rule: Create_okE) (auto simp: other_tenants_def t_def)
    qed
    with called show ?thesis by simp
  qed simp
  with S show "other_tenants t (w_db (snd (Service_Create valid digest s ctx req w))) =
      other_tenants t (w_db w)" by simp
qed

theorem writes_stay_in_tenant_witness:
  "other_tenants 1 (w_db (snd (TransitionJob 1 12 [StatusRunning] StatusCancelled
     (sample_world sample_db)))) = other_tenants 1 sample_db"
  using writes_stay_in_tenant [of "sample_world sample_db" None _ _ _ _ 12 "[StatusRunning]" StatusCancelled]
  by (simp add: PrincipalOrDefault_def FromContext_def DefaultTenantID_def)

section \<open>Pages\<close>

definition ordered_matches :: "(jobs_row \<Rightarrow> int) \<Rightarrow> uuid \<Rightarrow> ListFilter \<Rightarrow> db \<Rightarrow> jobs_row list" where
  "ordered_matches col t f d = order_rows col (lf_Order f) (filter (list_matches t f) (jobs d))"

lemma list_matches_page [simp]: "list_matches t (f\<lparr>lf_Page := p\<rparr>) = list_matches t f"
  by (intro ext) (simp add: list_matches_def)

lemma List_run:
  assumes "no_faults w" and "sort_column (lf_Sort f) = Some col"
    and "1 \<le> lf_Page f" and "1 \<le> lf_PageSize f" and "lf_PageSize f \<le> 100"
    and "(lf_Page f - 1) * lf_PageSize f < 2 ^ 63"
  shows "fst (List t f w) = Inr
     \<lparr>pg_Items = map scanJob (take (nat (lf_PageSize f))
         (drop (nat ((lf_Page f - 1) * lf_PageSize f)) (ordered_matches col t f (w_db w)))),
      pg_Page = lf_Page f, pg_PageSize = lf_PageSize f,
      pg_Total = length (filter (list_matches t f) (jobs (w_db w)))\<rparr>"
proof -
  have "0 \<le> (lf_Page f - 1) * lf_PageSize f" using assms(3,4) by simp
  moreover from this have "wrap64 ((lf_Page f - 1) * lf_PageSize f) = (lf_Page f - 1) * lf_PageSize f"
    using assms(6) by (intro wrap64_id) simp_all
  moreover have "normalizePage (lf_Page f) = lf_Page f"
      "normalizePageSize (lf_PageSize f) = lf_PageSize f"
    using assms(3-5) by (simp_all add: normalizePage_def normalizePageSize_def)
  ultimately show ?thesis
    using assms(1,2,4)
    by (simp add: List_def pool_query_def pool_stmt_def new_tx_def bind_tx_def run_simps
        limit_offset_def ordered_matches_def Let_def)
qed

lemma concat_pages:
  "concat (map (\<lambda>k. take n (drop (k * n) xs)) [0..<m]) = take (m * n) xs"
proof (induction m)
  case (Suc m)
  have "take (Suc m * n) xs = take (m * n) xs @ take n (drop (m * n) xs)"
    by (metis take_add mult_Suc add.commute)
  with Suc show ?case by simp
qed simp

text \<open>What a client reads on page \<open>p\<close>.\<close>

definition page_items :: "uuid \<Rightarrow> ListFilter \<Rightarrow> pg_world \<Rightarrow> nat \<Rightarrow> Job list" where
  "page_items t f w p =
     (case fst (List t (f\<lparr>lf_Page := int p\<rparr>) w) of Inl e \<Rightarrow> [] | Inr page \<Rightarrow> pg_Items page)"

text \<open>
  C34: reading the pages one after the other gives every matching job once, in order.  For a page
  size between 1 and 100 and any of the supported sort columns, the first \<open>m\<close> pages are the first
  \<open>m * pageSize\<close> jobs of the ordered list of matches, and the total on each page is the length of that
  list, so that \<open>m = total div pageSize + 1\<close> pages are all of it.
\<close>

theorem pages_cover_the_list:
  assumes "no_faults w" and "sort_column (lf_Sort f) = Some col"
    and "1 \<le> lf_PageSize f" and "lf_PageSize f \<le> 100" and "int m * lf_PageSize f < 2 ^ 63"
  shows "concat (map (page_items t f w) [1..<Suc m]) =
      map scanJob (take (m * nat (lf_PageSize f)) (ordered_matches col t f (w_db w))) \<and>
    (m * nat (lf_PageSize f) \<ge> length (filter (list_matches t f) (jobs (w_db w))) \<longrightarrow>
     concat (map (page_items t f w) [1..<Suc m]) = map scanJob (ordered_matches col t f (w_db w)))"
proof -
  let ?n = "lf_PageSize f" and ?L = "ordered_matches col t f (w_db w)"
  have page: "page_items t f w (Suc k) = map scanJob (take (nat ?n) (drop (k * nat ?n) ?L))"
    if "k < m" for k
  proof -
    have "int k * ?n \<le> int m * ?n" using that assms(3) by (intro mult_right_mono) auto
    then have "int k * ?n < 2 ^ 63" using assms(5) by linarith
    with assms show ?thesis
      using List_run [of w "f\<lparr>lf_Page := int (Suc k)\<rparr>" col t]
      by (simp add: page_items_def nat_mult_distrib ordered_matches_def)
  qed
  have "concat (map (page_items t f w) [1..<Suc m]) = concat (map (page_items t f w \<circ> Suc) [0..<m])"
    unfolding One_nat_def map_Suc_upt [symmetric] map_map ..
  also have "\<dots> = concat (map (\<lambda>k. map scanJob (take (nat ?n) (drop (k * nat ?n) ?L))) [0..<m])"
    by (intro arg_cong [where f = concat] map_cong) (simp_all add: page)
  also have "\<dots> = map scanJob (take (m * nat ?n) ?L)"
    unfolding concat_pages [symmetric] by (simp add: map_concat comp_def)
  finally have "concat (map (page_items t f w) [1..<Suc m]) = map scanJob (take (m * nat ?n) ?L)" .
  moreover have "length ?L = length (filter (list_matches t f) (jobs (w_db w)))"
    by (simp add: ordered_matches_def order_rows_def Let_def)
  ultimately show ?thesis by simp
qed

definition sample_filter :: ListFilter where
  "sample_filter =
     \<lparr>lf_Status = '''', lf_JobType = '''', lf_Page = 1, lf_PageSize = 2, lf_Sort = ''priority'',
      lf_Order = ''desc'', lf_CreatedAfter = None, lf_CreatedBefore = None\<rparr>"

lemma sample_matches:
  "map j_ID (ordered_matches j_Priority 1 sample_filter sample_db) = [11, 12, 10]"
  by (simp add: sample_filter_def ordered_matches_def order_rows_def list_matches_def sample_defs
      Let_def)

theorem pages_cover_the_list_witness:
  "map j_ID (concat (map (page_items 1 sample_filter (sample_world sample_db)) [1..<Suc 2])) =
     [11, 12, 10]"
proof -
  have "concat (map (page_items 1 sample_filter (sample_world sample_db)) [1..<Suc 2]) =
      map scanJob (take (2 * nat 2) (ordered_matches j_Priority 1 sample_filter sample_db))"
    using pages_cover_the_list [of "sample_world sample_db" sample_filter j_Priority 2 1]
    by (simp add: sample_filter_def sort_column_def del: upt_Suc)
  moreover have "length (ordered_matches j_Priority 1 sample_filter sample_db) = 3"
    using arg_cong [OF sample_matches, of length] by simp
  ultimately show ?thesis by (simp add: comp_def sample_matches del: upt_Suc)
qed

end
