(* ===== verification/Idempotency_Properties.thy ===== *)
theory Idempotency_Properties
  imports Repo_Total Job_Service
begin

text \<open>
  Operations that may be repeated: creating a job with an idempotency key, and requeueing a dead
  letter.  Also what a rejected create request leaves behind.
\<close>

section \<open>Creating a job twice\<close>

text \<open>The \<open>INT\<close> columns of a request that reached the repository.\<close>

definition int4_request :: "CreateRequest \<Rightarrow> bool" where
  "int4_request r \<longleftrightarrow>
     list_all int4 [cr_Priority r, cr_MaxRetries r, cr_RetryBackoffSeconds r, cr_TimeoutSeconds r]"

lemma new_job_ints:
  "int4_request req \<Longrightarrow> list_all int4 (job_ints (new_job digest p req i now))"
  by (simp add: int4_request_def new_job_def job_ref_def int4_def)

lemma effective_key [simp]: "cr_IdempotencyKey (effective s req) = TrimSpace (cr_IdempotencyKey req)"
  by (simp add: effective_def)

text \<open>Where the answer of a successful create comes from.\<close>

lemma Service_Create_row:
  assumes "Service_Create valid digest s ctx req w = (Inr resp, w')"
    and key: "TrimSpace (cr_IdempotencyKey req) \<noteq> ''''"
  obtains r where "r \<in> set (jobs (w_db w'))" and "j_ID r = resp_JobID resp"
    and "j_TenantID r = p_TenantID (PrincipalOrDefault ctx)"
    and "j_IdempotencyKey r = Some (TrimSpace (cr_IdempotencyKey req))"
    and "j_RequestHash r = Some (digest (hashed (effective s req)))"
  using assms(1)
proof (cases rule: Service_Create_run)
  case (called r1 w1 newID now)
  then obtain x where x: "r1 = Inr x" "resp_JobID resp = j_ID x" by (cases r1) auto
  with called(1) have "Create (new_job digest (PrincipalOrDefault ctx) (effective s req) newID now) w1
      = (Inr x, w')" by simp
  then show ?thesis
  proof (cases rule: Create_okE)
    case (inserted r eid)
    then show ?thesis using x key by (intro that [of r]) simp_all
  next
    case (replayed k r)
    then show ?thesis using x key by (intro that [of r]) simp_all
  qed
qed simp

text \<open>The same key again, with the database as it is by then.\<close>

lemma Service_Create_again:
  assumes nf: "no_faults v" and ok: "db_ok (w_db v)"
    and key: "TrimSpace (cr_IdempotencyKey req) \<noteq> ''''" "length (TrimSpace (cr_IdempotencyKey req)) \<le> 255"
    and valid: "validateCreate valid (effective s req) = None" "int4_request (effective s req)"
    and r: "r \<in> set (jobs (w_db v))" "j_TenantID r = p_TenantID (PrincipalOrDefault ctx)"
      "j_IdempotencyKey r = Some (TrimSpace (cr_IdempotencyKey req))"
  shows "fst (Service_Create valid digest s ctx req v) =
       (if j_RequestHash r = Some (digest (hashed (effective s req)))
        then Inr \<lparr>resp_JobID = j_ID r, resp_Status = j_Status r, resp_Replayed = (j_ID r \<noteq> next_id v)\<rparr>
        else Inl ErrIdempotency)"
    and "w_db (snd (Service_Create valid digest s ctx req v)) = w_db v"
proof -
  define v1 where "v1 = v\<lparr>w_used := Suc (w_used v), w_ticks := Suc (w_ticks v)\<rparr>"
  define j where "j = new_job digest (PrincipalOrDefault ctx) (effective s req) (next_id v)
      (w_clock v (w_ticks v))"
  have "no_faults v1" "w_db v1 = w_db v" using nf by (simp_all add: v1_def)
  moreover have "keys_ok (w_db v1)" using ok by (simp add: v1_def db_ok_def)
  moreover have "list_all int4 (job_ints j)" unfolding j_def by (rule new_job_ints [OF valid(2)])
  ultimately have C: "fst (Create j v1) =
       (if j_RequestHash r = Some (digest (hashed (effective s req))) then Inr (scanJob r)
        else Inl ErrIdempotency)" "w_db (snd (Create j v1)) = w_db v"
    using Create_existing [of v1 j r "TrimSpace (cr_IdempotencyKey req)"] r key
    by (auto simp: j_def)
  have S: "Service_Create valid digest s ctx req v = bind_tx (Create j) (\<lambda>inserted.
      return_tx \<lparr>resp_JobID = j_ID inserted, resp_Status = j_Status inserted,
        resp_Replayed = (j_ID inserted \<noteq> next_id v)\<rparr>) v1"
    using key(2) valid(1)
    by (simp add: Service_Create_effective j_def v1_def bind_tx_def uuid_New_def time_Now_def)
  show "fst (Service_Create valid digest s ctx req v) =
       (if j_RequestHash r = Some (digest (hashed (effective s req)))
        then Inr \<lparr>resp_JobID = j_ID r, resp_Status = j_Status r, resp_Replayed = (j_ID r \<noteq> next_id v)\<rparr>
        else Inl ErrIdempotency)"
    and "w_db (snd (Service_Create valid digest s ctx req v)) = w_db v"
    unfolding S using C
    by (cases "Create j v1"; force simp: bind_tx_def return_tx_def split: sum.splits)+
qed

text \<open>
  C18: an idempotency key is answered once.  After a create with a key succeeded, a later create of
  the same tenant with that key changes nothing, whatever happened to the job in between: with the
  same request hash it returns the first job and says that it was replayed, with another hash it
  returns \<open>ErrIdempotency\<close>.
\<close>

theorem create_idempotent:
  assumes first: "Service_Create valid digest s ctx req w = (Inr resp, w')"
    and key: "TrimSpace (cr_IdempotencyKey req) \<noteq> ''''"
      "TrimSpace (cr_IdempotencyKey req') = TrimSpace (cr_IdempotencyKey req)"
      "length (TrimSpace (cr_IdempotencyKey req)) \<le> 255"
    and valid: "validateCreate valid (effective s req') = None" "int4_request (effective s req')"
    and later: "no_faults v" "db_ok (w_db v)" "extends (w_db w') (w_db v)" "next_id v \<noteq> resp_JobID resp"
  shows "(if digest (hashed (effective s req')) = digest (hashed (effective s req))
     then \<exists>st. fst (Service_Create valid digest s ctx req' v) =
       Inr \<lparr>resp_JobID = resp_JobID resp, resp_Status = st, resp_Replayed = True\<rparr>
     else fst (Service_Create valid digest s ctx req' v) = Inl ErrIdempotency) \<and>
    w_db (snd (Service_Create valid digest s ctx req' v)) = w_db v"
proof -
  from Service_Create_row [OF first key(1)] obtain q where q: "q \<in> set (jobs (w_db w'))"
      "j_ID q = resp_JobID resp" "j_TenantID q = p_TenantID (PrincipalOrDefault ctx)"
      "j_IdempotencyKey q = Some (TrimSpace (cr_IdempotencyKey req))"
      "j_RequestHash q = Some (digest (hashed (effective s req)))"
    by blast
  from later(3) q(1) have "job_const q \<in> job_consts (w_db v)" by (auto simp: extends_def)
  then obtain r where r: "r \<in> set (jobs (w_db v))" "job_const r = job_const q" by auto
  then have "j_ID r = j_ID q" "j_TenantID r = j_TenantID q" "j_IdempotencyKey r = j_IdempotencyKey q"
      "j_RequestHash r = j_RequestHash q"
    by (simp_all add: job_const_def)
  with q later(4) show ?thesis
    using Service_Create_again [OF later(1,2) _ _ valid r(1), of ctx digest] key by auto
qed

definition sample_request :: "string \<Rightarrow> CreateRequest" where
  "sample_request name =
     \<lparr>cr_Name = name, cr_JobType = ''CALL_WEBHOOK'', cr_Payload = ''{}'', cr_RunAt = sample_now,
      cr_Priority = 5, cr_MaxRetries = 3, cr_RetryBackoffSeconds = 30, cr_TimeoutSeconds = 300,
      cr_IdempotencyKey = ''order-7''\<rparr>"

abbreviation sample_service :: Service where
  "sample_service \<equiv> NewService 3 30 300"

lemma sample_trim:
  "TrimSpace ''order-7'' = ''order-7''" "TrimSpace ''a'' = ''a''" "TrimSpace ''b'' = ''b''"
  by code_simp+

lemma sample_effective:
  "effective sample_service (sample_request name) = sample_request name"
  by (simp add: effective_def withDefaults_def sample_request_def NewService_def sample_trim)

lemma sample_valid:
  "validateCreate (\<lambda>_. True) (sample_request ''a'') = None"
  "validateCreate (\<lambda>_. True) (sample_request ''b'') = None"
  "int4_request (sample_request name)"
  by (simp_all add: validateCreate_ok sample_request_def sample_trim int4_request_def int4_def)

text \<open>Databases in which the sample request is new.\<close>

definition sample_ready :: "db \<Rightarrow> bool" where
  "sample_ready d \<longleftrightarrow>
     tenants d = tenants sample_db \<and> job_events d = [] \<and>
     (\<forall>s\<in>set (jobs d). j_ID s \<noteq> 1000 \<and> j_IdempotencyKey s = None)"

lemma sample_db_ready: "sample_ready sample_db"
  by (simp add: sample_ready_def sample_defs)

lemma sample_Create:
  fixes digest name
  assumes "no_faults w" and d: "sample_ready (w_db w)"
  defines "j \<equiv> new_job digest (PrincipalOrDefault None) (sample_request name) 1000 sample_now"
  shows "\<exists>w'. Create j w = (Inr (scanJob (create_row j (tx_now w))), w') \<and>
     jobs (w_db w') = jobs (w_db w) @ [create_row j (tx_now w)]"
proof (rule Create_new [OF assms(1)])
  show "list_all int4 (job_ints j)" unfolding j_def by (rule new_job_ints [OF sample_valid(3)])
  show "jval_ok (JTime (j_RunAt j))" by (simp add: j_def new_job_def sample_request_def jval_ok_def)
  show "j_ID j \<notin> j_ID ` set (jobs (w_db w))" using d by (auto simp: j_def sample_ready_def)
  show "next_id w \<notin> event_ids (w_db w)" using d by (simp add: sample_ready_def)
  show "j_TenantID j \<in> t_ID ` set (tenants (w_db w))"
    using d by (simp add: j_def sample_ready_def sample_db_def PrincipalOrDefault_def FromContext_def
        DefaultTenantID_def)
  show "j_IdempotencyKey r \<noteq> j_IdempotencyKey j" if "r \<in> set (jobs (w_db w))" for r
    using that d by (simp add: j_def sample_ready_def sample_request_def)
qed

lemma sample_create:
  assumes "sample_ready d"
  shows "\<exists>w'. Service_Create (\<lambda>_. True) digest sample_service None (sample_request ''a'') (sample_world d) =
     (Inr \<lparr>resp_JobID = 1000, resp_Status = StatusPending, resp_Replayed = False\<rparr>, w') \<and>
     length (jobs (w_db w')) = Suc (length (jobs d))"
proof -
  let ?w = "(sample_world d)\<lparr>w_used := Suc 0, w_ticks := Suc 0\<rparr>"
    and ?j = "new_job digest (PrincipalOrDefault None) (sample_request ''a'') 1000 sample_now"
  obtain w' where C: "Create ?j ?w = (Inr (scanJob (create_row ?j (tx_now ?w))), w')"
      "jobs (w_db w') = jobs (w_db ?w) @ [create_row ?j (tx_now ?w)]"
    using sample_Create [of ?w digest "''a''"] assms by auto
  have "cr_IdempotencyKey (sample_request ''a'') = ''order-7''" "cr_RunAt (sample_request ''a'') = sample_now"
    by (simp_all add: sample_request_def)
  with C show ?thesis
    by (simp add: Service_Create_effective sample_effective sample_valid bind_tx_def uuid_New_def
        time_Now_def return_tx_def sample_trim initialStatus_def create_row_def)
qed

text \<open>Job a is created with the key; then the same request and another one follow, in the same database.\<close>

theorem create_idempotent_witness:
  "\<exists>v. fst (Service_Create (\<lambda>_. True) fst sample_service None (sample_request ''a'')
       (sample_world sample_db)) =
       Inr \<lparr>resp_JobID = 1000, resp_Status = StatusPending, resp_Replayed = False\<rparr> \<and>
     (\<exists>st. fst (Service_Create (\<lambda>_. True) fst sample_service None (sample_request ''a'') v) =
       Inr \<lparr>resp_JobID = 1000, resp_Status = st, resp_Replayed = True\<rparr>) \<and>
     fst (Service_Create (\<lambda>_. True) fst sample_service None (sample_request ''b'') v) = Inl ErrIdempotency \<and>
     w_db (snd (Service_Create (\<lambda>_. True) fst sample_service None (sample_request ''b'') v)) = w_db v"
proof -
  obtain w' where first: "Service_Create (\<lambda>_. True) fst sample_service None (sample_request ''a'')
      (sample_world sample_db) =
      (Inr \<lparr>resp_JobID = 1000, resp_Status = StatusPending, resp_Replayed = False\<rparr>, w')"
    using sample_create [OF sample_db_ready] by blast
  let ?v = "(sample_world (w_db w'))\<lparr>w_used := 5\<rparr>"
  have key: "cr_IdempotencyKey (sample_request name) = ''order-7''" for name
    by (simp add: sample_request_def)
  have ok: "db_ok (w_db w')"
    using Service_Create_sound [OF _ first] by (simp add: sound_call_def)
  have name: "fst (hashed (sample_request name)) = name" for name
    by (simp add: sample_request_def hashed_def)
  have "\<exists>st. fst (Service_Create (\<lambda>_. True) fst sample_service None (sample_request ''a'') ?v) =
       Inr \<lparr>resp_JobID = 1000, resp_Status = st, resp_Replayed = True\<rparr>"
    using create_idempotent [OF first, of "sample_request ''a''" ?v] ok
    by (simp add: key sample_trim sample_effective sample_valid)
  moreover have "fst (Service_Create (\<lambda>_. True) fst sample_service None (sample_request ''b'') ?v) =
       Inl ErrIdempotency \<and>
     w_db (snd (Service_Create (\<lambda>_. True) fst sample_service None (sample_request ''b'') ?v)) = w_db ?v"
    using create_idempotent [OF first, of "sample_request ''b''" ?v] ok
    by (simp add: key sample_trim sample_effective sample_valid name)
  moreover have "fst (Service_Create (\<lambda>_. True) fst sample_service None (sample_request ''a'')
       (sample_world sample_db)) =
       Inr \<lparr>resp_JobID = 1000, resp_Status = StatusPending, resp_Replayed = False\<rparr>"
    by (simp add: first)
  ultimately show ?thesis by - (rule exI [of _ ?v], simp)
qed

section \<open>Requeueing a dead letter twice\<close>

lemma requeue_none:
  assumes "no_faults v"
    and "\<And>x. x \<in> set (dead_letter_jobs (w_db v)) \<Longrightarrow> d_ID x = i \<Longrightarrow> d_RequeuedAt x \<noteq> None"
  shows "fst (Service_RequeueDeadLetter ctx i v) = Inl ErrNotFound"
    and "w_db (snd (Service_RequeueDeadLetter ctx i v)) = w_db v"
proof -
  have "find (\<lambda>x. d_TenantID x = t \<and> d_ID x = i \<and> d_RequeuedAt x = None) (dead_letter_jobs (w_db v)) = None"
    for t
    using assms(2) by (auto simp: find_None_iff)
  with assms(1) show "fst (Service_RequeueDeadLetter ctx i v) = Inl ErrNotFound"
    and "w_db (snd (Service_RequeueDeadLetter ctx i v)) = w_db v"
    by (simp_all add: Service_RequeueDeadLetter_def RequeueDeadLetter_def bind_tx_def time_Now_def
        run_simps)
qed

lemma stamped_letter:
  assumes "y \<in> set (upd_where (\<lambda>x. d_ID x = i)
      (\<lambda>x. x\<lparr>d_RequeuedAt := Some tm, d_RequeuedJobID := Some n\<rparr>) xs)" and "d_ID y = i"
  shows "d_RequeuedAt y = Some tm" and "d_RequeuedJobID y = Some n"
  using assms(1) by (cases rule: upd_whereE, use assms(2) in simp_all)+

text \<open>
  A dead letter is requeued at most once.  A successful requeue adds exactly one job, a fresh
  waiting one with no retries used that names the letter as its source, and stamps the letter with
  its id; the next requeue of the letter finds nothing and changes nothing.
\<close>

theorem requeue_once:
  assumes "Service_RequeueDeadLetter ctx i w = (Inr x, w')"
    and "no_faults v" and "w_db v = w_db w'"
  shows "(\<exists>r. jobs (w_db w') = jobs (w_db w) @ [r] \<and> x = scanJob r \<and>
       j_ID r \<notin> j_ID ` set (jobs (w_db w)) \<and> r_SourceDeadLetterID r = Some i \<and>
       j_RetryCount r = 0 \<and> j_Status r \<in> {StatusPending, StatusScheduled} \<and> j_LockedBy r = None) \<and>
     (\<forall>y\<in>set (dead_letter_jobs (w_db w')). d_ID y = i \<longrightarrow> d_RequeuedJobID y = Some (j_ID x)) \<and>
     fst (Service_RequeueDeadLetter ctx i v) = Inl ErrNotFound \<and>
     w_db (snd (Service_RequeueDeadLetter ctx i v)) = w_db v"
proof -
  let ?w = "w\<lparr>w_ticks := Suc (w_ticks w)\<rparr>"
  have R: "RequeueDeadLetter (p_TenantID (PrincipalOrDefault ctx)) i (w_clock w (w_ticks w)) ?w = (Inr x, w')"
    using assms(1) by (simp add: Service_RequeueDeadLetter_def bind_tx_def time_Now_def)
  then show ?thesis
  proof (cases rule: RequeueDeadLetter_okE)
    case (1 dl newID st eid)
    have st: "st \<in> {StatusPending, StatusScheduled}" using 1(2) by (simp add: initialStatus_def)
    have "dead_letter_jobs (w_db w') = upd_where (\<lambda>x. d_ID x = i)
        (\<lambda>x. x\<lparr>d_RequeuedAt := Some (tx_now ?w), d_RequeuedJobID := Some newID\<rparr>)
        (dead_letter_jobs (w_db ?w))"
      unfolding 1(1) by (simp add: requeue_effect_def 1(6))
    then have dl: "d_RequeuedAt y = Some (tx_now ?w)" "d_RequeuedJobID y = Some newID"
      if "y \<in> set (dead_letter_jobs (w_db w'))" "d_ID y = i" for y
      using that stamped_letter [of y i] by simp_all
    have j: "jobs (w_db w') = jobs (w_db w) @ [requeue_row dl newID (p_TenantID (PrincipalOrDefault ctx))
        st (w_clock w (w_ticks w)) (tx_now ?w)]"
      unfolding 1(1) by (simp add: requeue_effect_def)
    have x: "j_ID x = newID" using 1(3) by simp
    have "fst (Service_RequeueDeadLetter ctx i v) = Inl ErrNotFound"
      "w_db (snd (Service_RequeueDeadLetter ctx i v)) = w_db v"
      using dl assms(3) by (intro requeue_none [OF assms(2)]; simp)+
    with j x dl(2) st 1(3,6,8) show ?thesis by simp
  qed
qed

definition sample_letter :: DeadLetterJob where
  "sample_letter = new_dead_letter 3000 30 (scanJob (sample_job 13 StatusDeadLettered 5)) 1 ''gone'' 4"

definition sample_dead_db :: db where
  "sample_dead_db = sample_db\<lparr>jobs := [sample_job 13 StatusDeadLettered 5],
     job_attempts := [], dead_letter_jobs := [sample_letter]\<rparr>"

lemma sample_dead_sel [simp]:
  "jobs sample_dead_db = [sample_job 13 StatusDeadLettered 5]"
  "dead_letter_jobs sample_dead_db = [sample_letter]" "job_events sample_dead_db = []"
  "tenants sample_dead_db = tenants sample_db"
  "d_ID sample_letter = 30" "d_TenantID sample_letter = 1" "d_RequeuedAt sample_letter = None"
  by (simp_all add: sample_dead_db_def sample_letter_def new_dead_letter_def)

lemma sample_requeue:
  "\<exists>x w'. Service_RequeueDeadLetter None 30 (sample_world sample_dead_db) = (Inr x, w')"
  by (simp add: Service_RequeueDeadLetter_def RequeueDeadLetter_def bind_tx_def time_Now_def run_simps
      insert_job_def uuid_New_def statement_defs Let_def int4_def jval_ok_def requeue_row_def
      PrincipalOrDefault_def FromContext_def DefaultTenantID_def sample_job_def)
     (simp add: sample_db_def)

theorem requeue_once_witness:
  "\<exists>x w'. Service_RequeueDeadLetter None 30 (sample_world sample_dead_db) = (Inr x, w') \<and>
     length (jobs (w_db w')) = 2 \<and>
     fst (Service_RequeueDeadLetter None 30 (sample_world (w_db w'))) = Inl ErrNotFound"
proof -
  from sample_requeue obtain x w' where
    R: "Service_RequeueDeadLetter None 30 (sample_world sample_dead_db) = (Inr x, w')" by blast
  with requeue_once [OF R, of "sample_world (w_db w')"] show ?thesis
    by (intro exI [of _ x] exI [of _ w']) auto
qed

end
