(* ===== verification/Service_Properties.thy ===== *)
theory Service_Properties
  imports Idempotency_Properties
begin

text \<open>
  What the job service adds to the repository: which create requests it refuses and what the others
  become, the operator transitions with the window between their read and their write, and the
  retry arithmetic of the engine and of the older policy next to it.
\<close>

section \<open>Creating\<close>

text \<open>The row of a fresh job, from the request as the client sent it.\<close>

definition row_of_request :: "Service \<Rightarrow> ctx \<Rightarrow> CreateRequest \<Rightarrow> time \<Rightarrow> jobs_row \<Rightarrow> bool" where
  "row_of_request s ctx req now r \<longleftrightarrow>
     j_TenantID r = p_TenantID (PrincipalOrDefault ctx) \<and>
     j_CreatedBy r = Some (p_ClientName (PrincipalOrDefault ctx)) \<and>
     (j_Name r, j_JobType r, j_Payload r, j_RunAt r) =
       (cr_Name req, cr_JobType req, cr_Payload req, cr_RunAt req) \<and>
     j_Priority r = (if cr_Priority req = 0 then 5 else cr_Priority req) \<and>
     j_MaxRetries r = (if cr_MaxRetries req = 0 then s_defaultRetries s else cr_MaxRetries req) \<and>
     j_RetryBackoffSeconds r =
       (if cr_RetryBackoffSeconds req = 0 then s_defaultBackoffSec s else cr_RetryBackoffSeconds req) \<and>
     j_TimeoutSeconds r =
       (if cr_TimeoutSeconds req = 0 then s_defaultTimeoutSec s else cr_TimeoutSeconds req) \<and>
     j_Status r = (if now < cr_RunAt req then StatusScheduled else StatusPending) \<and>
     j_RetryCount r = 0 \<and> j_LockedBy r = None \<and> j_LockedUntil r = None"

definition refused :: "(json \<Rightarrow> bool) \<Rightarrow> CreateRequest \<Rightarrow> bool" where
  "refused valid req \<longleftrightarrow>
     length (TrimSpace (cr_IdempotencyKey req)) > 255 \<or> TrimSpace (cr_Name req) = '''' \<or>
     cr_JobType req \<noteq> ''CALL_WEBHOOK'' \<or> cr_Payload req \<in> {'''', ''null''} \<or>
     \<not> valid (cr_Payload req) \<or> cr_RunAt req = 0 \<or> cr_Priority req < 0 \<or> 10 < cr_Priority req \<or>
     cr_MaxRetries req < 0 \<or> cr_RetryBackoffSeconds req < 0 \<or> cr_TimeoutSeconds req < 0"

text \<open>The configured defaults are not negative.\<close>

definition service_ok :: "Service \<Rightarrow> bool" where
  "service_ok s \<longleftrightarrow>
     0 \<le> s_defaultRetries s \<and> 0 \<le> s_defaultBackoffSec s \<and> 0 \<le> s_defaultTimeoutSec s"

lemma refused_iff:
  assumes "service_ok s"
  shows "refused valid req \<longleftrightarrow>
     length (TrimSpace (cr_IdempotencyKey req)) > 255 \<or> validateCreate valid (effective s req) \<noteq> None"
  using assms
  by (auto simp: refused_def service_ok_def effective_def withDefaults_def validateCreate_ok
      simp del: not_None_eq)

text \<open>
  C32: a create request that the validator refuses (blank name, unknown type, payload that is absent,
  null or no JSON, no run time, a number out of range, a key of more than 255 bytes) returns
  \<open>ErrInvalidInput\<close> before any identifier, clock or database is used.  A request that created a job
  added exactly one row, with the client's values, the defaults in place of zeros, the tenant and the
  name of the caller, no retries used and no lease.
\<close>

theorem create_exact:
  assumes "service_ok s"
  shows "if refused valid req
     then \<exists>e. Service_Create valid digest s ctx req w = (Inl e, w) \<and> errors_Is e ErrInvalidInput
     else \<forall>resp w'. Service_Create valid digest s ctx req w = (Inr resp, w') \<and> \<not> resp_Replayed resp \<and>
            w_fresh w (w_used w) \<notin> j_ID ` set (jobs (w_db w)) \<longrightarrow>
          (\<exists>r. jobs (w_db w') = jobs (w_db w) @ [r] \<and> j_ID r = resp_JobID resp \<and>
               j_Status r = resp_Status resp \<and> row_of_request s ctx req (w_clock w (w_ticks w)) r)"
proof (cases "refused valid req")
  case True
  obtain r w' where R: "Service_Create valid digest s ctx req w = (r, w')" by fastforce
  then show ?thesis
  proof (cases rule: Service_Create_run)
    case (rejected e)
    with True R show ?thesis by auto
  next
    case (called r1 w1 newID now)
    with True show ?thesis by (simp add: refused_iff [OF assms])
  qed
next
  case False
  have "\<exists>r. jobs (w_db w') = jobs (w_db w) @ [r] \<and> j_ID r = resp_JobID resp \<and>
      j_Status r = resp_Status resp \<and> row_of_request s ctx req (w_clock w (w_ticks w)) r"
    if R: "Service_Create valid digest s ctx req w = (Inr resp, w')" and new: "\<not> resp_Replayed resp"
      and id: "w_fresh w (w_used w) \<notin> j_ID ` set (jobs (w_db w))" for resp w'
    using R
  proof (cases rule: Service_Create_run)
    case (called r1 w1 newID now)
    then obtain x where x: "r1 = Inr x"
        "resp = \<lparr>resp_JobID = j_ID x, resp_Status = j_Status x, resp_Replayed = (j_ID x \<noteq> newID)\<rparr>"
      by (cases r1) auto
    from called(1) have "Create (new_job digest (PrincipalOrDefault ctx) (effective s req) newID now) w1
        = (Inr x, w')" by (simp add: x)
    then show ?thesis
    proof (cases rule: Create_okE)
      case (inserted r eid)
      then show ?thesis
        using called x
        by (intro exI [of _ r])
           (simp add: row_of_request_def create_row_def new_job_def job_ref_def effective_def
              withDefaults_def initialStatus_def)
    next
      case (replayed k r)
      then show ?thesis using new id called(2,5) x by (auto simp: image_iff)
    qed
  qed simp
  with False show ?thesis by auto
qed

theorem create_exact_witness:
  "\<exists>resp w' r. Service_Create (\<lambda>_. True) fst sample_service None (sample_request ''a'')
       (sample_world sample_db) = (Inr resp, w') \<and>
     jobs (w_db w') = jobs sample_db @ [r] \<and> j_ID r = 1000 \<and> j_MaxRetries r = 3"
proof -
  obtain w' where C: "Service_Create (\<lambda>_. True) fst sample_service None (sample_request ''a'')
      (sample_world sample_db) =
      (Inr \<lparr>resp_JobID = 1000, resp_Status = StatusPending, resp_Replayed = False\<rparr>, w')"
    using sample_create [OF sample_db_ready] by blast
  have ok: "service_ok sample_service" by (simp add: service_ok_def NewService_def)
  have "\<not> refused (\<lambda>_. True) (sample_request ''a'')"
    using sample_valid(1)
    by (simp add: refused_iff [OF ok] sample_effective) (simp add: sample_request_def sample_trim)
  moreover have "1000 \<notin> j_ID ` set (jobs sample_db)" by (simp add: sample_defs)
  ultimately show ?thesis
    using create_exact [OF ok, of "\<lambda>_. True" "sample_request ''a''" fst None "sample_world sample_db"] C
    by (auto simp: row_of_request_def sample_request_def)
qed

section \<open>Operator transitions\<close>

text \<open>
  C33: an operator transition (cancel, pause, resume, retry) with other transactions running between
  its read and its write.  Without failing round trips and with a new event id it fails with
  \<open>ErrNotFound\<close> for a job the tenant does not have and with \<open>ErrInvalidTransition\<close> when the status
  read is not a source of the transition or the status at the write no longer is; it then writes
  nothing.  Otherwise it succeeds and its effect is applied to the database at the write.
\<close>

theorem operator_transition_exact:
  fixes ctx :: ctx
  assumes "no_faults w" and "next_id w \<notin> event_ids (gap (w_db w))"
  defines "t \<equiv> p_TenantID (PrincipalOrDefault ctx)"
  shows "case find (\<lambda>r. j_TenantID r = t \<and> j_ID r = i) (jobs (w_db w)) of
      None \<Rightarrow> fst (transition gap ctx i to from w) = Inl ErrNotFound \<and>
        w_db (snd (transition gap ctx i to from w)) = w_db w
    | Some r \<Rightarrow>
        if j_Status r \<notin> set from \<or> \<not> CanTransition (status_string (j_Status r)) (status_string to)
        then (\<exists>e. fst (transition gap ctx i to from w) = Inl e \<and> errors_Is e ErrInvalidTransition) \<and>
          w_db (snd (transition gap ctx i to from w)) = w_db w
        else if \<exists>q\<in>set (jobs (gap (w_db w))). j_TenantID q = t \<and> j_ID q = i \<and> j_Status q \<in> set from
        then fst (transition gap ctx i to from w) = Inr () \<and>
          (\<exists>now. w_db (snd (transition gap ctx i to from w)) =
             transition_effect t i from to now (next_id w) (gap (w_db w)))
        else fst (transition gap ctx i to from w) = Inl ErrInvalidTransition \<and>
          w_db (snd (transition gap ctx i to from w)) = gap (w_db w)"
  using assms(1,2)
  by (auto simp: transition_def t_def [symmetric] GetByID_def pool_stmt_def new_tx_def interfere_def
      TransitionJob_def run_simps statement_defs rows_affected_iff jval_ok_def Let_def
      transition_effect_def split: option.splits)

text \<open>
  The job of worker w1 is cancelled; in a second run it is completed between the read and the write.
\<close>

theorem operator_transition_exact_witness:
  "fst (Cancel id None 12 (sample_world sample_db)) = Inr () \<and>
   fst (Cancel (\<lambda>d. d\<lparr>jobs := upd_where (\<lambda>r. j_ID r = 12) (succeed_row sample_now) (jobs d)\<rparr>) None 12
     (sample_world sample_db)) = Inl ErrInvalidTransition"
proof -
  let ?from = "[StatusPending, StatusScheduled, StatusRetryScheduled, StatusRunning]"
  have t: "p_TenantID (PrincipalOrDefault None) = 1"
    by (simp add: PrincipalOrDefault_def FromContext_def DefaultTenantID_def)
  have f: "find (\<lambda>r. j_TenantID r = 1 \<and> j_ID r = 12) (jobs sample_db) =
      Some (sample_running 12 ''w1'' 63900000000000004000)"
    by (simp add: sample_defs)
  have s: "j_Status (sample_running 12 ''w1'' 63900000000000004000) = StatusRunning"
    "CanTransition ''RUNNING'' ''CANCELLED''"
    by (simp_all add: sample_running_def sample_job_def CanTransition_iff)
  have a: "\<exists>q\<in>set (jobs sample_db). j_TenantID q = 1 \<and> j_ID q = 12 \<and> j_Status q \<in> set ?from"
    "\<not> (\<exists>q\<in>set (upd_where (\<lambda>r. j_ID r = 12) (succeed_row sample_now) (jobs sample_db)).
        j_TenantID q = 1 \<and> j_ID q = 12 \<and> j_Status q \<in> set ?from)"
    by (simp_all add: sample_defs succeed_row_def)
  show ?thesis
    using operator_transition_exact [of "sample_world sample_db" id None 12 StatusCancelled ?from]
      operator_transition_exact [of "sample_world sample_db"
        "\<lambda>d. d\<lparr>jobs := upd_where (\<lambda>r. j_ID r = 12) (succeed_row sample_now) (jobs d)\<rparr>"
        None 12 StatusCancelled ?from] a
    by (simp add: Cancel_def t f s)
qed

text \<open>
  The retry operation of the API never succeeds.  It asks for a FAILED job, and in a well-formed
  database, as every reachable one is, no job is FAILED: a failed execution goes straight to
  RETRY_SCHEDULED or DEAD_LETTERED.  The call changes nothing.
\<close>

theorem retry_never_applies:
  assumes "db_ok (w_db w)"
  shows "isl (fst (Retry gap ctx i w)) \<and> w_db (snd (Retry gap ctx i w)) = w_db w"
proof -
  obtain g w1 where G: "GetByID (p_TenantID (PrincipalOrDefault ctx)) i w = (g, w1)" by fastforce
  then have d: "w_db w1 = w_db w"
    by (cases g) (auto simp: GetByID_def pool_stmt_def new_tx_def stmt_def bind_tx_def
        split: option.splits list.splits sum.splits prod.splits if_splits)
  show ?thesis
  proof (cases g)
    case (Inl e)
    with G d show ?thesis by (simp add: Retry_def transition_def bind_tx_def Let_def)
  next
    case (Inr j)
    with G obtain r where "r \<in> set (jobs (w_db w))" "j = scanJob r"
      by (auto simp: GetByID_def tx_simps pool_stmt_def find_Some_iff split: option.splits
          elim: nth_mem dest: nth_mem)
    with assms have "j_Status j \<noteq> StatusFailed"
      by (auto simp: db_ok_def rows_ok_def job_ok_def)
    with Inr G d show ?thesis by (simp add: Retry_def transition_def bind_tx_def fail_tx_def Let_def)
  qed
qed

theorem retry_never_applies_witness:
  "isl (fst (Retry id None 12 (sample_world sample_db)))"
  using retry_never_applies [of "sample_world sample_db"] by simp

section \<open>Retry arithmetic\<close>

text \<open>
  C37: the delay of the engine.  As long as it fits 63 bits the next run is the backoff (30 seconds
  when it is not positive) times two to the number of earlier retries after now; beyond, Go's
  wrap-around applies.  The older policy of the job package gives the same instants with its retry
  count one lower.
\<close>

theorem next_retry_exact:
  "NextRetryAt now b n = now + wrap64 (backoff_base b * 1000000000 * 2 ^ nat (max 1 n - 1)) \<and>
   (backoff_base b * 1000000000 * 2 ^ nat (max 1 n - 1) < 2 ^ 63 \<longrightarrow>
      NextRetryAt now b n = now + backoff_base b * 1000000000 * 2 ^ nat (max 1 n - 1) \<and>
      now < NextRetryAt now b n \<and> job_NextRetryAt big now b (n - 1) = NextRetryAt now b n)"
proof -
  let ?p = "backoff_base b * 2 ^ nat (max 1 n - 1)"
  have pos: "0 < ?p" using backoff_base_pos [of b] by simp
  have "job_NextRetryAt big now b (n - 1) = now + ?p * 1000000000" if "?p * 1000000000 < 2 ^ 63"
  proof -
    have e: "nat (if n - 1 < 0 then 0 else n - 1) = nat (max 1 n - 1)" by auto
    have "sint (word_of_int ?p * Second :: duration) = wrap64 (?p * 1000000000)"
      by (simp add: wrap64_def)
    also have "\<dots> = ?p * 1000000000" using that pos by (intro wrap64_id) simp_all
    finally have "sint (word_of_int ?p * Second :: duration) = ?p * 1000000000" .
    moreover have "job_NextRetryAt big now b (n - 1) =
        now + sint ((if ?p < 2 ^ 63 then word_of_int ?p else big ?p) * Second)"
      unfolding job_NextRetryAt_def Let_def e time_Add_def backoff_base_def ..
    moreover have "?p < 2 ^ 63" using that pos by linarith
    ultimately show ?thesis by (simp only: if_True)
  qed
  then show ?thesis
    using NextRetryAt_eq [of now b n] NextRetryAt_exact [of b n now] pos by (auto simp: ac_simps)
qed

theorem next_retry_exact_witness:
  "NextRetryAt sample_now 30 3 = sample_now + 120 * 1000000000 \<and>
   job_NextRetryAt (\<lambda>_. 0) sample_now 30 2 = NextRetryAt sample_now 30 3"
  using next_retry_exact [of sample_now 30 3 "\<lambda>_. 0"] by (simp add: backoff_base_def)

text \<open>
  The delay is not capped.  With the default backoff of 30 seconds the thirtieth retry of a job
  with a larger budget is scheduled in the past, so that the job is due at once.
\<close>

theorem backoff_overflows:
  "fd_Status (DecideFailure now 29 50 30) = EngRetryScheduled \<and>
   fd_NextRunAt (DecideFailure now 29 50 30) < now \<and>
   now + 365 * 24 * 3600 * 1000000000 < fd_NextRunAt (DecideFailure now 28 50 30)"
  by (simp add: DecideFailure_status DecideFailure_run_at NextRetryAt_eq backoff_base_def wrap64_def)

end
