(* ===== verification/Worker_Properties.thy ===== *)
theory Worker_Properties
  imports Worker_Service Finalize_Properties
begin

text \<open>
  The worker on top of its two coordination services: the Redis lock excludes every other owner for
  the lease, processing a job keeps the repository's invariant whatever happens meanwhile, and what
  the worker records on a lock miss, after a lost lease and for a failed execution.
\<close>

section \<open>Mutual exclusion of the lock\<close>

datatype lock_op =
    OpAcquire string string duration
  | OpRelease string string
  | OpExtend string string duration

fun op_owner :: "lock_op \<Rightarrow> string" where
  "op_owner (OpAcquire k v ttl) = v"
| "op_owner (OpRelease k v) = v"
| "op_owner (OpExtend k v ttl) = v"

text \<open>A sequence of timed operations of any clients, through the given lock interface.\<close>

fun lock_ops ::
  "(time \<Rightarrow> string \<Rightarrow> string \<Rightarrow> duration \<Rightarrow> 's \<Rightarrow> (go_error + bool) \<times> 's) \<Rightarrow>
   (time \<Rightarrow> string \<Rightarrow> string \<Rightarrow> 's \<Rightarrow> (go_error + bool) \<times> 's) \<Rightarrow>
   (time \<Rightarrow> string \<Rightarrow> string \<Rightarrow> duration \<Rightarrow> 's \<Rightarrow> (go_error + bool) \<times> 's) \<Rightarrow>
   (time \<times> lock_op) list \<Rightarrow> 's \<Rightarrow> 's" where
  "lock_ops acq rel ext [] s = s"
| "lock_ops acq rel ext ((t, OpAcquire k v ttl) # ops) s = lock_ops acq rel ext ops (snd (acq t k v ttl s))"
| "lock_ops acq rel ext ((t, OpRelease k v) # ops) s = lock_ops acq rel ext ops (snd (rel t k v s))"
| "lock_ops acq rel ext ((t, OpExtend k v ttl) # ops) s = lock_ops acq rel ext ops (snd (ext t k v ttl s))"

context lease_manager begin

lemma lock_ops_keep:
  assumes "holder u k s = Some a" and "\<forall>(t, op)\<in>set ops. t \<le> u \<and> op_owner op \<noteq> a"
  shows "holder u k (lock_ops acquire release extend ops s) = Some a"
  using assms
proof (induction ops arbitrary: s)
  case (Cons x ops)
  obtain t op where x: "x = (t, op)" by fastforce
  have h: "holder t k s = Some a" using holder_ends [of t u k s a] Cons(2,3) x by simp
  show ?case
  proof (cases op)
    case (OpAcquire k' v ttl)
    obtain r s' where A: "acquire t k' v ttl s = (r, s')" by fastforce
    from acquire_keeps_other_owner [OF h A, of u] Cons x OpAcquire A show ?thesis by simp
  next
    case (OpRelease k' v)
    obtain r s' where A: "release t k' v s = (r, s')" by fastforce
    from release_keeps_other_owner [OF h _ A, of u] Cons x OpRelease A show ?thesis by auto
  next
    case (OpExtend k' v ttl)
    obtain r s' where A: "extend t k' v ttl s = (r, s')" by fastforce
    from extend_keeps_other_owner [OF h _ A, of u] Cons x OpExtend A show ?thesis by auto
  qed
qed simp

lemma held_excludes:
  assumes "holder u k s = Some a" and "b \<noteq> a"
  shows "fst (acquire u k b ttl s) \<noteq> Inr True" and "snd (acquire u k b ttl s) = s"
    and "fst (release u k b s) \<noteq> Inr True" and "snd (release u k b s) = s"
    and "fst (extend u k b ttl s) \<noteq> Inr True" and "snd (extend u k b ttl s) = s"
proof -
  show A: "fst (acquire u k b ttl s) \<noteq> Inr True"
    using acquire_ok [of u k b ttl s] assms by (cases "acquire u k b ttl s") auto
  show R: "fst (release u k b s) \<noteq> Inr True"
    using release_ok [of u k b s] assms by (cases "release u k b s") auto
  show E: "fst (extend u k b ttl s) \<noteq> Inr True"
    using extend_ok [of u k b ttl s] assms by (cases "extend u k b ttl s") auto
  show "snd (acquire u k b ttl s) = s" using acquire_no A by (metis prod.collapse)
  show "snd (release u k b s) = s" using release_no R by (metis prod.collapse)
  show "snd (extend u k b ttl s) = s" using extend_no E by (metis prod.collapse)
qed

end

context redis_server begin

lemma lock_excludes:
  fixes ops
  assumes "RedisLock_Acquire rd t k a ttl s = (Inr True, s1)"
    and "\<forall>(v, op)\<in>set ops. v \<le> u \<and> op_owner op \<noteq> a"
    and "t \<le> u" and "u < t + lease_time ttl" and "b \<noteq> a"
  defines "s2 \<equiv> lock_ops (RedisLock_Acquire rd) (RedisLock_Release rd) (RedisLock_Extend rd) ops s1"
  shows "rd_get rd u k s2 = Some a \<and>
    fst (RedisLock_Acquire rd u k b ttl' s2) \<noteq> Inr True \<and> snd (RedisLock_Acquire rd u k b ttl' s2) = s2 \<and>
    fst (RedisLock_Release rd u k b s2) \<noteq> Inr True \<and> snd (RedisLock_Release rd u k b s2) = s2 \<and>
    fst (RedisLock_Extend rd u k b ttl' s2) \<noteq> Inr True \<and> snd (RedisLock_Extend rd u k b ttl' s2) = s2"
proof -
  have "rd_get rd u k s1 = Some a" using lease.acquire_lasts [OF assms(1,3,4)] .
  then have h: "rd_get rd u k s2 = Some a" unfolding s2_def using lease.lock_ops_keep assms(2) by blast
  from h lease.held_excludes [OF h assms(5)] show ?thesis by simp
qed

end

text \<open>
  C19: the job lock excludes.  Against a Redis server with its documented SET NX PX, GET, DEL and
  PEXPIRE, a worker that acquired a key holds it for the whole time to live, whatever acquires,
  releases and extensions other owners issue meanwhile; until then another owner can neither acquire
  nor release nor extend it, and trying leaves the server as it was.
\<close>

theorem lock_mutual_exclusion:
  fixes ops
  assumes "redis_server rd" and "RedisLock_Acquire rd t k a ttl s = (Inr True, s1)"
    and "\<forall>(v, op)\<in>set ops. v \<le> u \<and> op_owner op \<noteq> a"
    and "t \<le> u" and "u < t + lease_time ttl" and "b \<noteq> a"
  defines "s2 \<equiv> lock_ops (RedisLock_Acquire rd) (RedisLock_Release rd) (RedisLock_Extend rd) ops s1"
  shows "rd_get rd u k s2 = Some a \<and>
    fst (RedisLock_Acquire rd u k b ttl' s2) \<noteq> Inr True \<and> snd (RedisLock_Acquire rd u k b ttl' s2) = s2 \<and>
    fst (RedisLock_Release rd u k b s2) \<noteq> Inr True \<and> snd (RedisLock_Release rd u k b s2) = s2 \<and>
    fst (RedisLock_Extend rd u k b ttl' s2) \<noteq> Inr True \<and> snd (RedisLock_Extend rd u k b ttl' s2) = s2"
  unfolding s2_def using redis_server.lock_excludes [OF assms(1-6)] .

theorem lock_mutual_exclusion_witness:
  "\<exists>s1. RedisLock_Acquire ttl_server 0 ''lock:job:1'' ''w1'' (30 * Second)
       \<lparr>ts_fault = None, ts_keys = Map.empty\<rparr> = (Inr True, s1) \<and>
     fst (RedisLock_Acquire ttl_server 20000000000 ''lock:job:1'' ''w2'' (30 * Second)
       (lock_ops (RedisLock_Acquire ttl_server) (RedisLock_Release ttl_server) (RedisLock_Extend ttl_server)
          [(10000000000, OpRelease ''lock:job:1'' ''w2'')] s1)) \<noteq> Inr True"
proof -
  obtain s1 where A: "RedisLock_Acquire ttl_server 0 ''lock:job:1'' ''w1'' (30 * Second)
      \<lparr>ts_fault = None, ts_keys = Map.empty\<rparr> = (Inr True, s1)"
    by (simp add: RedisLock_Acquire_def ttl_server_def ttl_get_def)
  have "20000000000 < 0 + lease_time (30 * Second)" by (simp add: lease_time_def duration_Milliseconds_def)
  from lock_mutual_exclusion [OF ttl.redis_server_axioms A _ _ this,
      of "[(10000000000, OpRelease ''lock:job:1'' ''w2'')]" "''w2''"] A
  show ?thesis by auto
qed

section \<open>Processing a job\<close>

text \<open>
  Processing a claimed job keeps the database well formed and loses neither jobs nor attempts.
  The lock manager and the handler may do anything, round trips may fail, and other transactions may
  run before the attempt, between the renewals and before the result is recorded, as long as each of
  them keeps the database well formed and extends it.
\<close>

theorem process_job_sound:
  assumes "db_ok (w_db w)" and "claim_ok (w_db w) j" and "benign_execution db_ok extends ex"
  shows "case ProcessJob ustr PostgresRepository lm s ex j (w, l) of
    (r, (w', l')) \<Rightarrow> db_ok (w_db w') \<and> extends (w_db w) (w_db w') \<and> claim_ok (w_db w') j"
proof -
  obtain r w' l' where P: "ProcessJob ustr PostgresRepository lm s ex j (w, l) = (r, (w', l'))"
    by (metis prod.exhaust)
  from pg.ProcessJob_carries [OF assms(3,1,2) P] assms(2) show ?thesis
    by (auto simp: P intro: claim_ok_extends)
qed

text \<open>An execution that nothing interrupts, with the given handler result and number of renewals.\<close>

definition quiet_execution :: "nat \<Rightarrow> (go_error + json) \<Rightarrow> (db, 'l) execution" where
  "quiet_execution n res =
     \<lparr>ex_before = id, ex_ticks = replicate n id, ex_handler = (\<lambda>_ _ _. res), ex_after = id,
      ex_duration = Second\<rparr>"

lemma quiet_execution_benign: "benign_execution db_ok extends (quiet_execution n res)"
  by (simp add: benign_execution_def benign_def quiet_execution_def)

definition sample_worker :: worker where
  "sample_worker = worker_NewService '''' ''w1'' 4 10 Second (60 * Second)"

theorem process_job_sound_witness:
  "case ProcessJob (\<lambda>_. ''12'') PostgresRepository noopLockManager sample_worker
      (quiet_execution 2 (Inr ''{}'')) sample_claim (sample_world sample_db, ()) of
    (r, (w', l')) \<Rightarrow> db_ok (w_db w') \<and> extends sample_db (w_db w') \<and> claim_ok (w_db w') sample_claim"
  using process_job_sound [OF _ _ quiet_execution_benign, of "sample_world sample_db" sample_claim
      "\<lambda>_. ''12''" noopLockManager sample_worker 2 "Inr ''{}''" "()"]
  by simp

text \<open>
  A worker that misses the lock does not run the handler.  It only gives the claim back: rows it
  owns for that job become RETRY_SCHEDULED without a lease.  The attempt that the claim opened stays
  RUNNING, and no event is written.
\<close>

theorem lock_miss_releases:
  fixes ex :: "(db, 'l) execution"
  assumes "lm_Acquire lm (lock_key ustr (j_ID j)) (wk_ID s) (lease_ttl s j) l = (Inr False, l1)"
    and "ProcessJob ustr PostgresRepository lm s ex j (w, l) = (Inr (), (w', l'))"
    and "ex_before ex (w_db w, l1) = (d, l2)"
  shows "ProcessJob ustr PostgresRepository lm s (ex\<lparr>ex_handler := h\<rparr>) j (w, l) = (Inr (), (w', l')) \<and>
    owns_job d (j_ID j) (wk_ID s) \<and>
    (\<exists>now. w_db w' = d\<lparr>jobs := upd_where (owned_by (j_ID j) (wk_ID s))
       (\<lambda>r. r\<lparr>j_Status := StatusRetryScheduled, j_LockedBy := None, j_LockedUntil := None,
              j_UpdatedAt := now\<rparr>) (jobs d)\<rparr>) \<and>
    job_attempts (w_db w') = job_attempts d \<and> job_events (w_db w') = job_events d"
proof -
  have "ReleaseClaim (j_ID j) (wk_ID s) StatusRetryScheduled (w\<lparr>w_db := d\<rparr>) = (Inr (), w')"
    using assms by (auto simp: ProcessJob_def apply_gap_def split: prod.splits sum.splits)
  then show ?thesis
  proof (cases rule: ReleaseClaim_okE)
    case (1 r now)
    then have "owns_job d (j_ID j) (wk_ID s)" by (auto simp: owns_job_def)
    moreover have "ProcessJob ustr PostgresRepository lm s (ex\<lparr>ex_handler := h\<rparr>) j (w, l) = (Inr (), (w', l'))"
      using assms(1,2) by (simp add: ProcessJob_def)
    ultimately show ?thesis using 1(1) by auto
  qed
qed

definition busyLockManager :: "unit LockManager" where
  "busyLockManager =
     \<lparr>lm_Acquire = (\<lambda>key owner ttl l. (Inr False, l)),
      lm_Release = (\<lambda>key owner l. (Inr False, l)), lm_Extend = None\<rparr>"

theorem lock_miss_releases_witness:
  "\<exists>w' l'. ProcessJob (\<lambda>_. ''12'') PostgresRepository busyLockManager sample_worker
      (quiet_execution 0 (Inr ''{}'')) sample_claim (sample_world sample_db, ()) = (Inr (), (w', l')) \<and>
     job_attempts (w_db w') = [sample_attempt 20 12 ''w1''] \<and> job_events (w_db w') = []"
proof -
  have A: "lm_Acquire busyLockManager (lock_key (\<lambda>_. ''12'') (j_ID sample_claim)) (wk_ID sample_worker)
      (lease_ttl sample_worker sample_claim) () = (Inr False, ())"
    by (simp add: busyLockManager_def)
  obtain w' where R: "ReleaseClaim 12 ''w1'' StatusRetryScheduled (sample_world sample_db) = (Inr (), w')"
    by (simp add: ReleaseClaim_def run_simps statement_defs new_tx_def rows_affected_def owned_by_def
        sample_defs)
  have P: "ProcessJob (\<lambda>_. ''12'') PostgresRepository busyLockManager sample_worker
      (quiet_execution 0 (Inr ''{}'')) sample_claim (sample_world sample_db, ()) = (Inr (), (w', ()))"
    using R by (simp add: ProcessJob_def busyLockManager_def apply_gap_def quiet_execution_def
        sample_worker_def worker_NewService_def)
  have "ex_before (quiet_execution 0 (Inr ''{}'')) (w_db (sample_world sample_db), ()) = (sample_db, ())"
    by (simp add: quiet_execution_def)
  from lock_miss_releases [OF A P this] P show ?thesis by (simp add: sample_db_def)
qed

text \<open>
  A lost lease stops the execution.  When at a renewal the worker no longer owns the job, because
  it was cancelled, recovered or claimed by another worker in between, the renewal loop ends there: it
  writes nothing and the handler's context is cancelled.
\<close>

theorem lost_lease_cancels:
  assumes "apply_gap g s = (w, l)" and "\<not> owns_job (w_db w) i wk"
  shows "case renewLease PostgresRepository lm wk key i ttl (g # gs) s of
    (cancelled, (w', l')) \<Rightarrow> cancelled \<and> w_db w' = w_db w \<and> l' = l"
proof -
  obtain r w' where E: "ExtendLease i wk ttl w = (r, w')" by fastforce
  with ExtendLease_stale [OF assms(2), of ttl] have "r \<noteq> Inr True" "w_db w' = w_db w" by simp_all
  with E assms(1) show ?thesis by (auto split: sum.splits bool.splits)
qed

theorem lost_lease_cancels_witness:
  "case renewLease PostgresRepository noopLockManager ''w2'' ''lock:job:12'' 12 Second [id]
     (sample_world sample_db, ()) of (cancelled, (w', l')) \<Rightarrow> cancelled \<and> w_db w' = sample_db"
proof -
  have "apply_gap id (sample_world sample_db, ()) = (sample_world sample_db, ())"
    by (simp add: apply_gap_def)
  moreover have "\<not> owns_job sample_db 12 ''w2''" by (simp add: owns_job_def owned_by_def sample_defs)
  ultimately show ?thesis
    using lost_lease_cancels [of id "(sample_world sample_db, ())" "sample_world sample_db" "()" 12 "''w2''"]
    by auto
qed

section \<open>Recording a failure\<close>

lemma record_failure_ok:
  assumes "record_failure repo wk j dur err st n at w = (Inr (), w')" and "\<not> errors_Is err ContextCanceled"
  shows "rp_FailExecution repo j wk dur (ClassifyError err) st n at w = (Inr (), w')"
  using assms
  by (cases "rp_FailExecution repo j wk dur (ClassifyError err) st n at w")
     (auto simp: record_failure_def bind_tx_def try_tx_def return_tx_def fail_tx_def split: sum.splits)

text \<open>The instant of the next run: the server's Retry-After if it gave one, else the engine's backoff.\<close>

definition retry_time :: "(nat \<Rightarrow> time) \<Rightarrow> nat \<Rightarrow> Job \<Rightarrow> go_error \<Rightarrow> time" where
  "retry_time clock k j err =
     (if sint (retryAfter err) > 0 then clock (Suc k) + sint (retryAfter err)
      else NextRetryAt (clock k) (j_RetryBackoffSeconds j) (j_RetryCount j + 1))"

lemma finalize_failed:
  assumes "finalize PostgresRepository wk j dur (Inl err) w = (Inr (), w')"
    and "\<not> errors_Is err ContextCanceled"
  obtains w1 at st where "w_db w1 = w_db w"
    and "st = (if x_Retryable (ClassifyError err) \<and> j_RetryCount j < j_MaxRetries j
               then StatusRetryScheduled else StatusDeadLettered)"
    and "st = StatusRetryScheduled \<Longrightarrow> at = retry_time (w_clock w) (w_ticks w) j err"
    and "FailExecution j wk dur (ClassifyError err) st (j_RetryCount j + 1) at w1 = (Inr (), w')"
proof -
  let ?t = "w_clock w (w_ticks w)"
  let ?D = "DecideFailure ?t (j_RetryCount j) (j_MaxRetries j) (j_RetryBackoffSeconds j)"
  have st: "next_status ?D (ClassifyError err) =
      (if x_Retryable (ClassifyError err) \<and> j_RetryCount j < j_MaxRetries j
       then StatusRetryScheduled else StatusDeadLettered)"
    by (simp add: next_status_def DecideFailure_status)
  show thesis
  proof (cases "sint (retryAfter err) > 0")
    case True
    let ?w = "w\<lparr>w_ticks := Suc (Suc (w_ticks w))\<rparr>"
    have "record_failure PostgresRepository wk j dur err (next_status ?D (ClassifyError err))
        (fd_NextRetryCount ?D) (w_clock w (Suc (w_ticks w)) + sint (retryAfter err)) ?w = (Inr (), w')"
      using assms(1) True
      by (simp add: finalize_def finalize_failure_def bind_tx_def time_Now_def return_tx_def Let_def
          time_Add_def)
    from record_failure_ok [OF this assms(2)] st True show thesis
      by (intro that [of ?w]) (simp_all add: retry_time_def)
  next
    case False
    let ?w = "w\<lparr>w_ticks := Suc (w_ticks w)\<rparr>"
    have "record_failure PostgresRepository wk j dur err (next_status ?D (ClassifyError err))
        (fd_NextRetryCount ?D) (fd_NextRunAt ?D) ?w = (Inr (), w')"
      using assms(1) False
      by (simp add: finalize_def finalize_failure_def bind_tx_def time_Now_def return_tx_def Let_def)
    from record_failure_ok [OF this assms(2)] st False show thesis
      by (intro that [of ?w]) (auto simp: retry_time_def DecideFailure_run_at split: if_splits)
  qed
qed

text \<open>
  What a failed execution becomes.  When the worker's finalization of an error succeeds, the job
  is unlocked with one more retry counted.  It is RETRY_SCHEDULED exactly when the error is retryable
  and the budget is not spent, at the server's Retry-After or the engine's backoff; otherwise it is
  DEAD_LETTERED and has a dead letter.
\<close>

theorem failure_recorded:
  assumes "\<not> errors_Is err ContextCanceled"
    and "finalize PostgresRepository wk j dur (Inl err) w = (Inr (), w')"
  shows "\<exists>r\<in>set (jobs (w_db w')). j_ID r = j_ID j \<and> j_LockedBy r = None \<and> j_LockedUntil r = None \<and>
    j_RetryCount r = j_RetryCount j + 1 \<and> j_LastError r = Some (x_Message (ClassifyError err)) \<and>
    (if x_Retryable (ClassifyError err) \<and> j_RetryCount j < j_MaxRetries j
     then j_Status r = StatusRetryScheduled \<and> j_RunAt r = retry_time (w_clock w) (w_ticks w) j err
     else j_Status r = StatusDeadLettered \<and>
       (\<exists>x\<in>set (dead_letter_jobs (w_db w')). d_OriginalJobID x = j_ID j))"
  using assms(2,1)
proof (cases rule: finalize_failed)
  case (1 w1 tm st)
  from 1(4) show ?thesis
  proof (cases rule: FailExecution_okE)
    case (retry eid eid' r a)
    then have "retry_row (j_RetryCount j + 1) tm (x_Message (ClassifyError err)) (tx_now w1) r
        \<in> set (jobs (w_db w'))"
      by (auto simp: retry_effect_def in_upd_where)
    with retry 1(2,3) show ?thesis
      by (intro bexI) (auto simp: retry_row_def owned_by_def split: if_splits)
  next
    case (dead did eid eid' r a)
    then have "dead_letter_row (j_RetryCount j + 1) (x_Message (ClassifyError err)) (tx_now w1) r
        \<in> set (jobs (w_db w'))"
      by (auto simp: dead_effect_def in_upd_where)
    moreover have "\<exists>x\<in>set (dead_letter_jobs (w_db w')). d_OriginalJobID x = j_ID j"
      using dead(1) by (simp add: dead_effect_def)
    ultimately show ?thesis using dead 1(2)
      by (intro bexI) (auto simp: dead_letter_row_def owned_by_def split: if_splits)
  qed
qed

theorem failure_recorded_witness:
  "\<exists>w'. finalize PostgresRepository ''w1'' sample_claim Second
       (Inl (ExecutionError ''WEBHOOK_HTTP_ERROR'' ''webhook returned HTTP 503'' True 0 []))
       (sample_world sample_db) = (Inr (), w') \<and>
     (\<exists>r\<in>set (jobs (w_db w')). j_ID r = 12 \<and> j_Status r = StatusRetryScheduled \<and>
        j_RunAt r = sample_now + 30 * 1000000000)"
proof -
  let ?err = "ExecutionError ''WEBHOOK_HTTP_ERROR'' ''webhook returned HTTP 503'' True 0 []"
  let ?w = "(sample_world sample_db)\<lparr>w_ticks := 1\<rparr>" and ?at = "sample_now + 30 * 1000000000"
  have b: "j_RetryBackoffSeconds sample_claim = 30" by (simp add: sample_claim_def sample_defs)
  have n: "NextRetryAt sample_now 30 1 = ?at"
    using NextRetryAt_exact [of 30 1 sample_now] by (simp add: backoff_base_def)
  have D: "DecideFailure sample_now 0 3 30 =
      \<lparr>fd_Status = EngRetryScheduled, fd_NextRetryCount = 1, fd_NextRunAt = ?at\<rparr>"
    using n by (simp add: DecideFailure_def)
  have "fresh_ids 3 ?w" using fresh_ids_sample [OF _ sample_ids, of 3] by (simp add: fresh_ids_def)
  then have "fst (FailExecution sample_claim ''w1'' Second (ClassifyError ?err) StatusRetryScheduled 1 ?at ?w)
      = Inr ()"
    using FailExecution_run(1) [of ?w 1 ?at sample_claim "''w1''"] sample_holds
    by (simp add: int4_def jval_ok_def)
  then obtain w' where F: "FailExecution sample_claim ''w1'' Second (ClassifyError ?err)
      StatusRetryScheduled 1 ?at ?w = (Inr (), w')"
    by (metis prod.collapse)
  have "next_status \<lparr>fd_Status = EngRetryScheduled, fd_NextRetryCount = 1, fd_NextRunAt = ?at\<rparr>
      (ClassifyError ?err) = StatusRetryScheduled"
    by (simp add: next_status_def ClassifyError_def)
  with F have "finalize PostgresRepository ''w1'' sample_claim Second (Inl ?err) (sample_world sample_db) =
      (Inr (), w')"
    by (simp add: finalize_def finalize_failure_def record_failure_def bind_tx_def time_Now_def try_tx_def
        return_tx_def Let_def D b retryAfter_def)
  from failure_recorded [OF _ this] this show ?thesis
    by (auto simp: ClassifyError_def retry_time_def retryAfter_def b n)
qed

end
