(* ===== verification/Worker_Registry.thy ===== *)
theory Worker_Registry
  imports Redis_Lock
begin

text \<open>
  The worker registry of internal/worker/registry.go: heartbeats as Redis keys that expire, and the
  set of worker ids through which they are found.  Redis is a parameter, as for the job lock; the
  locale \<open>registry_server\<close> states what the registry relies on.  \<open>time.Format\<close> and \<open>time.Parse\<close> with the
  layout \<open>RFC3339Nano\<close> are parameters as well.
\<close>

section \<open>The registry\<close>

record Info =
  wi_WorkerID :: string
  wi_Status :: string
  wi_LastHeartbeat :: time

text \<open>
  The commands the registry sends: \<open>SET\<close> and \<open>SADD\<close> in one \<open>MULTI\<close> pipeline, \<open>SMEMBERS\<close>, \<open>GET\<close> and \<open>SREM\<close>.
  \<open>rg_fault s\<close> is the error that the next round trip meets, if any; \<open>rg_next\<close> moves on to the round
  trip after it.
\<close>

record 'r registry_client =
  rg_fault :: "'r \<Rightarrow> go_error option"
  rg_next :: "'r \<Rightarrow> 'r"
  rg_get :: "time \<Rightarrow> string \<Rightarrow> 'r \<Rightarrow> string option"
  rg_set_sadd :: "time \<Rightarrow> string \<Rightarrow> string \<Rightarrow> duration \<Rightarrow> string \<Rightarrow> string \<Rightarrow> 'r \<Rightarrow> 'r"
  rg_smembers :: "string \<Rightarrow> 'r \<Rightarrow> string list"
  rg_srem :: "string \<Rightarrow> string \<Rightarrow> 'r \<Rightarrow> 'r"

definition heartbeatKey :: "string \<Rightarrow> string" where
  "heartbeatKey workerID = ''worker:'' @ TrimSpace workerID @ '':heartbeat''"

definition Heartbeat ::
  "'r registry_client \<Rightarrow> (time \<Rightarrow> string) \<Rightarrow> time \<Rightarrow> time \<Rightarrow> string \<Rightarrow> duration \<Rightarrow> 'r \<Rightarrow> go_error option \<times> 'r"
where
  "Heartbeat rg format clock now workerID ttl s =
     (case rg_fault rg s of
        Some e \<Rightarrow> (Some e, rg_next rg s)
      | None \<Rightarrow>
          (None, rg_next rg (rg_set_sadd rg clock (heartbeatKey workerID) (format now) ttl
             ''workers:active'' workerID s)))"

text \<open>The loop over the members, with the workers found so far.\<close>

fun active_loop ::
  "'r registry_client \<Rightarrow> (string \<Rightarrow> time option) \<Rightarrow> time \<Rightarrow> string list \<Rightarrow> Info list \<Rightarrow> 'r \<Rightarrow>
   (go_error + Info list) \<times> 'r" where
  "active_loop rg parse clock [] workers s = (Inr workers, s)"
| "active_loop rg parse clock (i # ids) workers s =
     (case rg_fault rg s of
        Some e \<Rightarrow> (Inl e, rg_next rg s)
      | None \<Rightarrow>
          (case rg_get rg clock (heartbeatKey i) s of
             None \<Rightarrow>
               (let s1 = rg_next rg s;
                    s2 = (case rg_fault rg s1 of
                            Some _ \<Rightarrow> s1 | None \<Rightarrow> rg_srem rg ''workers:active'' i s1)
                in active_loop rg parse clock ids workers (rg_next rg s2))
           | Some value \<Rightarrow>
               active_loop rg parse clock ids
                 (workers @ [\<lparr>wi_WorkerID = i, wi_Status = ''active'',
                    wi_LastHeartbeat = (case parse value of None \<Rightarrow> 0 | Some t \<Rightarrow> t)\<rparr>])
                 (rg_next rg s)))"

definition ActiveWorkers ::
  "'r registry_client \<Rightarrow> (string \<Rightarrow> time option) \<Rightarrow> time \<Rightarrow> 'r \<Rightarrow> (go_error + Info list) \<times> 'r" where
  "ActiveWorkers rg parse clock s =
     (case rg_fault rg s of
        Some e \<Rightarrow> (Inl e, rg_next rg s)
      | None \<Rightarrow> active_loop rg parse clock (rg_smembers rg ''workers:active'' s) [] (rg_next rg s))"

definition NoopRegistry_Heartbeat :: "string \<Rightarrow> duration \<Rightarrow> go_error option" where
  "NoopRegistry_Heartbeat workerID ttl = None"

definition NoopRegistry_ActiveWorkers :: "go_error + Info list" where
  "NoopRegistry_ActiveWorkers = Inr []"

section \<open>The laws of the server\<close>

locale registry_server =
  fixes rg :: "'r registry_client"
  assumes next_get: "rg_get rg t k (rg_next rg s) = rg_get rg t k s"
    and next_members: "rg_smembers rg k (rg_next rg s) = rg_smembers rg k s"
    and set_get: "\<lbrakk>1000000 \<le> sint ttl; t \<le> t'\<rbrakk> \<Longrightarrow>
          rg_get rg t' k (rg_set_sadd rg t k v ttl sk m s) = (if t' < t + lease_time ttl then Some v else None)"
    and set_get_other: "k' \<noteq> k \<Longrightarrow> rg_get rg t' k' (rg_set_sadd rg t k v ttl sk m s) = rg_get rg t' k' s"
    and sadd_members: "set (rg_smembers rg sk (rg_set_sadd rg t k v ttl sk m s)) = insert m (set (rg_smembers rg sk s))"
    and srem_members: "set (rg_smembers rg sk (rg_srem rg sk m s)) = set (rg_smembers rg sk s) - {m}"
    and srem_get: "rg_get rg t k (rg_srem rg sk m s) = rg_get rg t k s"
begin

text \<open>A heartbeat is found for its time to live, and gone after it.\<close>

lemma heartbeat_key:
  assumes "Heartbeat rg format t now wk ttl s = (None, s')" and "1000000 \<le> sint ttl" and "t \<le> t'"
  shows "rg_get rg t' (heartbeatKey wk) s' = (if t' < t + lease_time ttl then Some (format now) else None)"
    and "wk \<in> set (rg_smembers rg ''workers:active'' s')"
proof -
  have s': "s' = rg_next rg (rg_set_sadd rg t (heartbeatKey wk) (format now) ttl ''workers:active'' wk s)"
    using assms(1) by (auto simp: Heartbeat_def split: option.splits)
  show "rg_get rg t' (heartbeatKey wk) s' = (if t' < t + lease_time ttl then Some (format now) else None)"
    unfolding s' next_get using set_get [OF assms(2,3)] .
  show "wk \<in> set (rg_smembers rg ''workers:active'' s')"
    unfolding s' next_members sadd_members by simp
qed

lemma active_loop_infos:
  assumes "active_loop rg parse clock ids ws s = (Inr out, s')"
  shows "map wi_WorkerID out = map wi_WorkerID ws @ filter (\<lambda>i. rg_get rg clock (heartbeatKey i) s \<noteq> None) ids"
    and "\<forall>x\<in>set out. x \<in> set ws \<or> (\<exists>v. rg_get rg clock (heartbeatKey (wi_WorkerID x)) s = Some v \<and>
           wi_LastHeartbeat x = (case parse v of None \<Rightarrow> 0 | Some t \<Rightarrow> t))"
proof -
  have "map wi_WorkerID out = map wi_WorkerID ws @ filter (\<lambda>i. rg_get rg clock (heartbeatKey i) s \<noteq> None) ids \<and>
    (\<forall>x\<in>set out. x \<in> set ws \<or> (\<exists>v. rg_get rg clock (heartbeatKey (wi_WorkerID x)) s = Some v \<and>
           wi_LastHeartbeat x = (case parse v of None \<Rightarrow> 0 | Some t \<Rightarrow> t)))"
    using assms
  proof (induction ids arbitrary: ws s)
    case Nil
    then show ?case by simp
  next
    case (Cons i ids)
    from Cons(2) have nf: "rg_fault rg s = None" by (auto split: option.splits)
    show ?case
    proof (cases "rg_get rg clock (heartbeatKey i) s")
      case None
      define s2 where "s2 = (case rg_fault rg (rg_next rg s) of
          Some _ \<Rightarrow> rg_next rg s | None \<Rightarrow> rg_srem rg ''workers:active'' i (rg_next rg s))"
      have g: "rg_get rg t k (rg_next rg s2) = rg_get rg t k s" for t k
        by (simp add: s2_def next_get srem_get split: option.splits)
      from Cons(2) nf None have "active_loop rg parse clock ids ws (rg_next rg s2) = (Inr out, s')"
        by (simp add: s2_def Let_def)
      from Cons(1) [OF this] None show ?thesis by (simp add: g)
    next
      case (Some v)
      let ?x = "\<lparr>wi_WorkerID = i, wi_Status = ''active'',
          wi_LastHeartbeat = (case parse v of None \<Rightarrow> 0 | Some t \<Rightarrow> t)\<rparr>"
      from Cons(2) nf Some have "active_loop rg parse clock ids (ws @ [?x]) (rg_next rg s) = (Inr out, s')"
        by simp
      from Cons(1) [OF this] Some show ?thesis by (auto simp: next_get)
    qed
  qed
  then show "map wi_WorkerID out = map wi_WorkerID ws @ filter (\<lambda>i. rg_get rg clock (heartbeatKey i) s \<noteq> None) ids"
    and "\<forall>x\<in>set out. x \<in> set ws \<or> (\<exists>v. rg_get rg clock (heartbeatKey (wi_WorkerID x)) s = Some v \<and>
           wi_LastHeartbeat x = (case parse v of None \<Rightarrow> 0 | Some t \<Rightarrow> t))"
    by simp_all
qed

lemma ActiveWorkers_infos:
  assumes "ActiveWorkers rg parse clock s = (Inr out, s')"
  shows "map wi_WorkerID out =
      filter (\<lambda>i. rg_get rg clock (heartbeatKey i) s \<noteq> None) (rg_smembers rg ''workers:active'' s)"
    and "\<forall>x\<in>set out. \<exists>v. rg_get rg clock (heartbeatKey (wi_WorkerID x)) s = Some v \<and>
           wi_LastHeartbeat x = (case parse v of None \<Rightarrow> 0 | Some t \<Rightarrow> t)"
proof -
  have L: "active_loop rg parse clock (rg_smembers rg ''workers:active'' s) [] (rg_next rg s) = (Inr out, s')"
    using assms by (auto simp: ActiveWorkers_def split: option.splits)
  show "map wi_WorkerID out =
      filter (\<lambda>i. rg_get rg clock (heartbeatKey i) s \<noteq> None) (rg_smembers rg ''workers:active'' s)"
    using active_loop_infos(1) [OF L] by (simp add: next_get)
  show "\<forall>x\<in>set out. \<exists>v. rg_get rg clock (heartbeatKey (wi_WorkerID x)) s = Some v \<and>
           wi_LastHeartbeat x = (case parse v of None \<Rightarrow> 0 | Some t \<Rightarrow> t)"
    using active_loop_infos(2) [OF L] by (auto simp: next_get)
qed

lemma worker_listed:
  assumes "Heartbeat rg format t now wk ttl s = (None, s1)" and "1000000 \<le> sint ttl" and "t \<le> t'"
    and "ActiveWorkers rg parse t' s1 = (Inr out, s2)" and "parse (format now) = Some now"
  shows "if t' < t + lease_time ttl
    then \<exists>x\<in>set out. wi_WorkerID x = wk \<and> wi_LastHeartbeat x = now
    else wk \<notin> wi_WorkerID ` set out"
proof -
  note H = heartbeat_key [OF assms(1-3)]
  note A = ActiveWorkers_infos [OF assms(4)]
  have ids: "wi_WorkerID ` set out =
      {i \<in> set (rg_smembers rg ''workers:active'' s1). rg_get rg t' (heartbeatKey i) s1 \<noteq> None}"
    using arg_cong [OF A(1), of set] by simp
  show ?thesis
  proof (cases "t' < t + lease_time ttl")
    case True
    with H have v: "rg_get rg t' (heartbeatKey wk) s1 = Some (format now)" by simp
    with H(2) ids have "wk \<in> wi_WorkerID ` set out" by simp
    then obtain x where x: "x \<in> set out" "wi_WorkerID x = wk" by blast
    with A(2) v assms(5) have "wi_LastHeartbeat x = now" by fastforce
    with True x show ?thesis by auto
  next
    case False
    with H ids show ?thesis by simp
  qed
qed

end

section \<open>A server that satisfies them\<close>

record registry_store =
  rs_faults :: "go_error option list"
  rs_keys :: ttl_store
  rs_sets :: "string \<Rightarrow> string list"

definition registry_ttl :: "registry_store registry_client" where
  "registry_ttl =
     \<lparr>rg_fault = (\<lambda>s. case rs_faults s of Some e # _ \<Rightarrow> Some e | _ \<Rightarrow> None),
      rg_next = (\<lambda>s. s\<lparr>rs_faults := tl (rs_faults s)\<rparr>),
      rg_get = (\<lambda>t k s. ttl_get t k (rs_keys s)),
      rg_set_sadd = (\<lambda>t k v ttl sk m s.
        s\<lparr>rs_keys := ttl_put k (Some (v, if sint ttl \<le> 0 then None else Some (t + lease_time ttl))) (rs_keys s),
          rs_sets := (rs_sets s)(sk := List.insert m (rs_sets s sk))\<rparr>),
      rg_smembers = (\<lambda>sk s. rs_sets s sk),
      rg_srem = (\<lambda>sk m s. s\<lparr>rs_sets := (rs_sets s)(sk := filter (\<lambda>x. x \<noteq> m) (rs_sets s sk))\<rparr>)\<rparr>"

interpretation reg: registry_server registry_ttl
  by unfold_locales (auto simp: registry_ttl_def ttl_get_put)

section \<open>Heartbeats and the list of workers\<close>

text \<open>
  A worker is listed while its heartbeat lives.  After a heartbeat with a time to live of at least a
  millisecond the list of active workers contains the worker with the instant of the heartbeat until that time has
  passed, and no longer afterwards.  Redis behaves as documented, and the instant survives formatting
  and parsing.
\<close>

theorem worker_listed_while_alive:
  assumes "registry_server rg" and "parse (format now) = Some now"
    and "Heartbeat rg format t now wk ttl s = (None, s1)" and "1000000 \<le> sint ttl" and "t \<le> t'"
    and "ActiveWorkers rg parse t' s1 = (Inr out, s2)"
  shows "if t' < t + lease_time ttl
    then \<exists>x\<in>set out. wi_WorkerID x = wk \<and> wi_LastHeartbeat x = now
    else wk \<notin> wi_WorkerID ` set out"
  using registry_server.worker_listed [OF assms(1,3,4,5,6,2)] .

theorem worker_listed_while_alive_witness:
  "\<exists>s1 out s2. Heartbeat registry_ttl (\<lambda>_. ''T'') 0 77 ''w1'' (30 * Second)
       \<lparr>rs_faults = [], rs_keys = \<lparr>ts_fault = None, ts_keys = Map.empty\<rparr>, rs_sets = (\<lambda>_. [])\<rparr> = (None, s1) \<and>
     ActiveWorkers registry_ttl (\<lambda>_. Some 77) 29000000000 s1 = (Inr out, s2) \<and>
     (\<exists>x\<in>set out. wi_WorkerID x = ''w1'' \<and> wi_LastHeartbeat x = 77)"
proof -
  let ?s = "\<lparr>rs_faults = [], rs_keys = \<lparr>ts_fault = None, ts_keys = Map.empty\<rparr>, rs_sets = (\<lambda>_. [])\<rparr>"
  obtain s1 where H: "Heartbeat registry_ttl (\<lambda>_. ''T'') 0 77 ''w1'' (30 * Second) ?s = (None, s1)"
      and s1: "rs_faults s1 = []"
    by (simp add: Heartbeat_def registry_ttl_def)
  have "\<exists>out s2. active_loop registry_ttl (\<lambda>_. Some 77) 29000000000 ids ws s = (Inr out, s2)"
    if "rs_faults s = []" for ids ws s
    using that
    by (induction ids arbitrary: ws s) (auto simp: registry_ttl_def Let_def split: option.splits)
  then obtain out s2 where A: "ActiveWorkers registry_ttl (\<lambda>_. Some 77) 29000000000 s1 = (Inr out, s2)"
    using s1 by (fastforce simp: ActiveWorkers_def registry_ttl_def)
  have "29000000000 < 0 + lease_time (30 * Second)" by (simp add: lease_time_def duration_Milliseconds_def)
  with worker_listed_while_alive [OF reg.registry_server_axioms _ H _ _ A] H A show ?thesis by auto
qed

end
