(* ===== verification/Worker_Run.thy ===== *)
theory Worker_Run
  imports Worker_Properties Worker_Registry Claim_Properties "HOL-Library.Multiset"
begin

text \<open>
  \<open>Run\<close>, \<open>consume\<close> and \<open>heartbeatLoop\<close> of internal/worker/service.go.  The run loop is a state machine:
  the main loop polls and hands the claimed jobs over an unbuffered channel to as many slots as the
  worker has, each slot processes one job at a time, and a cancelled context may end the main loop and
  each slot at any of their selects.
\<close>

section \<open>States and steps\<close>

text \<open>\<open>WithLockManager\<close> keeps the worker's lock manager when it is given none.\<close>

definition WithLockManager :: "'l LockManager option \<Rightarrow> 'l LockManager \<Rightarrow> 'l LockManager" where
  "WithLockManager lockManager own = (case lockManager of None \<Rightarrow> own | Some lm \<Rightarrow> lm)"

text \<open>
  \<open>ru_db\<close> is the database, \<open>ru_todo\<close> the claimed jobs that the main loop still has to hand out,
  \<open>ru_slots\<close> the job of each slot, \<open>ru_live\<close> whether a slot still receives and \<open>ru_running\<close> whether the
  main loop runs.  The last three fields record every job claimed, finished and dropped.
\<close>

record run_state =
  ru_db :: db
  ru_todo :: "Job list"
  ru_slots :: "Job option list"
  ru_live :: "bool list"
  ru_running :: bool
  ru_cancelled :: bool
  ru_claimed :: "Job list"
  ru_done :: "Job list"
  ru_dropped :: "Job list"

definition run_init :: "worker \<Rightarrow> db \<Rightarrow> run_state" where
  "run_init s d =
     \<lparr>ru_db = d, ru_todo = [], ru_slots = replicate (nat (wk_concurrency s)) None,
      ru_live = replicate (nat (wk_concurrency s)) True, ru_running = True, ru_cancelled = False,
      ru_claimed = [], ru_done = [], ru_dropped = []\<rparr>"

text \<open>
  The steps of \<open>consume\<close> in a slot.  \<open>finish\<close>: its \<open>ProcessJob\<close> returns.  \<open>retire\<close>: an idle slot returns,
  because the context ended or the channel is closed.  It receives a job in the step \<open>send\<close> below.
\<close>

inductive consume :: "run_state \<Rightarrow> run_state \<Rightarrow> bool" where
  finish: "\<lbrakk>i < length (ru_slots st); ru_slots st ! i = Some j\<rbrakk> \<Longrightarrow>
     consume st (st\<lparr>ru_slots := (ru_slots st)[i := None], ru_done := ru_done st @ [j]\<rparr>)"
| retire: "\<lbrakk>i < length (ru_slots st); ru_slots st ! i = None; ru_live st ! i;
     ru_cancelled st \<or> \<not> ru_running st\<rbrakk> \<Longrightarrow>
     consume st (st\<lparr>ru_live := (ru_live st)[i := False]\<rparr>)"

text \<open>
  The steps of \<open>Run\<close> with its slots.  \<open>tick\<close>: the ticker fires; the poll runs in any world over the
  database.  \<open>send\<close>: the main loop hands a job to an idle slot; Go's select may still choose this after
  the cancellation.  \<open>leave\<close>: the main loop returns and closes the channel; the jobs it has not handed out
  are dropped.  \<open>work\<close>: a transaction of a slot's \<open>ProcessJob\<close> or of another process commits.  \<open>cancel\<close>:
  the context ends.
\<close>

inductive run_step :: "worker \<Rightarrow> run_state \<Rightarrow> run_state \<Rightarrow> bool" for s where
  tick: "\<lbrakk>ru_running st; ru_todo st = []; w_db w = ru_db st;
     poll_tick PostgresRepository s w = (Inr claimed, w')\<rbrakk> \<Longrightarrow>
     run_step s st (st\<lparr>ru_db := w_db w', ru_todo := claimed, ru_claimed := ru_claimed st @ claimed\<rparr>)"
| send: "\<lbrakk>ru_running st; ru_todo st = j # js; i < length (ru_slots st); ru_slots st ! i = None;
     ru_live st ! i\<rbrakk> \<Longrightarrow>
     run_step s st (st\<lparr>ru_todo := js, ru_slots := (ru_slots st)[i := Some j]\<rparr>)"
| leave: "\<lbrakk>ru_running st; ru_cancelled st\<rbrakk> \<Longrightarrow>
     run_step s st (st\<lparr>ru_running := False, ru_dropped := ru_dropped st @ ru_todo st, ru_todo := []\<rparr>)"
| slot: "consume st st' \<Longrightarrow> run_step s st st'"
| work: "\<lbrakk>db_ok d; extends (ru_db st) d\<rbrakk> \<Longrightarrow> run_step s st (st\<lparr>ru_db := d\<rparr>)"
| cancel: "run_step s st (st\<lparr>ru_cancelled := True\<rparr>)"

inductive_cases run_stepE: "run_step s st st'"

inductive_cases consumeE: "consume st st'"

definition busy :: "run_state \<Rightarrow> Job list" where
  "busy st = map the (filter (\<lambda>x. x \<noteq> None) (ru_slots st))"

text \<open>\<open>Run\<close> returns when the main loop and, after \<open>wg.Wait\<close>, every slot has returned.\<close>

definition stopped :: "run_state \<Rightarrow> bool" where
  "stopped st \<longleftrightarrow> \<not> ru_running st \<and> busy st = [] \<and> True \<notin> set (ru_live st)"

text \<open>
  One heartbeat as soon as the loop starts and one per tick until the context ends; errors are only
  logged.  The list has the instants of the heartbeats, by the clock of Redis and by that of the worker.
\<close>

fun heartbeatLoop ::
  "'r registry_client \<Rightarrow> (time \<Rightarrow> string) \<Rightarrow> worker \<Rightarrow> (time \<times> time) list \<Rightarrow> 'r \<Rightarrow> 'r" where
  "heartbeatLoop rg format s [] st = st"
| "heartbeatLoop rg format s ((clock, now) # beats) st =
     heartbeatLoop rg format s beats
       (snd (Heartbeat rg format clock now (wk_ID s) (wk_heartbeatTTL s) st))"

section \<open>The slots\<close>

text \<open>Every claim is in exactly one place, known to the database, and the slots are as many as configured.\<close>

definition run_inv :: "worker \<Rightarrow> run_state \<Rightarrow> bool" where
  "run_inv s st \<longleftrightarrow>
     length (ru_slots st) = nat (wk_concurrency s) \<and> length (ru_live st) = nat (wk_concurrency s) \<and>
     mset (ru_claimed st) = mset (ru_todo st) + mset (busy st) + mset (ru_done st) + mset (ru_dropped st) \<and>
     (ru_dropped st \<noteq> [] \<longrightarrow> ru_cancelled st) \<and> (\<not> ru_running st \<longrightarrow> ru_todo st = []) \<and>
     db_ok (ru_db st) \<and> (\<forall>j\<in>set (ru_claimed st). claim_ok (ru_db st) j)"

lemma busy_update:
  assumes "i < length xs"
  shows "mset (map the (filter (\<lambda>x. x \<noteq> None) (xs[i := Some j]))) =
      mset (map the (filter (\<lambda>x. x \<noteq> None) (xs[i := None]))) + {#j#}"
proof -
  have "xs = take i xs @ xs ! i # drop (Suc i) xs" by (rule id_take_nth_drop [OF assms])
  then obtain ys z zs where x: "xs = ys @ z # zs" "length ys = i"
    using assms by (metis length_take min.absorb4)
  show ?thesis unfolding x(1) x(2) [symmetric] by simp
qed

lemma busy_finish:
  assumes "i < length (ru_slots st)" and "ru_slots st ! i = Some j"
  shows "length (busy (st\<lparr>ru_slots := (ru_slots st)[i := None], ru_done := ru_done st @ [j]\<rparr>)) < length (busy st)"
proof -
  have u: "(ru_slots st)[i := Some j] = ru_slots st" using assms by (metis list_update_id)
  have "mset (busy st) = mset (busy (st\<lparr>ru_slots := (ru_slots st)[i := None], ru_done := ru_done st @ [j]\<rparr>)) + {#j#}"
    using busy_update [OF assms(1), of j] unfolding u by (simp add: busy_def)
  from arg_cong [OF this, of size] show ?thesis unfolding size_union size_mset by simp
qed

lemma busy_Nil: "busy st = [] \<longleftrightarrow> (\<forall>x\<in>set (ru_slots st). x = None)"
  by (simp add: busy_def filter_empty_conv)

lemma run_step_inv: "run_step s st st' \<Longrightarrow> run_inv s st \<Longrightarrow> run_inv s st'"
proof (induction rule: run_step.induct)
  case (tick st w claimed w')
  have "db_ok (w_db w)" using tick by (simp add: run_inv_def)
  from pg.poll_tick_carries [OF this tick(4)] tick show ?case
    by (auto simp: run_inv_def busy_def intro: claim_ok_extends)
next
  case (send st j js i)
  then have "(ru_slots st)[i := None] = ru_slots st" by (metis list_update_id)
  with busy_update [of i "ru_slots st" j] send show ?case by (simp add: run_inv_def busy_def)
next
  case (slot st st')
  then show ?case
  proof (induction rule: consume.induct)
    case (finish i st j)
    then have "(ru_slots st)[i := Some j] = ru_slots st" by (metis list_update_id)
    with busy_update [of i "ru_slots st" j] finish show ?case by (simp add: run_inv_def busy_def)
  qed (simp add: run_inv_def busy_def)
qed (auto simp: run_inv_def busy_def intro: claim_ok_extends)

lemma run_init_inv: "db_ok d \<Longrightarrow> run_inv s (run_init s d)"
  by (simp add: run_inv_def run_init_def busy_def)

lemma run_steps_inv: "(run_step s)\<^sup>*\<^sup>* st st' \<Longrightarrow> run_inv s st \<Longrightarrow> run_inv s st'"
  by (induction rule: rtranclp_induct) (auto intro: run_step_inv)

lemma busy_bound: "length (busy st) \<le> length (ru_slots st)"
  by (simp add: busy_def)

lemma busy_claimed: "run_inv s st \<Longrightarrow> set (busy st) \<subseteq> set (ru_claimed st)"
proof -
  assume "run_inv s st"
  then have "mset (ru_claimed st) = mset (ru_todo st @ busy st @ ru_done st @ ru_dropped st)"
    by (simp add: run_inv_def add.assoc)
  from mset_eq_setD [OF this] show ?thesis by auto
qed

text \<open>
  C26: every claim goes to one slot.  In every run of a worker from a well-formed database no more jobs
  are in progress than the worker has slots.  Each time a job was claimed it is either still to be handed
  out, in exactly one slot, finished once, or dropped, which happens only after the context was
  cancelled.  A poll waits until the previous batch is handed out.  The job of every slot is known to
  the database with its attempt, as processing it requires.
\<close>

theorem worker_slots_exact:
  assumes "db_ok d" and "(run_step s)\<^sup>*\<^sup>* (run_init s d) st"
  shows "length (busy st) \<le> nat (wk_concurrency s) \<and>
    mset (ru_claimed st) = mset (ru_todo st) + mset (busy st) + mset (ru_done st) + mset (ru_dropped st) \<and>
    (ru_dropped st \<noteq> [] \<longrightarrow> ru_cancelled st) \<and>
    (\<forall>st'. run_step s st st' \<longrightarrow> ru_claimed st' \<noteq> ru_claimed st \<longrightarrow> ru_todo st = []) \<and>
    db_ok (ru_db st) \<and> (\<forall>j\<in>set (busy st). claim_ok (ru_db st) j)"
proof -
  have inv: "run_inv s st" by (rule run_steps_inv [OF assms(2) run_init_inv [OF assms(1)]])
  have "ru_todo st = []" if "run_step s st st'" "ru_claimed st' \<noteq> ru_claimed st" for st'
    using that by (cases rule: run_stepE) (auto elim!: consumeE)
  with inv busy_bound [of st] busy_claimed [OF inv] show ?thesis by (auto simp: run_inv_def)
qed

text \<open>A worker with one slot takes the more urgent job of the sample database.\<close>

definition single_worker :: worker where
  "single_worker = worker_NewService '''' ''w2'' 1 1 Second Minute"

lemma sample_poll:
  "\<exists>j w'. poll_tick PostgresRepository single_worker (sample_world sample_db) = (Inr [j], w') \<and> j_ID j = 11"
  by (simp add: poll_tick_def try_tx_def single_worker_def worker_NewService_def PostgresRepository_def
      RecoverExpiredRunningJobs_def expired_def query_def claim_eval w_now_def skip_locked_def begun_def)

theorem worker_slots_exact_witness:
  "\<exists>st. (run_step single_worker)\<^sup>*\<^sup>* (run_init single_worker sample_db) st \<and> map j_ID (busy st) = [11] \<and>
     wk_concurrency single_worker = 1 \<and> mset (ru_claimed st) = mset (busy st) \<and>
     (\<forall>j\<in>set (busy st). claim_ok (ru_db st) j)"
proof -
  obtain j w' where P: "poll_tick PostgresRepository single_worker (sample_world sample_db) = (Inr [j], w')"
    and j: "j_ID j = 11" using sample_poll by blast
  define st0 where "st0 = run_init single_worker sample_db"
  define st1 where "st1 = st0\<lparr>ru_db := w_db w', ru_todo := [j], ru_claimed := ru_claimed st0 @ [j]\<rparr>"
  define st2 where "st2 = st1\<lparr>ru_todo := [], ru_slots := (ru_slots st1)[0 := Some j]\<rparr>"
  have "run_step single_worker st0 st1"
    unfolding st1_def by (rule run_step.tick [OF _ _ _ P]) (simp_all add: st0_def run_init_def)
  moreover have "run_step single_worker st1 st2"
    unfolding st2_def
    by (rule run_step.send) (simp_all add: st1_def st0_def run_init_def single_worker_def worker_NewService_def)
  ultimately have R: "(run_step single_worker)\<^sup>*\<^sup>* st0 st2" by (meson rtranclp.simps)
  have "busy st2 = [j]" "ru_claimed st2 = [j]"
    by (simp_all add: st2_def st1_def st0_def run_init_def busy_def single_worker_def worker_NewService_def)
  with worker_slots_exact [OF sample_db_ok R [unfolded st0_def]] R j show ?thesis
    unfolding st0_def by (intro exI [of _ st2]) (simp add: single_worker_def worker_NewService_def)
qed

section \<open>Shutdown\<close>

definition live_slots :: "run_state \<Rightarrow> nat" where
  "live_slots st = length (filter id (ru_live st))"

lemma retire_one:
  assumes "i < length ls" and "ls ! i"
  shows "length (filter id (ls[i := False])) < length (filter id ls)"
proof -
  have "ls[i := False] = take i ls @ False # drop (Suc i) ls"
    by (rule upd_conv_take_nth_drop [OF assms(1)])
  moreover have "ls = take i ls @ True # drop (Suc i) ls"
    using id_take_nth_drop [OF assms(1)] assms(2) by simp
  then have "length (filter id ls) = length (filter id (take i ls @ True # drop (Suc i) ls))" by simp
  ultimately show ?thesis by simp
qed

text \<open>Once the main loop has returned, the slots can always finish and return.\<close>

lemma run_drains:
  assumes "run_inv s st" and "\<not> ru_running st"
  shows "\<exists>st'. (run_step s)\<^sup>*\<^sup>* st st' \<and> stopped st'"
  using assms
proof (induction "length (busy st) + live_slots st" arbitrary: st rule: less_induct)
  case less
  have again: ?case if "run_step s st st1" "\<not> ru_running st1"
    "length (busy st1) + live_slots st1 < length (busy st) + live_slots st" for st1
    using less(1) [OF that(3) run_step_inv [OF that(1) less(2)] that(2)] that(1)
    by (meson converse_rtranclp_into_rtranclp)
  consider (busy) j where "Some j \<in> set (ru_slots st)"
    | (live) "busy st = []" "True \<in> set (ru_live st)" | (stopped) "stopped st"
    using less(3) unfolding stopped_def busy_Nil by (metis option.exhaust)
  then show ?case
  proof cases
    case busy
    then obtain i where i: "i < length (ru_slots st)" "ru_slots st ! i = Some j" by (metis in_set_conv_nth)
    from again [OF run_step.slot [OF consume.finish [OF i]]] busy_finish [OF i] less(3) show ?thesis
      by (simp add: live_slots_def)
  next
    case live
    then obtain i where i: "i < length (ru_live st)" "ru_live st ! i" by (metis in_set_conv_nth)
    moreover have "length (ru_live st) = length (ru_slots st)" using less(2) by (simp add: run_inv_def)
    ultimately have "run_step s st (st\<lparr>ru_live := (ru_live st)[i := False]\<rparr>)"
      using live(1) [unfolded busy_Nil] less(3) i(1) by (intro run_step.slot consume.retire) auto
    from again [OF this] retire_one [OF i] less(3) live(1) show ?thesis
      by (simp add: live_slots_def busy_def)
  next
    case stopped
    then show ?thesis by blast
  qed
qed

text \<open>
  After the main loop has returned, a step of a slot uses up a job in progress or a live slot, every other
  step leaves both alone, and a worker that has not stopped has a slot with a step.
\<close>

definition remaining :: "run_state \<Rightarrow> nat" where
  "remaining st = length (busy st) + live_slots st"

lemma slot_step_remaining:
  assumes "run_inv s st" and "consume st st'"
  shows "remaining st' < remaining st"
  using assms(2)
proof (cases rule: consume.cases)
  case (finish i j)
  with busy_finish [of i st j] show ?thesis by (simp add: remaining_def live_slots_def)
next
  case (retire i)
  with assms(1) retire_one [of i "ru_live st"] show ?thesis
    by (simp add: remaining_def live_slots_def busy_def run_inv_def)
qed

lemma left_step:
  assumes "run_inv s st" and "\<not> ru_running st" and "run_step s st st'"
  shows "\<not> ru_running st' \<and> ru_claimed st' = ru_claimed st \<and> remaining st' \<le> remaining st"
  using assms(3)
proof (cases rule: run_step.cases)
  case slot
  then have "ru_running st' = ru_running st" "ru_claimed st' = ru_claimed st" by (auto elim!: consumeE)
  with slot_step_remaining [OF assms(1) slot] assms(2) show ?thesis by simp
qed (use assms(2) in \<open>simp_all add: remaining_def live_slots_def busy_def\<close>)

lemma stopped_remaining: "stopped st \<longleftrightarrow> \<not> ru_running st \<and> remaining st = 0"
  by (auto simp: stopped_def remaining_def live_slots_def filter_empty_conv)

lemma slot_step_exists:
  assumes "run_inv s st" and "\<not> ru_running st" and "\<not> stopped st"
  shows "\<exists>st'. consume st st'"
proof (cases "busy st = []")
  case True
  with assms(2,3) obtain i where i: "i < length (ru_live st)" "ru_live st ! i"
    unfolding stopped_def by (metis in_set_conv_nth)
  moreover have "length (ru_live st) = length (ru_slots st)" using assms(1) by (simp add: run_inv_def)
  ultimately have "i < length (ru_slots st)" "ru_slots st ! i = None" "ru_live st ! i"
    using True [unfolded busy_Nil] by auto
  from consume.retire [OF this] assms(2) show ?thesis by blast
next
  case False
  then obtain j where "Some j \<in> set (ru_slots st)" unfolding busy_Nil by (metis option.exhaust)
  then obtain i where "i < length (ru_slots st)" "ru_slots st ! i = Some j" by (metis in_set_conv_nth)
  from consume.finish [OF this] show ?thesis by blast
qed

text \<open>
  A complete run of the worker.  Its main loop leaves at some time after the cancellation (Go's select
  does not pass over a ready case for ever), and slots that can step do step: their \<open>ProcessJob\<close> calls
  return.
\<close>

definition worker_run :: "worker \<Rightarrow> db \<Rightarrow> (nat \<Rightarrow> run_state) \<Rightarrow> bool" where
  "worker_run s d st \<longleftrightarrow> st 0 = run_init s d \<and> (\<forall>k. run_step s (st k) (st (Suc k)))"

definition leaves_fairly :: "(nat \<Rightarrow> run_state) \<Rightarrow> bool" where
  "leaves_fairly st \<longleftrightarrow> (\<forall>k. ru_cancelled (st k) \<longrightarrow> (\<exists>m\<ge>k. \<not> ru_running (st m)))"

definition slots_fairly :: "(nat \<Rightarrow> run_state) \<Rightarrow> bool" where
  "slots_fairly st \<longleftrightarrow>
     (\<forall>k. (\<exists>st'. consume (st k) st') \<longrightarrow> (\<exists>m\<ge>k. consume (st m) (st (Suc m))))"

lemma worker_run_inv: "db_ok d \<Longrightarrow> worker_run s d st \<Longrightarrow> run_inv s (st k)"
  by (induction k) (auto simp: worker_run_def run_init_inv intro: run_step_inv)

lemma worker_run_left:
  assumes "db_ok d" and "worker_run s d st" and "\<not> ru_running (st k)" and "k \<le> m"
  shows "\<not> ru_running (st m) \<and> ru_claimed (st m) = ru_claimed (st k) \<and> remaining (st m) \<le> remaining (st k)"
  using assms(4)
proof (induction rule: dec_induct)
  case base
  with assms(3) show ?case by simp
next
  case (step m)
  with assms(2) left_step [OF worker_run_inv [OF assms(1,2)], of m "st (Suc m)"] show ?case
    by (simp add: worker_run_def)
qed

lemma worker_run_drains:
  assumes "db_ok d" and "worker_run s d st" and "slots_fairly st" and "\<not> ru_running (st k)"
  shows "\<exists>m\<ge>k. stopped (st m)"
  using assms(4)
proof (induction "remaining (st k)" arbitrary: k rule: less_induct)
  case less
  note inv = worker_run_inv [OF assms(1,2)] and left = worker_run_left [OF assms(1,2)]
  show ?case
  proof (cases "stopped (st k)")
    case False
    from slot_step_exists [OF inv less(2) this] assms(3) obtain m where
      m: "k \<le> m" "consume (st m) (st (Suc m))" unfolding slots_fairly_def by blast
    with left [OF less(2) m(1)] slot_step_remaining [OF inv m(2)] left [OF less(2), of "Suc m"]
    have "remaining (st (Suc m)) < remaining (st k)" "\<not> ru_running (st (Suc m))" by simp_all
    from less(1) [OF this] m(1) show ?thesis by (meson Suc_leD order_trans)
  qed blast
qed


text \<open>A worker with one slot is cancelled at once: its main loop leaves, its slot retires.\<close>

definition sample_shutdown :: "nat \<Rightarrow> run_state" where
  "sample_shutdown k =
     (run_init single_worker sample_db)\<lparr>ru_cancelled := 1 \<le> k, ru_running := k < 2, ru_live := [k < 3]\<rparr>"

lemma sample_shutdown_steps: "run_step single_worker (sample_shutdown k) (sample_shutdown (Suc k))"
proof -
  note d = sample_shutdown_def run_init_def single_worker_def worker_NewService_def
  consider "k = 0" | "k = 1" | "k = 2" | "3 \<le> k" by linarith
  then show ?thesis
  proof cases
    case 1
    with run_step.cancel [of single_worker "sample_shutdown 0"] show ?thesis by (simp add: d)
  next
    case 2
    with run_step.leave [of "sample_shutdown 1" single_worker] show ?thesis by (simp add: d)
  next
    case 3
    with run_step.slot [OF consume.retire [of 0 "sample_shutdown 2"], of single_worker] show ?thesis
      by (simp add: d)
  next
    case 4
    with run_step.work [of sample_db "sample_shutdown k" single_worker] show ?thesis by (simp add: d)
  qed
qed


text \<open>
  A worker can always shut down.  From every state that a run reaches, cancelling the context lets
  the main loop and, when their jobs are processed, all slots return, and no step after the main loop
  returned claims another job or starts one.
\<close>

theorem worker_shuts_down:
  assumes "db_ok d" and "(run_step s)\<^sup>*\<^sup>* (run_init s d) st"
  shows "(\<exists>st'. (run_step s)\<^sup>*\<^sup>* (st\<lparr>ru_cancelled := True\<rparr>) st' \<and> stopped st') \<and>
    (\<not> ru_running st \<longrightarrow> (\<forall>st'. run_step s st st' \<longrightarrow>
       ru_claimed st' = ru_claimed st \<and> length (busy st') \<le> length (busy st)))"
proof
  have inv: "run_inv s st" by (rule run_steps_inv [OF assms(2) run_init_inv [OF assms(1)]])
  define c where "c = st\<lparr>ru_cancelled := True\<rparr>"
  have c: "run_inv s c" "ru_cancelled c" using run_step_inv [OF run_step.cancel inv] by (simp_all add: c_def)
  show "\<exists>st'. (run_step s)\<^sup>*\<^sup>* (st\<lparr>ru_cancelled := True\<rparr>) st' \<and> stopped st'"
  proof (cases "ru_running c")
    case False
    with run_drains [OF c(1)] show ?thesis by (simp add: c_def)
  next
    case True
    note l = run_step.leave [OF True c(2), of s]
    from run_drains [OF run_step_inv [OF l c(1)]] l show ?thesis
      by (simp add: c_def) (meson converse_rtranclp_into_rtranclp)
  qed
  have "ru_claimed st' = ru_claimed st \<and> length (busy st') \<le> length (busy st)"
    if "\<not> ru_running st" "run_step s st st'" for st'
    using that(2)
  proof (cases rule: run_step.cases)
    case slot
    then show ?thesis
    proof (cases rule: consume.cases)
      case (finish i j)
      with busy_finish [of i st j] show ?thesis by simp
    qed (simp add: busy_def)
  qed (use that(1) in \<open>simp_all add: busy_def\<close>)
  then show "\<not> ru_running st \<longrightarrow> (\<forall>st'. run_step s st st' \<longrightarrow>
      ru_claimed st' = ru_claimed st \<and> length (busy st') \<le> length (busy st))"
    by blast
qed

end
