(* ===== verification/Executor_Properties.thy ===== *)
theory Executor_Properties
  imports Worker_Service Samples
begin

text \<open>
  The webhook executor: which targets it never calls, which headers a job cannot forge, how an
  answer is classified, and the decimal numbers and delays it reads and writes.
\<close>

section \<open>Targets\<close>

definition internal_target :: "webhook_env \<Rightarrow> ExecutorOptions \<Rightarrow> string \<Rightarrow> bool" where
  "internal_target env opts host \<longleftrightarrow>
     \<not> eo_AllowPrivateNetworks opts \<and>
     (\<forall>allowed\<in>set (eo_AllowedHosts opts). \<not> we_fold_eq env (TrimSpace allowed) host) \<and>
     (\<exists>addresses. we_lookup env host = Inr addresses \<and> (\<exists>a\<in>set addresses. is_internal a))"

lemma validateHost_internal: "internal_target env opts host \<Longrightarrow> validateHost env opts host \<noteq> None"
  by (auto simp: internal_target_def validateHost_def)


text \<open>A host that resolves to the metadata address of a cloud provider.\<close>

definition sample_env :: "response \<Rightarrow> webhook_env" where
  "sample_env resp =
     \<lparr>we_unmarshal = (\<lambda>_. Some \<lparr>wp_URL = ''http://meta/'', wp_Method = '''', wp_Headers = [], wp_Body = []\<rparr>),
      we_marshal = (\<lambda>_. ''{}''),
      we_parse = (\<lambda>u. Some \<lparr>u_Scheme = ''http'', u_HasUser = False, u_Hostname = ''meta'', u_String = u\<rparr>),
      we_upper = id, we_fold_eq = (=), we_uuid_String = (\<lambda>_. ''12''),
      we_lookup = (\<lambda>_. Inr [[8, 8, 8, 8], [169, 254, 169, 254]]),
      we_new_request_fails = (\<lambda>_ _. None), we_do = (\<lambda>_ _ _ _. Inr resp), we_elapsed_ms = 7\<rparr>"

abbreviation sample_options :: ExecutorOptions where
  "sample_options \<equiv> \<lparr>eo_AllowedHosts = [''hooks''], eo_AllowPrivateNetworks = False\<rparr>"

definition sample_response :: "int \<Rightarrow> response" where
  "sample_response code = \<lparr>rs_StatusCode = code, rs_RetryAfter = ''7'', rs_Body = Inr ''ok''\<rparr>"

lemma sample_internal: "internal_target (sample_env resp) sample_options ''meta''"
proof -
  have "TrimSpace ''hooks'' = ''hooks''" by code_simp
  then show ?thesis
    by (simp add: internal_target_def sample_env_def is_internal_def IsLinkLocalUnicast_def To4_def)
qed

section \<open>Headers\<close>

text \<open>
  A job cannot forge the scheduler's own headers.  Whatever headers its payload lists, in any
  spelling and number, the request carries the job id as X-Scheduler-Job-Id and Idempotency-Key and
  the attempt number as X-Scheduler-Attempt, and neither Host nor Content-Length is set.
\<close>

theorem reserved_headers_kept:
  "add_headers hs (base_headers env j) ''X-Scheduler-Job-Id'' = Some (we_uuid_String env (j_ID j)) \<and>
   add_headers hs (base_headers env j) ''Idempotency-Key'' = Some (we_uuid_String env (j_ID j)) \<and>
   add_headers hs (base_headers env j) ''X-Scheduler-Attempt'' = Some (Itoa (j_AttemptNumber j)) \<and>
   add_headers hs (base_headers env j) ''Host'' = None \<and>
   add_headers hs (base_headers env j) ''Content-Length'' = None"
proof -
  have "base_headers env j ''Host'' = None" "base_headers env j ''Content-Length'' = None"
    by (simp_all add: base_headers_def Header_Set_def)
  then show ?thesis by (simp add: add_headers_reserved isReservedHeader_def base_headers_ids)
qed

section \<open>Decimal numbers\<close>

lemma digit_val_char: "(n::nat) < 10 \<Longrightarrow> digit_val (char_of (48 + n)) = Some (int n)"
  by (simp add: digit_val_def Let_def)

lemma digits_val_append:
  "digits_val acc (xs @ ys) = (case digits_val acc xs of None \<Rightarrow> None | Some a \<Rightarrow> digits_val a ys)"
  by (induction xs arbitrary: acc) (auto split: option.splits)

lemma digits_val_decimal: "digits_val 0 (decimal n) = Some (int n)"
proof (induction n rule: decimal.induct)
  case (1 n)
  show ?case
  proof (cases "n < 10")
    case True
    then show ?thesis by (simp add: decimal.simps [of n] digit_val_char)
  next
    case False
    with 1 have "digits_val 0 (decimal (n div 10)) = Some (int (n div 10))" by simp
    with False show ?thesis
      by (simp add: decimal.simps [of n] digits_val_append digit_val_char zdiv_int zmod_int)
  qed
qed

lemma decimal_hd:
  obtains d :: nat where "d < 10" and "hd (decimal n) = char_of (48 + d)" and "decimal n \<noteq> []"
proof (induction n arbitrary: thesis rule: decimal.induct)
  case (1 n)
  show ?case
  proof (cases "n < 10")
    case True
    then show ?thesis using 1(2) [of n] by (simp add: decimal.simps [of n])
  next
    case False
    then show ?thesis using 1(1) 1(2) by (metis decimal.simps hd_append2 append_is_Nil_conv)
  qed
qed

lemma digit_not_sign:
  assumes "(d::nat) < 10"
  shows "char_of (48 + d) \<noteq> CHR ''-''" and "char_of (48 + d) \<noteq> CHR ''+''"
proof -
  have "of_char (char_of (48 + d) :: char) = 48 + d" using assms by simp
  then have "of_char (char_of (48 + d) :: char) \<noteq> (of_char CHR ''-'' :: nat)"
    "of_char (char_of (48 + d) :: char) \<noteq> (of_char CHR ''+'' :: nat)"
    by simp_all
  then show "char_of (48 + d) \<noteq> CHR ''-''" and "char_of (48 + d) \<noteq> CHR ''+''" by metis+
qed
text \<open>
  The decimal numbers the executor prints are read back: for every 64-bit integer,
  \<open>strconv.Atoi\<close> of its \<open>strconv.Itoa\<close> is the integer.
\<close>

theorem atoi_itoa:
  assumes "- (2 ^ 63) \<le> n" and "n < 2 ^ 63"
  shows "Atoi (Itoa n) = Some n"
proof -
  obtain d :: nat where d: "d < 10" "hd (decimal (nat \<bar>n\<bar>)) = char_of (48 + d)" "decimal (nat \<bar>n\<bar>) \<noteq> []"
    using decimal_hd .
  then show ?thesis
    using assms digit_not_sign [OF d(1)] digits_val_decimal [of "nat \<bar>n\<bar>"]
    by (cases "n < 0") (simp_all add: Atoi_def Itoa_def Let_def)
qed

theorem atoi_itoa_witness: "Atoi (Itoa (- 9223372036854775808)) = Some (- 9223372036854775808)"
  using atoi_itoa [of "- 9223372036854775808"] by simp

section \<open>Retry-After\<close>

text \<open>
  The delay read from a Retry-After header never exceeds 15 minutes.  It is that many seconds, or
  15 minutes if there are more, for every number of seconds below about 292 years; there the product
  in nanoseconds overflows, and a larger number gives a negative or a short delay instead of the
  maximum.
\<close>

theorem retry_after_bounds:
  "sint (parseRetryAfter v) \<le> 900 * 1000000000 \<and>
   (\<forall>n. Atoi (TrimSpace v) = Some n \<and> 0 \<le> n \<and> n < 9223372037 \<longrightarrow>
      sint (parseRetryAfter v) = min n 900 * 1000000000) \<and>
   (Atoi (TrimSpace v) = None \<longrightarrow> parseRetryAfter v = 0) \<and>
   sint (parseRetryAfter ''9223372037'') < 0 \<and> sint (parseRetryAfter ''18446744074'') < 1000000000"
proof (intro conjI allI impI)
  have "sint (15 * Minute :: duration) = 900 * 1000000000" by simp
  with parseRetryAfter_upper [of v] show "sint (parseRetryAfter v) \<le> 900 * 1000000000" by simp
  show "sint (parseRetryAfter v) = min n 900 * 1000000000"
    if "Atoi (TrimSpace v) = Some n \<and> 0 \<le> n \<and> n < 9223372037" for n
    using that parseRetryAfter_exact [of v n] by (auto simp: min_def)
  show "parseRetryAfter v = 0" if "Atoi (TrimSpace v) = None"
    using that by (simp add: parseRetryAfter_def)
  have "Atoi (TrimSpace ''9223372037'') = Some 9223372037"
    "Atoi (TrimSpace ''18446744074'') = Some 18446744074"
    by code_simp+
  then show "sint (parseRetryAfter ''9223372037'') < 0"
    and "sint (parseRetryAfter ''18446744074'') < 1000000000"
    by (simp_all add: parseRetryAfter_def)
qed

theorem retry_after_bounds_witness:
  "sint (parseRetryAfter '' 120 '') = 120 * 1000000000 \<and> parseRetryAfter ''soon'' = 0"
proof -
  have "Atoi (TrimSpace '' 120 '') = Some 120" "Atoi (TrimSpace ''soon'') = None" by code_simp+
  then show ?thesis using retry_after_bounds [of "'' 120 ''"] retry_after_bounds [of "''soon''"] by simp
qed

section \<open>Answers\<close>

text \<open>The failures of the handler: an error code of its own, retryable only after an exchange.\<close>

fun webhook_error :: "go_error \<Rightarrow> bool" where
  "webhook_error (ExecutionError c m r a md) \<longleftrightarrow>
     c \<notin> {''TIMEOUT'', ''CANCELLED'', ''HANDLER_ERROR''} \<and>
     (r \<longrightarrow> c \<in> {''WEBHOOK_READ_ERROR'', ''WEBHOOK_HTTP_ERROR'', ''WEBHOOK_NETWORK_ERROR''})"
| "webhook_error _ \<longleftrightarrow> False"

lemma permanent_webhook_error:
  "c \<notin> {''TIMEOUT'', ''CANCELLED'', ''HANDLER_ERROR''} \<Longrightarrow> webhook_error (permanent c m)"
  by (simp add: permanent_def)

lemma handle_response_error: "handle_response env resp = Inl err \<Longrightarrow> webhook_error err"
  by (auto simp: handle_response_def Let_def split: sum.splits if_splits)

lemma Execute_error:
  assumes "Executor_Execute env opts j = Inl err"
  shows "webhook_error err"
  using assms
  by (auto simp: Executor_Execute_def WebhookHandler_Execute_def Let_def handle_response_error
      permanent_webhook_error split: option.splits if_splits sum.splits)

lemma ClassifyError_webhook:
  "webhook_error err \<Longrightarrow>
     x_ErrorCode (ClassifyError err) = ee_Code err \<and> x_Retryable (ClassifyError err) = ee_Retryable err \<and>
     ee_Code err \<notin> {''TIMEOUT'', ''CANCELLED'', ''HANDLER_ERROR''}"
  by (cases err rule: webhook_error.cases) (simp_all add: ClassifyError_def)

text \<open>
  C36: how a webhook execution is classified.  Every failure of the handler is an \<open>ExecutionError\<close>, so
  its own code and retry flag are recorded and never TIMEOUT, CANCELLED or HANDLER_ERROR.  With a body
  that can be read, an answer succeeds exactly for a 2xx status and is worth retrying exactly for 408,
  429 and 500 or more.
\<close>

theorem webhook_outcome:
  "(\<forall>err. Executor_Execute env opts j = Inl err \<longrightarrow>
      x_ErrorCode (ClassifyError err) = ee_Code err \<and> x_Retryable (ClassifyError err) = ee_Retryable err \<and>
      ee_Code err \<notin> {''TIMEOUT'', ''CANCELLED'', ''HANDLER_ERROR''}) \<and>
   (rs_Body resp = Inr body \<longrightarrow>
      (isl (handle_response env resp) \<longleftrightarrow> rs_StatusCode resp \<notin> {200..299}) \<and>
      (\<forall>err. handle_response env resp = Inl err \<longrightarrow>
         (x_Retryable (ClassifyError err) \<longleftrightarrow> rs_StatusCode resp \<in> {408, 429} \<or> 500 \<le> rs_StatusCode resp)))"
proof -
  have "isl (handle_response env resp) \<longleftrightarrow> rs_StatusCode resp \<notin> {200..299}"
    if "rs_Body resp = Inr body"
    using that by (auto simp: handle_response_def Let_def)
  moreover have "x_Retryable (ClassifyError err) \<longleftrightarrow>
      rs_StatusCode resp \<in> {408, 429} \<or> 500 \<le> rs_StatusCode resp"
    if "rs_Body resp = Inr body" "handle_response env resp = Inl err" for err
    using that by (auto simp: handle_response_def Let_def ClassifyError_def split: if_splits)
  ultimately show ?thesis using ClassifyError_webhook [OF Execute_error] by blast
qed
theorem webhook_outcome_witness:
  "isl (handle_response (sample_env (sample_response 503)) (sample_response 503)) \<and>
   \<not> isl (handle_response (sample_env (sample_response 204)) (sample_response 204))"
  using webhook_outcome [of "sample_env (sample_response 503)" sample_options
      "scanJob (sample_job 12 StatusRunning 5)" "sample_response 503" "''ok''"]
    webhook_outcome [of "sample_env (sample_response 204)" sample_options
      "scanJob (sample_job 12 StatusRunning 5)" "sample_response 204" "''ok''"]
  by (simp add: sample_response_def)

end
