(* ===== verification/Outbox_Properties.thy ===== *)
theory Outbox_Properties
  imports Outbox Repo_Total "HOL-Library.Multiset"
begin

text \<open>
  The outbox relay: an event counts as published only after the transport accepted it, relays that
  follow each other within the lease work on different events, a healthy relay delivers its batch,
  and the delay after a failure is bounded.
\<close>

section \<open>Published means accepted\<close>

definition published_ids :: "db \<Rightarrow> uuid set" where
  "published_ids d = {e_ID e | e. e \<in> set (job_events d) \<and> e_PublishedAt e \<noteq> None}"

lemma published_upd:
  assumes "\<And>e. e_ID (f e) = e_ID e" and "\<And>e. P e \<Longrightarrow> e_PublishedAt (f e) \<noteq> None \<Longrightarrow> e_ID e \<in> I \<or> e_PublishedAt e \<noteq> None"
  shows "published_ids (d\<lparr>job_events := upd_where P f (job_events d)\<rparr>) \<subseteq> published_ids d \<union> I"
  using assms by (fastforce simp: published_ids_def in_upd_where split: if_splits)

lemma update_events_cases:
  assumes "update_events P f w = (r, w')"
  obtains "w_db w' = w_db w"
    | "w_db w' = (w_db w)\<lparr>job_events := upd_where P (f (w_dbclock w (Suc (w_txs w)))) (job_events (w_db w))\<rparr>"
proof (cases r)
  case (Inl e)
  with assms have "w_db w' = w_db w"
    using atomic_txD [OF atomic_pool_stmt] unfolding update_events_def by blast
  then show thesis using that by blast
next
  case (Inr n)
  with assms show thesis using that by (simp add: update_events_ok)
qed

lemma update_events_ids:
  assumes "\<And>t e. e_ID (f t e) = e_ID e"
    and "\<And>t e. P e \<Longrightarrow> e_PublishedAt (f t e) \<noteq> None \<Longrightarrow> e_ID e \<in> I \<or> e_PublishedAt e \<noteq> None"
    and "\<And>n w. snd (k n w) = w"
  shows "published_ids (w_db (snd (bind_tx (update_events P f) k w))) \<subseteq> published_ids (w_db w) \<union> I"
proof -
  obtain r w' where U: "update_events P f w = (r, w')" by fastforce
  then have "published_ids (w_db w') \<subseteq> published_ids (w_db w) \<union> I"
  proof (cases rule: update_events_cases)
    case 2
    show ?thesis unfolding 2 by (rule published_upd [OF assms(1,2)])
  qed simp
  moreover have "snd (bind_tx (update_events P f) k w) = w'"
    using U assms(3) by (cases r) (simp_all add: bind_tx_def)
  ultimately show ?thesis by simp
qed

lemma MarkPublished_ids:
  "published_ids (w_db (snd (MarkPublished i relay w))) \<subseteq> published_ids (w_db w) \<union> {i}"
  unfolding MarkPublished_def by (rule update_events_ids) (auto simp: fail_tx_def return_tx_def)

lemma MarkFailed_ids:
  "published_ids (w_db (snd (MarkFailed i relay n m w))) \<subseteq> published_ids (w_db w) \<union> {}"
  unfolding MarkFailed_def by (rule update_events_ids) (auto simp: fail_tx_def return_tx_def)
lemma Claim_ids:
  assumes "Claim arrange relay batch lease w = (r, w')"
  shows "published_ids (w_db w') \<subseteq> published_ids (w_db w)"
proof (cases r)
  case (Inl e)
  with assms have "w_db w' = w_db w"
    using atomic_txD [OF atomic_pool_stmt] unfolding Claim_def Let_def by blast
  then show ?thesis by simp
next
  case (Inr items)
  with assms have "Claim arrange relay batch lease w = (Inr items, w')" by simp
  then show ?thesis
  proof (cases rule: Claim_okE)
    case (1 now ids)
    show ?thesis
      unfolding 1(1) using published_upd [of "claim_event_row relay lease now" _ "{}"]
      by (simp add: claim_event_row_def)
  qed
qed

lemma Publish_accepts:
  "Publish ev p = (res, p') \<Longrightarrow> tr_accepted p' = tr_accepted p @ (if res = None then [ev] else [])"
  by (auto simp: Publish_def split: list.splits option.splits)

lemma publish_loop_ids:
  "publish_loop relay evs (w, p) = (r, (w', p')) \<Longrightarrow>
     \<exists>new. tr_accepted p' = tr_accepted p @ new \<and>
       published_ids (w_db w') \<subseteq> published_ids (w_db w) \<union> ev_EventID ` set new"
proof (induction evs arbitrary: w p)
  case Nil
  then show ?case by auto
next
  case (Cons ev evs)
  obtain res p1 where P: "Publish ev p = (res, p1)" by fastforce
  show ?case
  proof (cases res)
    case (Some err)
    define w1 where "w1 = snd (MarkFailed (ev_EventID ev) relay (ev_PublishAttempts ev)
        (truncate_string (error_Error err) 1000) w)"
    from Cons(2) P Some have "publish_loop relay evs (w1, p1) = (r, (w', p'))" by (simp add: w1_def)
    from Cons(1) [OF this] obtain new where
      "tr_accepted p' = tr_accepted p1 @ new"
      "published_ids (w_db w') \<subseteq> published_ids (w_db w1) \<union> ev_EventID ` set new"
      by blast
    moreover have "published_ids (w_db w1) \<subseteq> published_ids (w_db w)"
      unfolding w1_def using MarkFailed_ids by simp
    moreover have "tr_accepted p1 = tr_accepted p" using Publish_accepts [OF P] Some by simp
    ultimately show ?thesis by (intro exI [of _ new]) auto
  next
    case None
    obtain q w1 where M: "MarkPublished (ev_EventID ev) relay w = (q, w1)" by fastforce
    have m: "published_ids (w_db w1) \<subseteq> published_ids (w_db w) \<union> {ev_EventID ev}"
      using MarkPublished_ids [of "ev_EventID ev" relay w] M by simp
    have a: "tr_accepted p1 = tr_accepted p @ [ev]" using Publish_accepts [OF P] None by simp
    show ?thesis
    proof (cases q)
      case (Inl e)
      with Cons(2) P None M m a show ?thesis by (intro exI [of _ "[ev]"]) auto
    next
      case (Inr u)
      with Cons(2) P None M have "publish_loop relay evs (w1, p1) = (r, (w', p'))" by simp
      from Cons(1) [OF this] obtain new where
        "tr_accepted p' = tr_accepted p1 @ new"
        "published_ids (w_db w') \<subseteq> published_ids (w_db w1) \<union> ev_EventID ` set new"
        by blast
      with m a show ?thesis by (intro exI [of _ "ev # new"]) auto
    qed
  qed
qed
lemma publishBatch_ids:
  assumes "publishBatch arrange relay batch lease (w, p) = (r, (w', p'))"
  shows "\<exists>new. tr_accepted p' = tr_accepted p @ new \<and>
    published_ids (w_db w') \<subseteq> published_ids (w_db w) \<union> ev_EventID ` set new"
proof -
  obtain q w1 where C: "Claim arrange relay batch lease w = (q, w1)" by fastforce
  note c = Claim_ids [OF C]
  show ?thesis
  proof (cases q)
    case (Inl e)
    with assms C c show ?thesis by (auto simp: publishBatch_def)
  next
    case (Inr items)
    with assms C have "publish_loop relay items (w1, p) = (r, (w', p'))" by (simp add: publishBatch_def)
    from publish_loop_ids [OF this] c show ?thesis by fastforce
  qed
qed

text \<open>
  C30: an event is marked published only if the transport accepted it.  Whatever round trips fail and
  however the batch ends, the events that a relay's batch newly marks published are among those the
  transport accepted during that batch.
\<close>

theorem published_was_accepted:
  assumes "publishBatch arrange relay batch lease (w, p) = (r, (w', p'))"
  shows "\<exists>new. tr_accepted p' = tr_accepted p @ new \<and>
    published_ids (w_db w') - published_ids (w_db w) \<subseteq> ev_EventID ` set new"
  using publishBatch_ids [OF assms] by blast
section \<open>Relays within each other's lease\<close>

lemma pending_publishable:
  "e \<in> set (pending_events now locked n es) \<Longrightarrow> e \<in> set es \<and> publishable now e"
  by (auto simp: pending_events_def dest: in_set_takeD)

lemma Claim_items:
  assumes "Claim arrange relay batch lease w = (Inr items, w')" and "\<And>xs. set (arrange xs) = set xs"
  shows "ev_EventID ` set items = e_ID ` set (pending_events (tx_now w) (w_locked w (Suc (w_txs w)))
      (if batch < 1 then 50 else batch) (job_events (w_db w)))"
  using assms(1)
proof (cases rule: Claim_okE)
  case (1 now ids)
  let ?P = "pending_events now (w_locked w (Suc (w_txs w))) (if batch < 1 then 50 else batch)
      (job_events (w_db w))"
  have now: "now = tx_now w" using 1(4) by (simp add: w_now_def begun_def)
  have "e_ID ` {e \<in> set (job_events (w_db w')). e_ID e \<in> set ids} = e_ID ` set ?P"
  proof -
    have "e_ID ` set (job_events (w_db w')) = e_ID ` set (job_events (w_db w))"
      using arg_cong [OF map_upd_where [of e_ID "claim_event_row relay lease now"
            "\<lambda>e. e_ID e \<in> set ids" "job_events (w_db w)"], of set] 1(1)
      by (simp add: claim_event_row_def)
    moreover have "set ids = e_ID ` set ?P" using 1(3) by simp
    moreover have "set ?P \<subseteq> set (job_events (w_db w))" using pending_publishable by blast
    moreover have "e_ID ` {e \<in> set (job_events (w_db w')). e_ID e \<in> I} =
        e_ID ` set (job_events (w_db w')) \<inter> I" for I
      by auto
    ultimately show ?thesis by blast
  qed
  then show ?thesis
    using 1(2) now by (simp add: assms(2) image_image to_event_def)
qed

text \<open>
  Relays do not publish the same event side by side.  Two claims that follow each other, by any
  two relays, take different events as long as the second reads the database clock no later than the
  end of the first one's lease.
\<close>

theorem relay_claims_disjoint:
  assumes "\<And>xs. set (arrange xs) = set xs" and "Claim arrange relay batch lease w = (Inr xs, w')"
    and "w_db v = w_db w'" and "Claim arrange relay' batch' lease' v = (Inr ys, v')"
    and "tx_now v \<le> tx_now w + interval_seconds (duration_Seconds lease)"
  shows "ev_EventID ` set xs \<inter> ev_EventID ` set ys = {}"
proof (rule equals0I)
  fix i
  assume i: "i \<in> ev_EventID ` set xs \<inter> ev_EventID ` set ys"
  then have "i \<in> ev_EventID ` set ys" by simp
  then obtain e where "e_ID e = i" "e \<in> set (pending_events (tx_now v) (w_locked v (Suc (w_txs v)))
      (if batch' < 1 then 50 else batch') (job_events (w_db v)))"
    unfolding Claim_items [OF assms(4,1)] by (elim imageE) simp
  then have e: "e \<in> set (job_events (w_db v))" "e_ID e = i" "publishable (tx_now v) e"
    using pending_publishable by metis+
  from assms(2) show False
  proof (cases rule: Claim_okE)
    case (1 now ids)
    then have now: "now = tx_now w" by (simp add: w_now_def begun_def)
    have "i \<in> ev_EventID ` set xs" using i by simp
    then have ids: "i \<in> set ids" unfolding Claim_items [OF assms(2,1)] 1(3) now by simp
    have "e \<in> set (upd_where (\<lambda>e. e_ID e \<in> set ids) (claim_event_row relay lease now)
        (job_events (w_db w)))"
      using e(1) 1(1) assms(3) by simp
    then have "e_ClaimedUntil e = Some (now + interval_seconds (duration_Seconds lease))"
      by (cases rule: upd_whereE) (use e(2) ids in \<open>simp_all add: claim_event_row_def\<close>)
    with e(3) assms(5) now show False by (simp add: publishable_def)
  qed
qed

section \<open>Delivery\<close>

definition published_row :: "time \<Rightarrow> events_row \<Rightarrow> events_row" where
  "published_row now e =
     e\<lparr>e_PublishedAt := Some now, e_PublishAttempts := e_PublishAttempts e + 1,
       e_LastPublishError := None, e_ClaimedBy := None, e_ClaimedUntil := None\<rparr>"

definition claimed_for :: "string \<Rightarrow> uuid \<Rightarrow> db \<Rightarrow> bool" where
  "claimed_for relay i d \<longleftrightarrow> (\<exists>e\<in>set (job_events d). e_ID e = i \<and> e_ClaimedBy e = Some relay)"

lemma MarkPublished_run:
  assumes "no_faults w" and "claimed_for relay i (w_db w)"
  shows "\<exists>w' now. MarkPublished i relay w = (Inr (), w') \<and> no_faults w' \<and>
    w_db w' = (w_db w)\<lparr>job_events := upd_where (\<lambda>e. e_ID e = i \<and> e_ClaimedBy e = Some relay)
      (published_row now) (job_events (w_db w))\<rparr>"
proof -
  have "rows_affected (\<lambda>e. e_ID e = i \<and> e_ClaimedBy e = Some relay) (job_events (w_db w)) \<noteq> 0"
    using assms(2) by (simp add: claimed_for_def rows_affected_iff)
  with assms(1) show ?thesis
    by (simp add: MarkPublished_def update_events_def pool_stmt_def new_tx_def bind_tx_def run_simps
        published_row_def [abs_def]) blast
qed

lemma claimed_for_keep:
  assumes "claimed_for relay k d" and "k \<noteq> i"
  shows "claimed_for relay k (d\<lparr>job_events := upd_where (\<lambda>e. e_ID e = i \<and> e_ClaimedBy e = Some relay)
      f (job_events d)\<rparr>)"
proof -
  from assms obtain e where e: "e \<in> set (job_events d)" "e_ID e = k" "e_ClaimedBy e = Some relay" "e_ID e \<noteq> i"
    by (auto simp: claimed_for_def)
  then have "e \<in> set (upd_where (\<lambda>e. e_ID e = i \<and> e_ClaimedBy e = Some relay) f (job_events d))"
    by (auto simp: in_upd_where)
  with e show ?thesis by (auto simp: claimed_for_def)
qed


lemma publish_loop_run:
  assumes "no_faults w" and "tr_outcomes p = []" and "distinct (map ev_EventID evs)"
    and "\<forall>ev\<in>set evs. claimed_for relay (ev_EventID ev) (w_db w)"
  shows "\<exists>w'. publish_loop relay evs (w, p) =
      (Inr (), (w', p\<lparr>tr_accepted := tr_accepted p @ evs\<rparr>)) \<and>
    ev_EventID ` set evs \<subseteq> published_ids (w_db w') \<and> published_ids (w_db w) \<subseteq> published_ids (w_db w')"
  using assms
proof (induction evs arbitrary: w p)
  case Nil
  then show ?case by simp
next
  case (Cons ev evs)
  obtain w1 now where M: "MarkPublished (ev_EventID ev) relay w = (Inr (), w1)" "no_faults w1"
      and d: "w_db w1 = (w_db w)\<lparr>job_events := upd_where
        (\<lambda>e. e_ID e = ev_EventID ev \<and> e_ClaimedBy e = Some relay) (published_row now) (job_events (w_db w))\<rparr>"
    using MarkPublished_run [of w relay "ev_EventID ev"] Cons(2,5) by auto
  let ?p = "p\<lparr>tr_outcomes := [], tr_accepted := tr_accepted p @ [ev]\<rparr>"
  have P: "Publish ev p = (None, ?p)" using Cons(3) by (simp add: Publish_def)
  have c: "\<forall>ev'\<in>set evs. claimed_for relay (ev_EventID ev') (w_db w1)"
  proof
    fix ev'
    assume ev': "ev' \<in> set evs"
    with Cons(4) have "ev_EventID ev' \<noteq> ev_EventID ev" by (auto simp: image_iff)
    with ev' Cons(5) show "claimed_for relay (ev_EventID ev') (w_db w1)"
      unfolding d by (intro claimed_for_keep) simp_all
  qed
  have ev: "ev_EventID ev \<in> published_ids (w_db w1)"
    using Cons(5) by (force simp: d claimed_for_def published_ids_def in_upd_where published_row_def)
  have old: "published_ids (w_db w) \<subseteq> published_ids (w_db w1)"
  proof
    fix i
    assume "i \<in> published_ids (w_db w)"
    then obtain e where e: "e \<in> set (job_events (w_db w))" "e_PublishedAt e \<noteq> None" "e_ID e = i"
      by (auto simp: published_ids_def)
    let ?e = "if e_ID e = ev_EventID ev \<and> e_ClaimedBy e = Some relay then published_row now e else e"
    have "?e \<in> set (job_events (w_db w1))" unfolding d using e(1) by (auto simp: in_upd_where)
    moreover have "e_ID ?e = i" "e_PublishedAt ?e \<noteq> None" using e by (simp_all add: published_row_def)
    ultimately show "i \<in> published_ids (w_db w1)" unfolding published_ids_def by blast
  qed
  have "distinct (map ev_EventID evs)" using Cons(4) by simp
  from Cons(1) [OF M(2) _ this c, of ?p] obtain w' where
    "publish_loop relay evs (w1, ?p) = (Inr (), (w', ?p\<lparr>tr_accepted := tr_accepted ?p @ evs\<rparr>))"
    "ev_EventID ` set evs \<subseteq> published_ids (w_db w')" "published_ids (w_db w1) \<subseteq> published_ids (w_db w')"
    by auto
  moreover have "?p\<lparr>tr_accepted := tr_accepted ?p @ evs\<rparr> = p\<lparr>tr_accepted := tr_accepted p @ ev # evs\<rparr>"
    using Cons(3) by (cases p) simp
  ultimately show ?case using P M(1) ev old by auto
qed

lemma Claim_run:
  assumes "no_faults w" and "keys_ok (w_db w)" and "\<And>xs. mset (arrange xs) = mset xs"
  shows "\<exists>items w'. Claim arrange relay batch lease w = (Inr items, w') \<and> no_faults w' \<and>
    distinct (map ev_EventID items) \<and> (\<forall>ev\<in>set items. claimed_for relay (ev_EventID ev) (w_db w'))"
proof -
  have "\<exists>items w'. Claim arrange relay batch lease w = (Inr items, w') \<and> no_faults w'"
    using assms(1) by (simp add: Claim_def pool_stmt_def new_tx_def bind_tx_def run_simps Let_def)
  then obtain items w' where C: "Claim arrange relay batch lease w = (Inr items, w')" "no_faults w'"
    by blast
  from C(1) show ?thesis
  proof (cases rule: Claim_okE)
    case (1 now ids)
    let ?es = "filter (\<lambda>e. e_ID e \<in> set ids) (job_events (w_db w'))"
    have es: "set (arrange ?es) = set ?es" by (rule mset_eq_setD [OF assms(3)])
    have "map e_ID (job_events (w_db w')) = map e_ID (job_events (w_db w))"
      unfolding 1(1) by (simp add: map_upd_where claim_event_row_def)
    with assms(2) have "distinct (map e_ID (job_events (w_db w')))" by (simp add: keys_ok_def)
    then have "distinct (map e_ID ?es)" by (rule distinct_map_filter)
    moreover have "mset (map ev_EventID items) = mset (map e_ID ?es)"
      using arg_cong [OF assms(3) [of ?es], of "image_mset e_ID"] 1(2) by (simp add: to_event_def comp_def)
    ultimately have "distinct (map ev_EventID items)" using mset_eq_imp_distinct_iff by blast
    moreover have "claimed_for relay (ev_EventID ev) (w_db w')" if ev: "ev \<in> set items" for ev
    proof -
      from ev 1(2) es obtain e where e: "e \<in> set ?es" "ev_EventID ev = e_ID e"
        by (auto simp: to_event_def)
      then have "e \<in> set (upd_where (\<lambda>e. e_ID e \<in> set ids) (claim_event_row relay lease now)
          (job_events (w_db w)))"
        using 1(1) by simp
      then have "e_ClaimedBy e = Some relay"
        by (cases rule: upd_whereE) (use e(1) in \<open>simp_all add: claim_event_row_def\<close>)
      with e show ?thesis by (auto simp: claimed_for_def)
    qed
    ultimately show ?thesis using C by blast
  qed
qed

text \<open>
  C31: a healthy relay delivers its batch.  Without failing round trips and with a transport that
  accepts, a batch returns without error, the transport receives exactly the events that were pending,
  as many as the batch allows and each once, and all of them are marked published.
\<close>

theorem relay_delivers:
  assumes "no_faults w" and "keys_ok (w_db w)" and "tr_outcomes p = []"
    and "\<And>xs. mset (arrange xs) = mset xs"
  shows "\<exists>w' new. publishBatch arrange relay batch lease (w, p) =
      (Inr (), (w', p\<lparr>tr_accepted := tr_accepted p @ new\<rparr>)) \<and>
    distinct (map ev_EventID new) \<and>
    ev_EventID ` set new = e_ID ` set (pending_events (tx_now w) (w_locked w (Suc (w_txs w)))
      (if batch < 1 then 50 else batch) (job_events (w_db w))) \<and>
    ev_EventID ` set new \<subseteq> published_ids (w_db w')"
proof -
  obtain items w1 where C: "Claim arrange relay batch lease w = (Inr items, w1)" "no_faults w1"
      "distinct (map ev_EventID items)" "\<forall>ev\<in>set items. claimed_for relay (ev_EventID ev) (w_db w1)"
    using Claim_run [of w arrange relay batch lease] assms(1,2,4) by blast
  moreover have "ev_EventID ` set items = e_ID ` set (pending_events (tx_now w)
      (w_locked w (Suc (w_txs w))) (if batch < 1 then 50 else batch) (job_events (w_db w)))"
    by (rule Claim_items [OF C(1)]) (rule mset_eq_setD [OF assms(4)])
  moreover obtain w' where "publish_loop relay items (w1, p) =
      (Inr (), (w', p\<lparr>tr_accepted := tr_accepted p @ items\<rparr>))" "ev_EventID ` set items \<subseteq> published_ids (w_db w')"
    using publish_loop_run [OF C(2) assms(3) C(3,4)] by blast
  ultimately show ?thesis by (intro exI [of _ w'] exI [of _ items]) (simp add: publishBatch_def)
qed

text \<open>
  The delay after a failed publication is at least one second and at most five minutes, doubles
  with every attempt until then, and a failure leaves the event unpublished for a later batch.
\<close>

theorem publish_backoff_bounds:
  assumes "0 \<le> n"
  shows "1 \<le> publish_backoff n \<and> publish_backoff n \<le> 300 \<and>
    publish_backoff (n + 1) = min 300 (2 * publish_backoff n) \<and>
    published_ids (w_db (snd (MarkFailed i relay n m w))) \<subseteq> published_ids (w_db w)"
proof -
  have "(1::int) \<le> 2 ^ nat n" by simp
  moreover have "(2::int) ^ nat (n + 1) = 2 * 2 ^ nat n" using assms by (simp add: nat_add_distrib)
  ultimately show ?thesis
    using assms MarkFailed_ids [of i relay n m w] by (auto simp: publish_backoff_def min_def)
qed

section \<open>A batch of one event\<close>

definition sample_outbox :: db where
  "sample_outbox = sample_db\<lparr>job_events := [new_event 5000 40 (scanJob (sample_job 10 StatusPending 5))
     ''job.created'' ''scheduler-api'' []]\<rparr>"

abbreviation sample_transport :: transport where
  "sample_transport \<equiv> \<lparr>tr_outcomes = [], tr_accepted = []\<rparr>"

lemma sample_outbox_keys: "keys_ok sample_outbox"
  using db_okD(1) [OF sample_db_ok] by (simp add: keys_ok_def sample_outbox_def)

lemma sample_pending:
  "e_ID ` set (pending_events (tx_now (sample_world sample_outbox)) (\<lambda>_. False) 10 (job_events sample_outbox)) = {40}"
  by (simp add: pending_events_def sample_outbox_def publishable_def new_event_def)

lemma sample_locked: "w_locked (sample_world d) k = (\<lambda>_. False)"
  by (simp add: fun_eq_iff)

lemma sample_claim_event:
  "\<exists>xs w'. Claim id ''r1'' 10 relay_lease (sample_world sample_outbox) = (Inr xs, w') \<and>
     ev_EventID ` set xs = {40} \<and> w_dbclock w' = w_dbclock (sample_world sample_outbox) \<and> no_faults w'"
proof -
  obtain xs w' where C: "Claim id ''r1'' 10 relay_lease (sample_world sample_outbox) = (Inr xs, w')"
    using Claim_run [of "sample_world sample_outbox" id "''r1''" 10 relay_lease] sample_outbox_keys by auto
  moreover have "ev_EventID ` set xs = {40}"
    using Claim_items [OF C] sample_pending by (simp add: sample_locked)
  moreover have "w_dbclock w' = w_dbclock (sample_world sample_outbox)" "no_faults w'"
    using C by (auto simp: Claim_def Let_def pool_stmt_def tx_simps)
  ultimately show ?thesis by blast
qed

theorem published_was_accepted_witness:
  "\<exists>r w' p'. publishBatch id ''r1'' 10 relay_lease (sample_world sample_outbox, sample_transport) = (r, (w', p')) \<and>
     40 \<in> ev_EventID ` set (tr_accepted p')"
proof -
  have nf: "no_faults (sample_world sample_outbox)" and k: "keys_ok (w_db (sample_world sample_outbox))"
    using sample_outbox_keys by simp_all
  obtain items w1 where C: "Claim id ''r1'' 10 relay_lease (sample_world sample_outbox) = (Inr items, w1)" "no_faults w1"
      "distinct (map ev_EventID items)" "\<forall>ev\<in>set items. claimed_for ''r1'' (ev_EventID ev) (w_db w1)"
    using Claim_run [of "sample_world sample_outbox" id "''r1''" 10 relay_lease, OF nf k] by auto
  moreover have "ev_EventID ` set items = {40}"
    using Claim_items [OF C(1)] sample_pending by (simp add: sample_locked)
  ultimately obtain w' p' where B: "publishBatch id ''r1'' 10 relay_lease
      (sample_world sample_outbox, sample_transport) = (Inr (), (w', p'))" "40 \<in> published_ids (w_db w')"
    using publish_loop_run [OF C(2) _ C(3,4), of sample_transport] by (auto simp: publishBatch_def)
  have "40 \<notin> published_ids sample_outbox"
    by (simp add: published_ids_def sample_outbox_def new_event_def)
  with B published_was_accepted [OF B(1)] show ?thesis by auto
qed

theorem relay_claims_disjoint_witness:
  "\<exists>xs w' ys v'. Claim id ''r1'' 10 relay_lease (sample_world sample_outbox) = (Inr xs, w') \<and>
     Claim id ''r2'' 10 relay_lease w' = (Inr ys, v') \<and> ev_EventID ` set xs = {40} \<and>
     ev_EventID ` set xs \<inter> ev_EventID ` set ys = {}"
proof -
  obtain xs w' where C: "Claim id ''r1'' 10 relay_lease (sample_world sample_outbox) = (Inr xs, w')"
      and xs: "ev_EventID ` set xs = {40}"
      and w': "w_dbclock w' = w_dbclock (sample_world sample_outbox)" "no_faults w'"
    using sample_claim_event by blast
  obtain ys v' where D: "Claim id ''r2'' 10 relay_lease w' = (Inr ys, v')"
    using w'(2) by (simp add: Claim_def pool_stmt_def new_tx_def bind_tx_def run_simps Let_def)
  have "tx_now w' \<le> tx_now (sample_world sample_outbox) + interval_seconds (duration_Seconds relay_lease)"
    by (simp add: w_now_def begun_def w' interval_seconds_def duration_Seconds_def relay_lease_def)
  from relay_claims_disjoint [OF _ C refl D this] C D xs show ?thesis by auto
qed

theorem relay_delivers_witness:
  "\<exists>w' new. publishBatch id ''r1'' 10 relay_lease (sample_world sample_outbox, sample_transport) =
      (Inr (), (w', sample_transport\<lparr>tr_accepted := new\<rparr>)) \<and> map ev_EventID new = [40]"
proof -
  obtain w' new where "publishBatch id ''r1'' 10 relay_lease (sample_world sample_outbox, sample_transport) =
      (Inr (), (w', sample_transport\<lparr>tr_accepted := new\<rparr>))" "distinct (map ev_EventID new)"
      "ev_EventID ` set new = {40}"
    using relay_delivers [of "sample_world sample_outbox" sample_transport id "''r1''" 10 relay_lease]
      sample_outbox_keys sample_pending
    by (auto simp: sample_locked)
  moreover have "map ev_EventID new = [40]"
  proof -
    have "mset (map ev_EventID new) = mset [40]"
      using calculation(2,3) by (intro set_eq_iff_mset_eq_distinct [THEN iffD1]) simp_all
    then show ?thesis by (simp add: mset_single_iff [of "map ev_EventID new"] del: mset_map)
  qed
  ultimately show ?thesis by (intro exI [of _ w'] exI [of _ new]) simp
qed

theorem publish_backoff_bounds_witness:
  "publish_backoff 8 = 256 \<and> publish_backoff 9 = 300"
  using publish_backoff_bounds [of 8 40 "''r1''" "''down''" "sample_world sample_outbox"]
  by (simp add: publish_backoff_def)

end
