(* ===== verification/Relay_Process.thy ===== *)
theory Relay_Process
  imports Outbox_Properties
begin

text \<open>
  The relay process: \<open>NewRelay\<close> and \<open>Run\<close> of internal/outbox/outbox.go and the Kafka producer of
  internal/kafka/producer.go.  The Kafka client library is a parameter: what \<open>WriteMessages\<close> does to the
  brokers, what dialling the first broker gives, and the JSON encoding of an event.
\<close>

section \<open>The Kafka producer\<close>

record kafka_message =
  km_Key :: string
  km_Value :: string

datatype balancer = LeastBytes

record Producer =
  pr_brokers :: "string list"
  pr_topic :: string
  pr_balancer :: balancer
  pr_batchTimeout :: duration
  pr_autoTopics :: bool
  pr_requireAll :: bool

definition NewProducer :: "string list \<Rightarrow> string \<Rightarrow> Producer" where
  "NewProducer brokers topic =
     \<lparr>pr_brokers = brokers, pr_topic = topic, pr_balancer = LeastBytes, pr_batchTimeout = 10 * 1000000,
      pr_autoTopics = True, pr_requireAll = True\<rparr>"

definition Producer_Publish ::
  "(uuid \<Rightarrow> string) \<Rightarrow> (outbox_Event \<Rightarrow> go_error + string) \<Rightarrow> (kafka_message \<Rightarrow> 'k \<Rightarrow> go_error option \<times> 'k) \<Rightarrow>
   outbox_Event \<Rightarrow> 'k \<Rightarrow> go_error option \<times> 'k" where
  "Producer_Publish ustr marshal put ev k =
     (case marshal ev of
        Inl e \<Rightarrow> (Some e, k)
      | Inr body \<Rightarrow> put \<lparr>km_Key = ustr (ev_EntityID ev), km_Value = body\<rparr> k)"

text \<open>\<open>dial\<close> is the outcome of connecting to a broker and closing the connection again.\<close>

text \<open>\<open>Close\<close> flushes and closes the writer of the library.\<close>

definition Producer_Close :: "('k \<Rightarrow> go_error option \<times> 'k) \<Rightarrow> 'k \<Rightarrow> go_error option \<times> 'k" where
  "Producer_Close close_writer k = close_writer k"

definition Producer_Ping :: "(string \<Rightarrow> go_error option) \<Rightarrow> Producer \<Rightarrow> go_error option" where
  "Producer_Ping dial p =
     (case pr_brokers p of
        [] \<Rightarrow> Some (ErrorString ''no Kafka brokers configured'')
      | b # _ \<Rightarrow> dial b)"

text \<open>The publisher of the tests and of disabled deployments.\<close>

definition NoopPublisher_Publish :: "outbox_Event \<Rightarrow> go_error option" where
  "NoopPublisher_Publish ev = None"

text \<open>
  The laws of a Kafka client: a write that returns no error appended its message to the topic, and a
  write that returns one appended it or not (an acknowledgement may be lost).
\<close>

locale kafka_client =
  fixes put :: "kafka_message \<Rightarrow> 'k \<Rightarrow> go_error option \<times> 'k"
    and topic :: "'k \<Rightarrow> kafka_message list"
  assumes write_ok: "put m k = (None, k') \<Longrightarrow> topic k' = topic k @ [m]"
    and write_err: "put m k = (Some e, k') \<Longrightarrow> topic k' = topic k \<or> topic k' = topic k @ [m]"
begin

lemma publish_topic:
  assumes "Producer_Publish ustr marshal put ev k = (res, k')"
  shows "topic k' = topic k \<and> res \<noteq> None \<or>
    (\<exists>body. marshal ev = Inr body \<and>
       topic k' = topic k @ [\<lparr>km_Key = ustr (ev_EntityID ev), km_Value = body\<rparr>])"
  using assms write_ok write_err
  by (cases res) (fastforce simp: Producer_Publish_def split: sum.splits)+

end

text \<open>A topic with the outcomes of the writes to come; the flag tells whether a failing write arrived.\<close>

record kafka_log =
  kl_outcomes :: "(go_error \<times> bool) option list"
  kl_messages :: "kafka_message list"

definition kafka_write :: "kafka_message \<Rightarrow> kafka_log \<Rightarrow> go_error option \<times> kafka_log" where
  "kafka_write m k =
     (case kl_outcomes k of
        Some (e, arrived) # os \<Rightarrow>
          (Some e, k\<lparr>kl_outcomes := os, kl_messages := kl_messages k @ (if arrived then [m] else [])\<rparr>)
      | os \<Rightarrow> (None, k\<lparr>kl_outcomes := tl os, kl_messages := kl_messages k @ [m]\<rparr>))"

interpretation kafka: kafka_client kafka_write kl_messages
  by unfold_locales (auto simp: kafka_write_def split: list.splits option.splits prod.splits if_splits)

text \<open>
  The outcome list of the relay model stands for the results of the producer: publishing through the
  producer, with an encoding that does not fail, follows the same outcomes, and what the relay model
  calls accepted is on the topic.
\<close>

definition relay_view :: "kafka_log \<Rightarrow> outbox_Event list \<Rightarrow> transport" where
  "relay_view k evs = \<lparr>tr_outcomes = map (map_option fst) (kl_outcomes k), tr_accepted = evs\<rparr>"

lemma producer_refines_transport:
  assumes "\<And>ev. marshal ev = Inr (body ev)"
    and "Producer_Publish ustr marshal kafka_write ev k = (res, k')"
    and "(\<lambda>ev. \<lparr>km_Key = ustr (ev_EntityID ev), km_Value = body ev\<rparr>) ` set evs \<subseteq> set (kl_messages k)"
  shows "\<exists>evs'. Publish ev (relay_view k evs) = (res, relay_view k' evs') \<and>
    (\<lambda>ev. \<lparr>km_Key = ustr (ev_EntityID ev), km_Value = body ev\<rparr>) ` set evs' \<subseteq> set (kl_messages k')"
  using assms(2,3)
  by (auto simp: Producer_Publish_def assms(1) kafka_write_def Publish_def relay_view_def
      split: list.splits option.splits prod.splits if_splits)

section \<open>The relay loop\<close>

record Relay =
  rl_id :: string
  rl_batch :: int
  rl_interval :: duration
  rl_lease :: duration

definition NewRelay :: "string \<Rightarrow> int \<Rightarrow> duration \<Rightarrow> Relay" where
  "NewRelay generated batch interval =
     \<lparr>rl_id = ''relay-'' @ generated, rl_batch = batch, rl_interval = interval, rl_lease = relay_lease\<rparr>"

text \<open>
  One batch at the start and one per tick until the context ends; an error is logged.  Each entry of the
  list has the order in which the batch's rows come back and what other processes do to the database
  until the next batch.
\<close>

fun Relay_Run ::
  "Relay \<Rightarrow> ((events_row list \<Rightarrow> events_row list) \<times> (db \<Rightarrow> db)) list \<Rightarrow> pg_world \<times> transport \<Rightarrow>
   pg_world \<times> transport" where
  "Relay_Run r [] s = s"
| "Relay_Run r ((arrange, others) # rest) s =
     (case publishBatch arrange (rl_id r) (rl_batch r) (rl_lease r) s of
        (_, (w, p)) \<Rightarrow> Relay_Run r rest (w\<lparr>w_db := others (w_db w)\<rparr>, p))"

text \<open>
  Over a whole run of the only relay, with API processes and workers in between, every event that
  becomes published was accepted by the transport.
\<close>

theorem relay_run_published:
  assumes "\<forall>(arrange, others)\<in>set ticks. \<forall>d. published_ids (others d) \<subseteq> published_ids d"
    and "Relay_Run r ticks (w, p) = (w', p')"
  shows "\<exists>new. tr_accepted p' = tr_accepted p @ new \<and>
    published_ids (w_db w') \<subseteq> published_ids (w_db w) \<union> ev_EventID ` set new"
  using assms
proof (induction ticks arbitrary: w p)
  case Nil
  then show ?case by simp
next
  case (Cons t ts)
  obtain arrange others where t: "t = (arrange, others)" by fastforce
  obtain res w1 p1 where B: "publishBatch arrange (rl_id r) (rl_batch r) (rl_lease r) (w, p) = (res, (w1, p1))"
    by (metis prod.exhaust)
  from Cons(3) t B have R: "Relay_Run r ts (w1\<lparr>w_db := others (w_db w1)\<rparr>, p1) = (w', p')" by simp
  from publishBatch_ids [OF B] obtain new1 where 1: "tr_accepted p1 = tr_accepted p @ new1"
    "published_ids (w_db w1) \<subseteq> published_ids (w_db w) \<union> ev_EventID ` set new1" by blast
  from Cons(2) t have o: "published_ids (others (w_db w1)) \<subseteq> published_ids (w_db w1)" by auto
  from Cons(1) [OF _ R] Cons(2) obtain new2 where 2: "tr_accepted p' = tr_accepted p1 @ new2"
    "published_ids (w_db w') \<subseteq> published_ids (others (w_db w1)) \<union> ev_EventID ` set new2" by auto
  from 1 2 o show ?case by (intro exI [of _ "new1 @ new2"]) auto
qed

end
