(* ===== verification/Http_Api.thy ===== *)
theory Http_Api
  imports Job_Service Outbox Executor Worker_Registry
begin

text \<open>
  The HTTP API: the response envelope (internal/response), the job handlers with their role guards
  (internal/job/handler.go), request ids, panic recovery and CORS (internal/middleware,
  internal/server), and the router that puts authentication and rate limiting in front of every route
  under /api/v1.  The router package, JSON decoding of a request body, UUID and RFC 3339 parsing are
  parameters; the router's choice of an entry is part of the request.
\<close>

section \<open>Requests and responses\<close>

text \<open>
  \<open>rq_Route\<close> is the pattern of the entry that the router matched; headers, query values and path
  parameters that are absent are empty, as their getters return them.
\<close>

record http_request =
  rq_Method :: string
  rq_Route :: string
  rq_Header :: "string \<Rightarrow> string"
  rq_Query :: "string \<Rightarrow> string"
  rq_Param :: "string \<Rightarrow> string"
  rq_Body :: string
  rq_ctx :: ctx
  rq_RequestID :: string

record DashboardSummary =
  ds_StatusCounts :: "Status \<Rightarrow> int option"
  ds_ActiveWorkers :: nat
  ds_OutboxBacklog :: nat
  ds_FailuresLast24Hour :: nat

datatype api_data =
    DStatus string
  | DCreate CreateResponse
  | DPage Page
  | DJob Job
  | DAttempts "Attempt list"
  | DEvents "Event list"
  | DDeadLetters "DeadLetterJob list"
  | DJobID uuid
  | DWorkers "Info list"
  | DPrincipal Principal
  | DSummary DashboardSummary
  | DReplay uuid

record Envelope =
  en_Success :: bool
  en_Data :: "api_data option"
  en_Error :: "(string \<times> string) option"
  en_RequestID :: string

record http_response =
  hr_Status :: int
  hr_Header :: header
  hr_Body :: "Envelope option"

definition write_response :: "int \<Rightarrow> Envelope \<Rightarrow> http_response" where
  "write_response status body =
     \<lparr>hr_Status = status, hr_Header = [''Content-Type'' \<mapsto> ''application/json''], hr_Body = Some body\<rparr>"

definition response_JSON :: "http_request \<Rightarrow> int \<Rightarrow> api_data \<Rightarrow> http_response" where
  "response_JSON r status data =
     write_response status
       \<lparr>en_Success = True, en_Data = Some data, en_Error = None, en_RequestID = rq_RequestID r\<rparr>"

definition response_Error :: "http_request \<Rightarrow> int \<Rightarrow> string \<Rightarrow> string \<Rightarrow> http_response" where
  "response_Error r status code message =
     write_response status
       \<lparr>en_Success = False, en_Data = None, en_Error = Some (code, message),
        en_RequestID = rq_RequestID r\<rparr>"

text \<open>A header set by a middleware before the inner handler runs.\<close>

definition with_header :: "string \<Rightarrow> string \<Rightarrow> http_response \<Rightarrow> http_response" where
  "with_header key value resp = resp\<lparr>hr_Header := [key \<mapsto> value] ++ hr_Header resp\<rparr>"

type_synonym endpoint = "http_request \<Rightarrow> pg_world \<Rightarrow> http_response \<times> pg_world"

section \<open>Helpers of the handlers\<close>

text \<open>What the handlers take from outside: body decoding, UUID and time parsing, JSON validity, the
  request digest, and the transactions that run between the two halves of an operator transition.\<close>

record http_env =
  he_decode :: "string \<Rightarrow> CreateRequest option"
  he_uuid_Parse :: "string \<Rightarrow> uuid option"
  he_time_Parse :: "string \<Rightarrow> time option"
  he_json_Valid :: "json \<Rightarrow> bool"
  he_digest :: "hashed_fields \<Rightarrow> string"
  he_gap :: "db \<Rightarrow> db"

definition writeError :: "http_request \<Rightarrow> go_error \<Rightarrow> http_response" where
  "writeError r err =
     (if errors_Is err ErrInvalidInput
      then response_Error r 400 ''INVALID_INPUT'' (error_Error err)
      else if errors_Is err ErrInvalidTransition
      then response_Error r 409 ''INVALID_TRANSITION'' (error_Error err)
      else if errors_Is err ErrConflict
      then response_Error r 409 ''CONFLICT'' (error_Error err)
      else if errors_Is err ErrIdempotency
      then response_Error r 409 ''IDEMPOTENCY_CONFLICT'' (error_Error err)
      else if errors_Is err ErrNotFound
      then response_Error r 404 ''NOT_FOUND'' ''resource not found''
      else response_Error r 500 ''INTERNAL_ERROR'' ''internal server error'')"

definition queryInt :: "http_request \<Rightarrow> string \<Rightarrow> int \<Rightarrow> string + int" where
  "queryInt r key fallback =
     (let value = rq_Query r key in
      if value = '''' then Inr fallback
      else
        (case Atoi value of
           None \<Rightarrow> Inl (key @ '' must be an integer'')
         | Some parsed \<Rightarrow>
             if parsed < 1 then Inl (key @ '' must be at least 1'') else Inr parsed))"

definition parseUUID :: "http_env \<Rightarrow> http_request \<Rightarrow> string \<Rightarrow> http_response + uuid" where
  "parseUUID env r param =
     (case he_uuid_Parse env (rq_Param r param) of
        None \<Rightarrow> Inl (response_Error r 400 ''INVALID_UUID'' (param @ '' must be a valid UUID''))
      | Some i \<Rightarrow> Inr i)"

text \<open>The common end of the handlers: a service call, then an error or a success envelope.\<close>

definition respond ::
  "http_request \<Rightarrow> (db, 'a) tx \<Rightarrow> ('a \<Rightarrow> http_response) \<Rightarrow> pg_world \<Rightarrow> http_response \<times> pg_world" where
  "respond r m ok w =
     (case m w of
        (Inl err, w') \<Rightarrow> (writeError r err, w')
      | (Inr x, w') \<Rightarrow> (ok x, w'))"

definition with_uuid ::
  "http_env \<Rightarrow> string \<Rightarrow> (uuid \<Rightarrow> endpoint) \<Rightarrow> endpoint" where
  "with_uuid env param f r w =
     (case parseUUID env r param of Inl resp \<Rightarrow> (resp, w) | Inr i \<Rightarrow> f i r w)"

section \<open>The job handlers\<close>

definition Handler_create :: "http_env \<Rightarrow> Service \<Rightarrow> endpoint" where
  "Handler_create env s r w =
     (case he_decode env (take 1048576 (rq_Body r)) of
        None \<Rightarrow> (response_Error r 400 ''INVALID_JSON'' ''request body must be valid JSON'', w)
      | Some req \<Rightarrow>
          respond r
            (Service_Create (he_json_Valid env) (he_digest env) s (rq_ctx r)
               (req\<lparr>cr_IdempotencyKey := rq_Header r ''Idempotency-Key''\<rparr>))
            (\<lambda>resp. response_JSON r (if resp_Replayed resp then 200 else 201) (DCreate resp)) w)"

definition time_bound ::
  "http_env \<Rightarrow> http_request \<Rightarrow> string \<Rightarrow> http_response + time option" where
  "time_bound env r key =
     (let value = rq_Query r key in
      if value = '''' then Inr None
      else
        (case he_time_Parse env value of
           None \<Rightarrow> Inl (response_Error r 400 ''INVALID_INPUT'' (key @ '' must be RFC3339''))
         | Some t \<Rightarrow> Inr (Some t)))"

definition Handler_list :: "http_env \<Rightarrow> endpoint" where
  "Handler_list env r w =
     (case queryInt r ''page'' 1 of
        Inl m \<Rightarrow> (response_Error r 400 ''INVALID_INPUT'' m, w)
      | Inr page \<Rightarrow>
     (case queryInt r ''page_size'' 20 of
        Inl m \<Rightarrow> (response_Error r 400 ''INVALID_INPUT'' m, w)
      | Inr pageSize \<Rightarrow>
     (case time_bound env r ''created_after'' of
        Inl resp \<Rightarrow> (resp, w)
      | Inr after \<Rightarrow>
     (case time_bound env r ''created_before'' of
        Inl resp \<Rightarrow> (resp, w)
      | Inr before \<Rightarrow>
          respond r
            (Service_List (rq_ctx r)
               \<lparr>lf_Status = rq_Query r ''status'', lf_JobType = rq_Query r ''job_type'', lf_Page = page,
                lf_PageSize = pageSize, lf_Sort = rq_Query r ''sort'', lf_Order = rq_Query r ''order'',
                lf_CreatedAfter = after, lf_CreatedBefore = before\<rparr>)
            (\<lambda>jobPage. response_JSON r 200 (DPage jobPage)) w))))"

definition Handler_events :: "http_env \<Rightarrow> endpoint" where
  "Handler_events env = with_uuid env ''jobID'' (\<lambda>i r.
     respond r (Service_Events (rq_ctx r) i) (\<lambda>items. response_JSON r 200 (DEvents items)))"

definition Handler_get :: "http_env \<Rightarrow> endpoint" where
  "Handler_get env = with_uuid env ''jobID'' (\<lambda>i r.
     respond r (Service_Get (rq_ctx r) i) (\<lambda>j. response_JSON r 200 (DJob j)))"

definition Handler_attempts :: "http_env \<Rightarrow> endpoint" where
  "Handler_attempts env = with_uuid env ''jobID'' (\<lambda>i r.
     respond r (Service_Attempts (rq_ctx r) i) (\<lambda>items. response_JSON r 200 (DAttempts items)))"

definition Handler_transition :: "http_env \<Rightarrow> (ctx \<Rightarrow> uuid \<Rightarrow> (db, unit) tx) \<Rightarrow> endpoint" where
  "Handler_transition env fn = with_uuid env ''jobID'' (\<lambda>i r.
     respond r (fn (rq_ctx r) i) (\<lambda>_. response_JSON r 200 (DJobID i)))"

definition Handler_cancel :: "http_env \<Rightarrow> endpoint" where
  "Handler_cancel env = Handler_transition env (Cancel (he_gap env))"

definition Handler_pause :: "http_env \<Rightarrow> endpoint" where
  "Handler_pause env = Handler_transition env (Pause (he_gap env))"

definition Handler_resume :: "http_env \<Rightarrow> endpoint" where
  "Handler_resume env = Handler_transition env (Resume (he_gap env))"

definition Handler_retry :: "http_env \<Rightarrow> endpoint" where
  "Handler_retry env = Handler_transition env (Retry (he_gap env))"

definition Handler_deadLetters :: "http_env \<Rightarrow> endpoint" where
  "Handler_deadLetters env r w =
     (case queryInt r ''page'' 1 of
        Inl m \<Rightarrow> (response_Error r 400 ''INVALID_INPUT'' m, w)
      | Inr page \<Rightarrow>
     (case queryInt r ''page_size'' 20 of
        Inl m \<Rightarrow> (response_Error r 400 ''INVALID_INPUT'' m, w)
      | Inr pageSize \<Rightarrow>
          respond r (Service_ListDeadLetters (rq_ctx r) page pageSize)
            (\<lambda>items. response_JSON r 200 (DDeadLetters items)) w))"

definition Handler_requeueDeadLetter :: "http_env \<Rightarrow> endpoint" where
  "Handler_requeueDeadLetter env = with_uuid env ''deadLetterID'' (\<lambda>i r.
     respond r (Service_RequeueDeadLetter (rq_ctx r) i) (\<lambda>j. response_JSON r 201 (DJob j)))"

section \<open>Routes\<close>

text \<open>\<open>auth.Require\<close> in front of a handler.\<close>

definition auth_Require :: "Role \<Rightarrow> endpoint \<Rightarrow> endpoint" where
  "auth_Require role next r w =
     (case Require role (rq_ctx r) of
        Inl e \<Rightarrow> (response_Error r (he_status e) (he_code e) (he_message e), w)
      | Inr _ \<Rightarrow> next r w)"

type_synonym routes = "((string \<times> string) \<times> endpoint) list"

definition Routes :: "http_env \<Rightarrow> Service \<Rightarrow> routes" where
  "Routes env s =
     [((''POST'', ''/''), auth_Require RoleOperator (Handler_create env s)),
      ((''GET'', ''/''), Handler_list env),
      ((''GET'', ''/{jobID}''), Handler_get env),
      ((''GET'', ''/{jobID}/attempts''), Handler_attempts env),
      ((''GET'', ''/{jobID}/events''), Handler_events env),
      ((''POST'', ''/{jobID}/cancel''), auth_Require RoleOperator (Handler_cancel env)),
      ((''POST'', ''/{jobID}/pause''), auth_Require RoleOperator (Handler_pause env)),
      ((''POST'', ''/{jobID}/resume''), auth_Require RoleOperator (Handler_resume env)),
      ((''POST'', ''/{jobID}/retry''), auth_Require RoleOperator (Handler_retry env))]"

definition DeadLetterRoutes :: "http_env \<Rightarrow> routes" where
  "DeadLetterRoutes env =
     [((''GET'', ''/''), Handler_deadLetters env),
      ((''POST'', ''/{deadLetterID}/requeue''),
         auth_Require RoleOperator (Handler_requeueDeadLetter env))]"

section \<open>The server\<close>

text \<open>
  The options of the server and the answers of its dependencies during a request: the database ping,
  the further readiness checks, the registry's list of workers, the rate limiter (absent when it is not
  configured) and the router's own answer when nothing matches.
\<close>

record Options =
  op_sha :: "string \<Rightarrow> string"
  op_AuthEnabled :: bool
  op_RateLimiter :: "(Principal \<Rightarrow> go_error + bool \<times> duration) option"
  op_AllowedOrigins :: "string list"
  op_Outbox :: bool
  op_Ping :: "go_error option"
  op_ReadyChecks :: "go_error option list"
  op_ActiveWorkers :: "go_error + Info list"
  op_NotFound :: http_response

definition server_health :: endpoint where
  "server_health r w = (response_JSON r 200 (DStatus ''ok''), w)"

definition server_ready :: "Options \<Rightarrow> endpoint" where
  "server_ready opts r w =
     (if op_Ping opts \<noteq> None
      then (response_Error r 503 ''DATABASE_UNAVAILABLE'' ''database is not ready'', w)
      else if list_ex (\<lambda>check. check \<noteq> None) (op_ReadyChecks opts)
      then (response_Error r 503 ''DEPENDENCY_UNAVAILABLE'' ''dependency is not ready'', w)
      else (response_JSON r 200 (DStatus ''ready''), w))"

definition server_workers :: "Options \<Rightarrow> endpoint" where
  "server_workers opts r w =
     (case op_ActiveWorkers opts of
        Inl _ \<Rightarrow> (response_Error r 500 ''WORKER_REGISTRY_UNAVAILABLE'' ''worker registry is unavailable'', w)
      | Inr workers \<Rightarrow> (response_JSON r 200 (DWorkers workers), w))"

definition server_whoami :: endpoint where
  "server_whoami r w =
     (response_JSON r 200 (DPrincipal
        (case FromContext (rq_ctx r) of
           Some p \<Rightarrow> p
         | None \<Rightarrow> \<lparr>p_ClientID = uuid_Nil, p_TenantID = uuid_Nil, p_TenantSlug = '''',
                    p_ClientName = '''', p_Role = ''''\<rparr>)), w)"

definition status_counts :: "uuid \<Rightarrow> jobs_row list \<Rightarrow> Status \<Rightarrow> int option" where
  "status_counts tenantID rs st =
     (let n = length (filter (\<lambda>r. j_TenantID r = tenantID \<and> j_Status r = st) rs)
      in if n = 0 then None else Some (int n))"

definition recent_failures :: "uuid \<Rightarrow> time \<Rightarrow> attempts_row list \<Rightarrow> nat" where
  "recent_failures tenantID now as =
     length (filter (\<lambda>a. a_TenantID a = tenantID \<and> a_Status a = AttemptFailed \<and>
       (case a_FailedAt a of None \<Rightarrow> False | Some t \<Rightarrow> t \<ge> now - interval_seconds 86400)) as)"

definition server_summary :: "Options \<Rightarrow> endpoint" where
  "server_summary opts r w =
     (let t = p_TenantID (PrincipalOrDefault (rq_ctx r)) in
      case pool_query (\<lambda>w d. status_counts t (jobs d)) w of
        (Inl _, w1) \<Rightarrow> (response_Error r 500 ''INTERNAL_ERROR'' ''failed to load summary'', w1)
      | (Inr counts, w1) \<Rightarrow>
          (case pool_query (\<lambda>w d. recent_failures t (w_now w) (job_attempts d)) w1 of
             (failures, w2) \<Rightarrow>
               (case (if op_Outbox opts then Backlog (Some t) w2 else (Inr 0, w2)) of
                  (backlog, w3) \<Rightarrow>
                    (response_JSON r 200 (DSummary
                       \<lparr>ds_StatusCounts = counts,
                        ds_ActiveWorkers =
                          (case op_ActiveWorkers opts of Inl _ \<Rightarrow> 0 | Inr ws \<Rightarrow> length ws),
                        ds_OutboxBacklog = (case backlog of Inl _ \<Rightarrow> 0 | Inr n \<Rightarrow> n),
                        ds_FailuresLast24Hour = (case failures of Inl _ \<Rightarrow> 0 | Inr n \<Rightarrow> n)\<rparr>), w3))))"

definition server_replay :: "http_env \<Rightarrow> Options \<Rightarrow> endpoint" where
  "server_replay env opts r w =
     (if \<not> op_Outbox opts
      then (response_Error r 503 ''DEPENDENCY_UNAVAILABLE'' ''outbox unavailable'', w)
      else
        (case he_uuid_Parse env (rq_Param r ''eventID'') of
           None \<Rightarrow> (response_Error r 400 ''INVALID_UUID'' ''eventID must be a UUID'', w)
         | Some i \<Rightarrow>
             (case Replay (p_TenantID (PrincipalOrDefault (rq_ctx r))) i w of
                (Inl _, w') \<Rightarrow> (response_Error r 404 ''NOT_FOUND'' ''event not found'', w')
              | (Inr _, w') \<Rightarrow> (response_JSON r 200 (DReplay i), w'))))"

definition mount :: "string \<Rightarrow> routes \<Rightarrow> routes" where
  "mount prefix rs = map (\<lambda>((m, p), h). ((m, prefix @ p), h)) rs"

definition api_routes :: "http_env \<Rightarrow> Service \<Rightarrow> Options \<Rightarrow> routes" where
  "api_routes env s opts =
     mount ''/api/v1/jobs'' (Routes env s) @
     mount ''/api/v1/dead-letter-jobs'' (DeadLetterRoutes env) @
     mount ''/api/v1''
       [((''GET'', ''/workers''), server_workers opts),
        ((''GET'', ''/auth/whoami''), server_whoami),
        ((''GET'', ''/dashboard/summary''), server_summary opts),
        ((''POST'', ''/events/{eventID}/replay''), auth_Require RoleAdmin (server_replay env opts))]"

definition public_routes :: "Options \<Rightarrow> routes" where
  "public_routes opts =
     [((''GET'', ''/health''), server_health), ((''GET'', ''/ready''), server_ready opts)]"

text \<open>The rate limiter in front of the API routes, with the header of a refusal.\<close>

definition limiter_Use :: "Options \<Rightarrow> endpoint \<Rightarrow> endpoint" where
  "limiter_Use opts next r w =
     (case op_RateLimiter opts of
        None \<Rightarrow> next r w
      | Some allow \<Rightarrow>
          (let res = (case FromContext (rq_ctx r) of Some p \<Rightarrow> allow p | None \<Rightarrow> Inr (False, 0)) in
           case RateLimiter_Middleware (rq_ctx r) res of
             Inr _ \<Rightarrow> next r w
           | Inl e \<Rightarrow>
               (let resp = response_Error r (he_status e) (he_code e) (he_message e) in
                ((case res of
                    Inr (False, retry) \<Rightarrow>
                      if he_status e = 429
                      then with_header ''Retry-After'' (Itoa (duration_Seconds retry)) resp else resp
                  | _ \<Rightarrow> resp), w))))"

text \<open>
  \<open>auth.Middleware\<close> in front of the API routes.  Its model never ends in a Go error of its own; that
  case is answered like any other error of a handler.
\<close>

definition auth_Use :: "Options \<Rightarrow> endpoint \<Rightarrow> endpoint" where
  "auth_Use opts next r w =
     (case Middleware (op_sha opts) (op_AuthEnabled opts) (rq_ctx r) (rq_Header r ''X-API-Key'') w of
        (Inr (Inr ctx), w') \<Rightarrow> next (r\<lparr>rq_ctx := ctx\<rparr>) w'
      | (Inr (Inl e), w') \<Rightarrow> (response_Error r (he_status e) (he_code e) (he_message e), w')
      | (Inl err, w') \<Rightarrow> (writeError r err, w'))"

definition cors :: "string list \<Rightarrow> endpoint \<Rightarrow> endpoint" where
  "cors origins next r w =
     (let origin = rq_Header r ''Origin'';
          allowed = origin \<in> set (map TrimSpace origins) \<and> origin \<noteq> '''';
          answer = (if rq_Method r = ''OPTIONS''
                    then (\<lparr>hr_Status = 204, hr_Header = Map.empty, hr_Body = None\<rparr>, w) else next r w)
      in if allowed
         then (with_header ''Access-Control-Allow-Origin'' origin
                (with_header ''Vary'' ''Origin''
                 (with_header ''Access-Control-Allow-Headers'' ''Content-Type, X-API-Key, Idempotency-Key''
                  (with_header ''Access-Control-Allow-Methods'' ''GET,POST,OPTIONS'' (fst answer)))),
               snd answer)
         else answer)"

text \<open>Panic recovery, for a handler that panicked (\<open>None\<close>) before it wrote anything.\<close>

definition Recovery :: "http_request \<Rightarrow> http_response option \<Rightarrow> http_response" where
  "Recovery r outcome =
     (case outcome of
        None \<Rightarrow> response_Error r 500 ''INTERNAL_ERROR'' ''internal server error''
      | Some resp \<Rightarrow> resp)"

definition RequestID :: "string \<Rightarrow> endpoint \<Rightarrow> endpoint" where
  "RequestID generated next r w =
     (let given = rq_Header r ''X-Request-ID'';
          requestID = (if given = '''' then generated else given)
      in case next (r\<lparr>rq_RequestID := requestID\<rparr>) w of
           (resp, w') \<Rightarrow> (with_header ''X-Request-ID'' requestID resp, w'))"

text \<open>The router entry of a request: a public one, or an API one behind the two middlewares.\<close>

definition route :: "http_env \<Rightarrow> Service \<Rightarrow> Options \<Rightarrow> endpoint" where
  "route env s opts r w =
     (case map_of (public_routes opts) (rq_Method r, rq_Route r) of
        Some h \<Rightarrow> h r w
      | None \<Rightarrow>
          (case map_of (api_routes env s opts) (rq_Method r, rq_Route r) of
             Some h \<Rightarrow> auth_Use opts (limiter_Use opts h) r w
           | None \<Rightarrow> (op_NotFound opts, w)))"

definition server_New :: "http_env \<Rightarrow> Service \<Rightarrow> Options \<Rightarrow> string \<Rightarrow> endpoint" where
  "server_New env s opts generated =
     RequestID generated (\<lambda>r w.
       case cors (op_AllowedOrigins opts) (route env s opts) r w of
         (resp, w') \<Rightarrow> (Recovery r (Some resp), w'))"

end
