(* ===== verification/Http_Properties.thy ===== *)
theory Http_Properties
  imports Http_Api System Service_Properties Outbox_Properties
begin

text \<open>
  The HTTP API as a whole: who can change anything through it, what a client is told, and how far
  its inputs reach.
\<close>

section \<open>Handlers that only read\<close>

definition reads :: "(db, 'a) tx \<Rightarrow> bool" where
  "reads m \<longleftrightarrow> (\<forall>w. w_db (snd (m w)) = w_db w)"

lemma readsD: "reads m \<Longrightarrow> w_db (snd (m w)) = w_db w"
  by (simp add: reads_def)

lemma reads_fail: "reads (fail_tx e)"
  by (simp add: reads_def fail_tx_def)

lemma reads_stmt:
  assumes "\<And>w d x d'. f w d = Inr (x, d') \<Longrightarrow> d' = d"
  shows "reads (pool_stmt f)"
  unfolding reads_def
proof
  fix w
  obtain r w' where R: "pool_stmt f w = (r, w')" by fastforce
  show "w_db (snd (pool_stmt f w)) = w_db w"
  proof (cases r)
    case (Inl e)
    with R show ?thesis using atomic_txD [OF atomic_pool_stmt, of f w e w'] by simp
  next
    case (Inr x)
    with R have "pool_stmt f w = (Inr x, w')" by simp
    then have "w_db w' = w_db w" using assms by (auto simp: pool_stmt_def tx_simps)
    with R show ?thesis by simp
  qed
qed

lemma reads_query: "reads (pool_query f)"
  unfolding pool_query_def by (rule reads_stmt) simp

lemma reads_service:
  "reads (Service_Get ctx i)" "reads (Service_Attempts ctx i)" "reads (Service_Events ctx i)"
  "reads (Service_ListDeadLetters ctx p n)" "reads (Backlog t)"
  unfolding Service_Get_def GetByID_def Service_Attempts_def ListAttempts_def Service_Events_def
    ListEvents_def Service_ListDeadLetters_def ListDeadLetters_def Backlog_def Let_def
  by (auto intro!: reads_query reads_stmt split: option.splits sum.splits)

lemma reads_bind:
  assumes "reads m" and "\<And>x. reads (k x)"
  shows "reads (bind_tx m k)"
  unfolding reads_def
proof
  fix w
  obtain r w' where m: "m w = (r, w')" by fastforce
  with readsD [OF assms(1), of w] have "w_db w' = w_db w" by simp
  with m assms(2) show "w_db (snd (bind_tx m k w)) = w_db w"
    by (cases r) (simp_all add: bind_tx_def reads_def)
qed

lemma reads_return: "reads (return_tx x)"
  by (simp add: reads_def return_tx_def)

lemma reads_List: "reads (Service_List ctx f)"
  unfolding Service_List_def List_def Let_def
  by (auto intro!: reads_fail reads_bind reads_query reads_stmt reads_return
      split: option.splits sum.splits prod.splits)

definition quiet :: "endpoint \<Rightarrow> bool" where
  "quiet h \<longleftrightarrow> (\<forall>r w. w_db (snd (h r w)) = w_db w)"

lemma quiet_respond: "reads m \<Longrightarrow> w_db (snd (respond r m ok w)) = w_db w"
  using readsD [of m w] by (cases "m w"; cases "fst (m w)") (auto simp: respond_def)

lemma quiet_with_uuid: "(\<And>i. quiet (f i)) \<Longrightarrow> quiet (with_uuid env p f)"
  by (simp add: quiet_def with_uuid_def split: sum.splits)

lemma quiet_handlers:
  "quiet (Handler_list env)" "quiet (Handler_get env)" "quiet (Handler_attempts env)"
  "quiet (Handler_events env)" "quiet (Handler_deadLetters env)" "quiet (server_workers opts)"
  "quiet server_whoami" "quiet server_health" "quiet (server_ready opts)"
  by (auto simp: quiet_def Handler_list_def Handler_deadLetters_def Handler_get_def Handler_attempts_def
      Handler_events_def server_workers_def server_whoami_def server_health_def server_ready_def
      with_uuid_def quiet_respond reads_List reads_service split: sum.splits)

lemma quiet_summary: "quiet (server_summary opts)"
proof -
  have q: "w_db w' = w_db w" if "pool_query f w = (x, w')" for f :: "pg_world \<Rightarrow> db \<Rightarrow> Status \<Rightarrow> int option" and x w w'
    using readsD [OF reads_query, of f w] that by simp
  have n: "w_db w' = w_db w" if "pool_query f w = (x, w')" for f :: "pg_world \<Rightarrow> db \<Rightarrow> nat" and x w w'
    using readsD [OF reads_query, of f w] that by simp
  have b: "w_db w' = w_db w" if "Backlog t w = (x, w')" for t x w w'
    using readsD [OF reads_service(5), of t w] that by simp
  show ?thesis
    by (auto simp: quiet_def server_summary_def Let_def split: prod.splits sum.splits if_splits
        dest!: q n b)
qed

section \<open>Who can change something\<close>

text \<open>Every route that is not quiet is a POST behind a role.\<close>

definition guarded_entry :: "(string \<times> string) \<times> endpoint \<Rightarrow> bool" where
  "guarded_entry e \<longleftrightarrow> quiet (snd e) \<or> fst (fst e) = ''POST'' \<and>
     (\<exists>role h'. snd e = auth_Require role h' \<and> role \<in> {RoleOperator, RoleAdmin} \<and>
        (snd (fst e) = ''/api/v1/events/{eventID}/replay'' \<longrightarrow> role = RoleAdmin))"

lemma guarded_entries:
  "quiet h \<Longrightarrow> guarded_entry ((m, p), h)"
  "p \<noteq> ''/api/v1/events/{eventID}/replay'' \<Longrightarrow> guarded_entry ((''POST'', p), auth_Require RoleOperator h)"
  "guarded_entry ((''POST'', p), auth_Require RoleAdmin h)"
  by (auto simp: guarded_entry_def)

lemma api_routes_guarded: "list_all guarded_entry (api_routes env s opts)"
  unfolding api_routes_def mount_def Routes_def DeadLetterRoutes_def
  by (simp add: guarded_entries quiet_handlers quiet_summary)
lemma same_but_clients_trans:
  "same_but_clients d d' \<Longrightarrow> same_but_clients d' d'' \<Longrightarrow> same_but_clients d d''"
  by (auto simp: same_but_clients_def)

text \<open>What authentication leaves behind, and whom it lets pass.\<close>

lemma Middleware_run:
  assumes "Middleware sha True ctx header w = (r, w')"
  shows "same_but_clients (w_db w) (w_db w')"
    and "r = Inr (Inr ctx') \<Longrightarrow> \<exists>p w1. ctx' = Some p \<and> Authenticate sha (TrimSpace header) w = (Inr p, w1)"
proof -
  have c: "clients_only (Middleware sha True ctx header)"
    unfolding Middleware_def Let_def
    by (auto intro!: clients_only_bind clients_only_try clients_only_basic clients_only_Authenticate
        split: sum.splits)
  with assms show "same_but_clients (w_db w) (w_db w')" by (auto simp: clients_only_def)
  show "\<exists>p w1. ctx' = Some p \<and> Authenticate sha (TrimSpace header) w = (Inr p, w1)" if "r = Inr (Inr ctx')"
    using assms that
    by (cases "Authenticate sha (TrimSpace header) w")
       (auto simp: Middleware_def Let_def bind_tx_def try_tx_def return_tx_def WithPrincipal_def
          split: if_splits sum.splits)
qed

lemma limiter_Use_run:
  "limiter_Use opts next r w = next r w \<or> snd (limiter_Use opts next r w) = w"
  by (auto simp: limiter_Use_def Let_def split: option.splits sum.splits)

lemma auth_Require_run:
  "(\<exists>p. rq_ctx r = Some p \<and> Allows p role) \<or> snd (auth_Require role h r w) = w"
  by (auto simp: auth_Require_def Require_def FromContext_def split: option.splits)

lemma Allows_operator: "role \<in> {RoleOperator, RoleAdmin} \<Longrightarrow> Allows p role \<Longrightarrow> Allows p RoleOperator"
  by (auto simp: Allows_def)

lemma route_changes:
  assumes "op_AuthEnabled opts" and "\<not> same_but_clients (w_db w) (w_db (snd (route env s opts r w)))"
  shows "rq_Method r = ''POST'' \<and> (\<exists>prin w1.
    Authenticate (op_sha opts) (TrimSpace (rq_Header r ''X-API-Key'')) w = (Inr prin, w1) \<and>
    Allows prin RoleOperator \<and>
    (rq_Route r = ''/api/v1/events/{eventID}/replay'' \<longrightarrow> Allows prin RoleAdmin))"
proof -
  have pub: "quiet h" if "map_of (public_routes opts) k = Some h" for k h
    using that by (auto simp: public_routes_def quiet_handlers split: if_splits)
  from assms(2) obtain h where h: "map_of (api_routes env s opts) (rq_Method r, rq_Route r) = Some h"
      and R: "route env s opts r w = auth_Use opts (limiter_Use opts h) r w"
    using pub by (auto simp: route_def quiet_def same_but_clients_refl split: option.splits)
  have g: "guarded_entry ((rq_Method r, rq_Route r), h)"
    using api_routes_guarded [of env s opts] map_of_SomeD [OF h] by (simp add: list_all_iff)
  obtain q w1 where M: "Middleware (op_sha opts) True (rq_ctx r) (rq_Header r ''X-API-Key'') w = (q, w1)"
    by fastforce
  note c = Middleware_run [OF M]
  from assms R M c(1) obtain ctx where q: "q = Inr (Inr ctx)"
    by (cases q; cases "projr q") (auto simp: auth_Use_def split: sum.splits)
  from c(2) [OF q] obtain p w2 where p: "ctx = Some p"
      "Authenticate (op_sha opts) (TrimSpace (rq_Header r ''X-API-Key'')) w = (Inr p, w2)"
    by blast
  let ?r = "r\<lparr>rq_ctx := Some p\<rparr>"
  have L: "route env s opts r w = limiter_Use opts h ?r w1"
    using R M q p(1) assms(1) by (simp add: auth_Use_def)
  with assms(2) c(1) have "w_db (snd (h ?r w1)) \<noteq> w_db w1"
    using limiter_Use_run [of opts h ?r w1] by auto
  then have "\<not> quiet h" "snd (h ?r w1) \<noteq> w1" by (auto simp: quiet_def)
  with g obtain role h' where "rq_Method r = ''POST''" "h = auth_Require role h'"
      "role \<in> {RoleOperator, RoleAdmin}"
      "rq_Route r = ''/api/v1/events/{eventID}/replay'' \<longrightarrow> role = RoleAdmin"
    by (auto simp: guarded_entry_def)
  moreover from this \<open>snd (h ?r w1) \<noteq> w1\<close> have "Allows p role"
    using auth_Require_run [of ?r role h' w1] by auto
  ultimately show ?thesis using p(2) Allows_operator by blast
qed

text \<open>
  C20: only an authenticated operator changes anything through the API.  With authentication enabled, a
  request after which the database differs in more than the use of an API key was a POST that carried
  the key of an enabled client whose role is operator or admin, and admin if it replayed an event.
\<close>

theorem only_operators_change:
  assumes "op_AuthEnabled opts" and "server_New env s opts generated r w = (resp, w')"
    and "\<not> same_but_clients (w_db w) (w_db w')"
  shows "rq_Method r = ''POST'' \<and> (\<exists>prin w1.
    Authenticate (op_sha opts) (TrimSpace (rq_Header r ''X-API-Key'')) w = (Inr prin, w1) \<and>
    Allows prin RoleOperator \<and>
    (rq_Route r = ''/api/v1/events/{eventID}/replay'' \<longrightarrow> Allows prin RoleAdmin))"
proof -
  define r' where "r' = r\<lparr>rq_RequestID := (if rq_Header r ''X-Request-ID'' = '''' then generated
      else rq_Header r ''X-Request-ID'')\<rparr>"
  have "w' = w \<or> w' = snd (route env s opts r' w)"
    using assms(2)
    by (auto simp: server_New_def RequestID_def cors_def Let_def r'_def split: prod.splits if_splits)
  with assms(3) have "\<not> same_but_clients (w_db w) (w_db (snd (route env s opts r' w)))"
    by (auto simp: same_but_clients_refl)
  from route_changes [OF assms(1) this] show ?thesis by (simp add: r'_def)
qed

text \<open>An administrator replays an event.\<close>

definition sample_client :: "Role \<Rightarrow> api_clients_row" where
  "sample_client role =
     \<lparr>c_ID = 50, c_TenantID = 1, c_Name = ''ops'', c_KeyPrefix = ''k1'', c_KeyHash = ''k1'', c_Role = role,
      c_Enabled = True, c_CreatedAt = 600, c_LastUsedAt = None, c_RevokedAt = None\<rparr>"

definition sample_api_db :: "Role \<Rightarrow> db" where
  "sample_api_db role = sample_outbox\<lparr>api_clients := [sample_client role]\<rparr>"

definition sample_http_env :: http_env where
  "sample_http_env =
     \<lparr>he_decode = (\<lambda>_. Some (sample_request ''a'')), he_uuid_Parse = (\<lambda>_. Some 40), he_time_Parse = (\<lambda>_. None),
      he_json_Valid = (\<lambda>_. True), he_digest = fst, he_gap = id\<rparr>"

definition sample_server :: Options where
  "sample_server =
     \<lparr>op_sha = id, op_AuthEnabled = True, op_RateLimiter = Some (\<lambda>_. Inr (True, 0)), op_AllowedOrigins = [],
      op_Outbox = True, op_Ping = None, op_ReadyChecks = [], op_ActiveWorkers = Inr [],
      op_NotFound = \<lparr>hr_Status = 404, hr_Header = Map.empty, hr_Body = None\<rparr>\<rparr>"

definition sample_http_request :: "string \<Rightarrow> string \<Rightarrow> http_request" where
  "sample_http_request m p =
     \<lparr>rq_Method = m, rq_Route = p, rq_Header = (\<lambda>h. if h = ''X-API-Key'' then ''k1'' else ''''),
      rq_Query = (\<lambda>_. ''''), rq_Param = (\<lambda>_. ''40''), rq_Body = ''{}'', rq_ctx = None, rq_RequestID = ''''\<rparr>"

lemma sample_authenticate:
  "\<exists>p w1. Middleware id True None ''k1'' (sample_world (sample_api_db role)) = (Inr (Inr (Some p)), w1) \<and>
     p_TenantID p = 1 \<and> p_Role p = role \<and> no_faults w1 \<and> job_events (w_db w1) = job_events sample_outbox \<and>
     (\<forall>k. w_dbclock w1 k = sample_now)"
proof -
  have "TrimSpace ''k1'' = ''k1''" by code_simp
  then show ?thesis
    by (simp add: Middleware_def Authenticate_def HashKey_def auth_rows_def Let_def bind_tx_def try_tx_def
        pool_stmt_def new_tx_def run_simps update_clients_def WithPrincipal_def sample_api_db_def
        sample_client_def sample_outbox_def sample_db_def)
qed

lemma sample_replay_route:
  "map_of (api_routes sample_http_env sample_service sample_server)
      (''POST'', ''/api/v1/events/{eventID}/replay'') =
      Some (auth_Require RoleAdmin (server_replay sample_http_env sample_server))"
  by (simp add: api_routes_def mount_def Routes_def DeadLetterRoutes_def)

theorem only_operators_change_witness:
  "\<exists>resp w'. server_New sample_http_env sample_service sample_server ''q''
       (sample_http_request ''POST'' ''/api/v1/events/{eventID}/replay'')
       (sample_world (sample_api_db RoleAdmin)) = (resp, w') \<and>
     \<not> same_but_clients (sample_api_db RoleAdmin) (w_db w') \<and>
     (\<exists>prin w1. Authenticate id ''k1'' (sample_world (sample_api_db RoleAdmin)) = (Inr prin, w1) \<and>
        Allows prin RoleAdmin)"
proof -
  let ?r = "sample_http_request ''POST'' ''/api/v1/events/{eventID}/replay''"
    and ?w = "sample_world (sample_api_db RoleAdmin)"
  obtain p w1 where A: "Middleware id True None ''k1'' ?w = (Inr (Inr (Some p)), w1)"
      and p: "p_TenantID p = 1" "p_Role p = RoleAdmin" "no_faults w1"
      and e: "job_events (w_db w1) = job_events sample_outbox" "\<forall>k. w_dbclock w1 k = sample_now"
    using sample_authenticate [of RoleAdmin] by blast
  obtain w' where P: "Replay 1 40 w1 = (Inr (), w')"
      and ev: "map e_NextPublishAt (job_events (w_db w')) = [sample_now]"
    using p(3) e
    by (simp add: Replay_def update_events_def pool_stmt_def new_tx_def bind_tx_def run_simps rows_affected_def
        sample_outbox_def new_event_def sample_job_def)
  obtain resp where S: "server_New sample_http_env sample_service sample_server ''q'' ?r ?w = (resp, w')"
    using A P sample_replay_route p
    by (simp add: server_New_def RequestID_def cors_def Let_def route_def public_routes_def auth_Use_def
        limiter_Use_def auth_Require_def Require_def FromContext_def Allows_def server_replay_def
        PrincipalOrDefault_def RateLimiter_Middleware_def sample_server_def sample_http_request_def
        sample_http_env_def Recovery_def split: prod.splits)
  have "\<not> same_but_clients (sample_api_db RoleAdmin) (w_db w')"
    using ev by (auto simp: same_but_clients_def sample_api_db_def sample_outbox_def new_event_def)
  moreover have "op_AuthEnabled sample_server" "op_sha sample_server = id"
    "rq_Header ?r ''X-API-Key'' = ''k1''" "TrimSpace ''k1'' = ''k1''"
    "rq_Route ?r = ''/api/v1/events/{eventID}/replay''"
    by (simp_all add: sample_server_def sample_http_request_def) code_simp
  ultimately show ?thesis
    using only_operators_change [OF _ S] S by auto
qed

section \<open>Errors\<close>

text \<open>An endpoint whose error answers leave the database as it was.\<close>

definition tidy :: "endpoint \<Rightarrow> bool" where
  "tidy h \<longleftrightarrow> (\<forall>r w. 400 \<le> hr_Status (fst (h r w)) \<longrightarrow> w_db (snd (h r w)) = w_db w)"

lemma quiet_tidy: "quiet h \<Longrightarrow> tidy h"
  by (simp add: quiet_def tidy_def)

lemma status_simps [simp]:
  "hr_Status (response_JSON r st x) = st" "hr_Status (response_Error r st c m) = st"
  "hr_Status (with_header k v resp) = hr_Status resp"
  by (simp_all add: response_JSON_def response_Error_def write_response_def with_header_def)

lemma tidy_respond:
  assumes "atomic_tx m" and "\<And>x. hr_Status (ok x) < 400"
    and "400 \<le> hr_Status (fst (respond r m ok w))"
  shows "w_db (snd (respond r m ok w)) = w_db w"
proof -
  obtain q w' where q: "m w = (q, w')" by fastforce
  show ?thesis
  proof (cases q)
    case (Inl e)
    with q atomic_txD [OF assms(1), of w e w'] show ?thesis by (simp add: respond_def)
  next
    case (Inr x)
    with q assms(2) [of x] assms(3) show ?thesis by (simp add: respond_def)
  qed
qed

lemma atomic_time_Now: "(\<And>t. atomic_tx (k t)) \<Longrightarrow> atomic_tx (bind_tx time_Now k)"
  by (rule atomic_bind_read) (auto simp: atomic_tx_def time_Now_def)

lemma atomic_reads:
  assumes "reads m" and "\<And>x. atomic_tx (k x)"
  shows "atomic_tx (bind_tx m k)"
proof (rule atomic_bind_read [OF _ assms(2)])
  show "atomic_tx m" unfolding atomic_tx_def using readsD [OF assms(1)] by (metis snd_conv)
  show "w_db w' = w_db w" if "m w = (Inr x, w')" for w x w'
    using readsD [OF assms(1), of w] that by simp
qed

lemma atomic_then_return:
  assumes "atomic_tx m"
  shows "atomic_tx (bind_tx m (\<lambda>x. return_tx (f x)))"
  unfolding atomic_tx_def
proof (intro allI impI)
  fix w e w'
  assume b: "bind_tx m (\<lambda>x. return_tx (f x)) w = (Inl e, w')"
  obtain q w1 where q: "m w = (q, w1)" by fastforce
  with b show "w_db w' = w_db w"
    using atomic_txD [OF assms, of w _ w1] by (cases q) (simp_all add: bind_tx_def return_tx_def)
qed
lemma atomic_service:
  "atomic_tx (Service_Create valid digest s ctx req)"
  "atomic_tx (Service_RequeueDeadLetter ctx i)"
  "atomic_tx (transition id ctx i to from)"
proof -
  show "atomic_tx (Service_Create valid digest s ctx req)"
    unfolding Service_Create_effective
    by (auto intro!: atomic_uuid_New atomic_time_Now atomic_then_return atomic_Create split: option.splits)
  show "atomic_tx (Service_RequeueDeadLetter ctx i)"
    unfolding Service_RequeueDeadLetter_def by (rule atomic_time_Now) (rule atomic_RequeueDeadLetter)
  have "reads (interfere id :: (db, unit) tx)" by (simp add: reads_def interfere_def)
  moreover have "reads (GetByID t i)" for t using reads_service(1) [of "Some p" i for p]
    unfolding GetByID_def by (auto intro!: reads_stmt split: option.splits)
  ultimately show "atomic_tx (transition id ctx i to from)"
    unfolding transition_def Let_def by (auto intro!: atomic_reads atomic_TransitionJob)
qed

lemma atomic_Replay: "atomic_tx (Replay t i)"
  unfolding atomic_tx_def
proof (intro allI impI)
  fix w e w'
  assume R: "Replay t i w = (Inl e, w')"
  let ?P = "\<lambda>e. e_TenantID e = t \<and> e_ID e = i"
  let ?f = "\<lambda>now e. e\<lparr>e_PublishedAt := None, e_NextPublishAt := now, e_LastPublishError := None,
      e_ClaimedBy := None, e_ClaimedUntil := None\<rparr>"
  obtain q w1 where q: "update_events ?P ?f w = (q, w1)" by fastforce
  show "w_db w' = w_db w"
  proof (cases q)
    case (Inl e')
    with q have "w_db w1 = w_db w"
      unfolding update_events_def using atomic_txD [OF atomic_pool_stmt] by blast
    with Inl q R show ?thesis by (simp add: Replay_def bind_tx_def)
  next
    case (Inr n)
    with q R have n: "n = 0" "w' = w1"
      by (auto simp: Replay_def bind_tx_def fail_tx_def return_tx_def split: if_splits)
    with q Inr show ?thesis by (simp add: update_events_ok rows_affected_0 upd_where_none)
  qed
qed
lemma tidy_require: "tidy h \<Longrightarrow> tidy (auth_Require role h)"
  by (simp add: tidy_def auth_Require_def split: sum.splits)

lemma tidy_with_uuid: "(\<And>i. tidy (f i)) \<Longrightarrow> tidy (with_uuid env p f)"
  by (simp add: tidy_def with_uuid_def split: sum.splits)

lemma tidy_handlers:
  assumes "he_gap env = id"
  shows "tidy (Handler_create env s)" and "tidy (Handler_cancel env)" and "tidy (Handler_pause env)"
    and "tidy (Handler_resume env)" and "tidy (Handler_retry env)"
    and "tidy (Handler_requeueDeadLetter env)" and "tidy (server_replay env opts)"
proof -
  have t: "tidy (Handler_transition env fn)" if "\<And>ctx i. atomic_tx (fn ctx i)" for fn
    unfolding Handler_transition_def
    by (rule tidy_with_uuid) (auto simp: tidy_def intro!: tidy_respond that)
  show "tidy (Handler_create env s)"
    by (auto simp: tidy_def Handler_create_def intro!: tidy_respond atomic_service split: option.splits)
  show "tidy (Handler_cancel env)" "tidy (Handler_pause env)" "tidy (Handler_resume env)"
    "tidy (Handler_retry env)"
    unfolding Handler_cancel_def Handler_pause_def Handler_resume_def Handler_retry_def assms
    by (auto intro!: t atomic_service simp: Cancel_def Pause_def Resume_def Retry_def)
  show "tidy (Handler_requeueDeadLetter env)"
    unfolding Handler_requeueDeadLetter_def
    by (rule tidy_with_uuid) (auto simp: tidy_def intro!: tidy_respond atomic_service)
  show "tidy (server_replay env opts)"
    unfolding tidy_def
  proof (intro allI impI)
    fix r w
    assume e: "400 \<le> hr_Status (fst (server_replay env opts r w))"
    show "w_db (snd (server_replay env opts r w)) = w_db w"
    proof (cases "op_Outbox opts \<and> he_uuid_Parse env (rq_Param r ''eventID'') \<noteq> None")
      case True
      then obtain i where i: "he_uuid_Parse env (rq_Param r ''eventID'') = Some i" by auto
      obtain q w' where q: "Replay (p_TenantID (PrincipalOrDefault (rq_ctx r))) i w = (q, w')" by fastforce
      show ?thesis
        using e True i q atomic_txD [OF atomic_Replay, of "p_TenantID (PrincipalOrDefault (rq_ctx r))" i w _ w']
        by (cases q) (simp_all add: server_replay_def)
    qed (auto simp: server_replay_def)
  qed
qed

lemma api_routes_tidy:
  assumes "he_gap env = id"
  shows "list_all (\<lambda>e. tidy (snd e)) (api_routes env s opts)"
  unfolding api_routes_def mount_def Routes_def DeadLetterRoutes_def
  by (simp add: tidy_require tidy_handlers [OF assms] quiet_tidy quiet_handlers quiet_summary)

lemma Middleware_clients:
  assumes "Middleware sha on ctx header w = (r, w')"
  shows "same_but_clients (w_db w) (w_db w')"
  using assms Middleware_run(1) [of sha ctx header w r w']
  by (cases on) (auto simp: Middleware_def return_tx_def same_but_clients_refl)

lemma route_errors:
  assumes "he_gap env = id" and "400 \<le> hr_Status (fst (route env s opts r w))"
  shows "same_but_clients (w_db w) (w_db (snd (route env s opts r w)))"
proof -
  consider (public) h where "map_of (public_routes opts) (rq_Method r, rq_Route r) = Some h"
    | (api) h where "map_of (public_routes opts) (rq_Method r, rq_Route r) = None"
        "map_of (api_routes env s opts) (rq_Method r, rq_Route r) = Some h"
    | (none) "map_of (public_routes opts) (rq_Method r, rq_Route r) = None"
        "map_of (api_routes env s opts) (rq_Method r, rq_Route r) = None"
    by (cases "map_of (public_routes opts) (rq_Method r, rq_Route r)";
        cases "map_of (api_routes env s opts) (rq_Method r, rq_Route r)") auto
  then show ?thesis
  proof cases
    case public
    then have "quiet h" by (auto simp: public_routes_def quiet_handlers split: if_splits)
    with public show ?thesis by (simp add: route_def quiet_def same_but_clients_refl)
  next
    case api
    have t: "tidy h"
      using api_routes_tidy [OF assms(1), of s opts] map_of_SomeD [OF api(2)] by (force simp: list_all_iff)
    obtain q w1 where M: "Middleware (op_sha opts) (op_AuthEnabled opts) (rq_ctx r)
        (rq_Header r ''X-API-Key'') w = (q, w1)" by fastforce
    note c = Middleware_clients [OF M]
    show ?thesis
    proof (cases "\<exists>ctx. q = Inr (Inr ctx)")
      case True
      then obtain ctx where q: "q = Inr (Inr ctx)" by blast
      let ?r = "r\<lparr>rq_ctx := ctx\<rparr>"
      have R: "route env s opts r w = limiter_Use opts h ?r w1"
        using api M q by (simp add: route_def auth_Use_def)
      have "w_db (snd (limiter_Use opts h ?r w1)) = w_db w1"
        using limiter_Use_run [of opts h ?r w1] t assms(2) R by (auto simp: tidy_def)
      with R c show ?thesis by simp
    next
      case False
      then have "snd (route env s opts r w) = w1"
        using api M by (auto simp: route_def auth_Use_def split: sum.splits)
      with c show ?thesis by simp
    qed
  next
    case none
    then show ?thesis by (simp add: route_def same_but_clients_refl)
  qed
qed



section \<open>Inputs and refusals\<close>

lemma queryInt_range:
  assumes "queryInt r key fallback = Inr n" and "1 \<le> fallback" and "fallback < 2 ^ 63"
  shows "1 \<le> n" and "n < 2 ^ 63"
  using assms by (auto simp: queryInt_def Atoi_def Let_def split: if_splits option.splits)

text \<open>
  The offset of a page is computed in 64 bits and wraps: the page of number \<open>2 ^ 60 + 1\<close> and size 16
  has the items of the first one.
\<close>

theorem pages_wrap:
  "fst (List t (f\<lparr>lf_Page := 2 ^ 60 + 1, lf_PageSize := 16\<rparr>) w) =
   map_sum id (\<lambda>p. p\<lparr>pg_Page := 2 ^ 60 + 1\<rparr>) (fst (List t (f\<lparr>lf_Page := 1, lf_PageSize := 16\<rparr>) w))"
proof -
  have m: "list_matches t (f\<lparr>lf_Page := p, lf_PageSize := q\<rparr>) = list_matches t f" for p q
    by (simp add: list_matches_def fun_eq_iff)
  define Q :: "(db, nat) tx" where "Q = pool_query (\<lambda>w d. length (filter (list_matches t f) (jobs d)))"
  define S :: "(db, Job list) tx" where "S = pool_stmt (\<lambda>w d.
      case sort_column (lf_Sort f) of
        None \<Rightarrow> Inl (ErrorString ''ORDER BY text outside the model'')
      | Some col \<Rightarrow>
          (case limit_offset 16 0 (order_rows col (lf_Order f) (filter (list_matches t f) (jobs d))) of
             Inl e \<Rightarrow> Inl e
           | Inr rs \<Rightarrow> Inr (map scanJob rs, d)))"
  have L: "List t (f\<lparr>lf_Page := p, lf_PageSize := 16\<rparr>) = bind_tx Q (\<lambda>total. bind_tx S (\<lambda>items.
      return_tx \<lparr>pg_Items = items, pg_Page = p, pg_PageSize = 16, pg_Total = total\<rparr>))"
    if "1 \<le> p" "wrap64 ((p - 1) * 16) = 0" for p
    using that
    by (simp add: List_def Let_def m Q_def S_def normalizePage_def normalizePageSize_def
        cong: option.case_cong)
  have "wrap64 (2 ^ 60 * 16) = 0" "wrap64 0 = 0" by (simp_all add: wrap64_def)
  then show ?thesis
    using L [of "2 ^ 60 + 1"] L [of 1]
    by (cases "Q w"; cases "fst (Q w)"; cases "S (snd (Q w))"; cases "fst (S (snd (Q w)))")
       (simp_all add: bind_tx_def return_tx_def)
qed
text \<open>The rate limiter fails closed: without its consent the handler does not run.\<close>

lemma limiter_fails_closed:
  assumes "op_RateLimiter opts = Some allow" and "rq_ctx r = Some p" and "\<forall>d. allow p \<noteq> Inr (True, d)"
  shows "hr_Status (fst (limiter_Use opts h r w)) \<in> {429, 503}" and "snd (limiter_Use opts h r w) = w"
  using assms
  by (cases "allow p"; auto simp: limiter_Use_def RateLimiter_Middleware_def FromContext_def Let_def
      split: prod.splits bool.splits)+

text \<open>A preflight never reaches a handler, and only configured origins are echoed.\<close>

lemma cors_run:
  "rq_Method r = ''OPTIONS'' \<Longrightarrow> hr_Status (fst (cors origins h r w)) = 204 \<and> snd (cors origins h r w) = w"
  "hr_Header (fst (h r w)) ''Access-Control-Allow-Origin'' = None \<Longrightarrow>
     hr_Header (fst (cors origins h r w)) ''Access-Control-Allow-Origin'' = Some v \<Longrightarrow>
     v \<in> set (map TrimSpace origins) \<and> v = rq_Header r ''Origin''"
  by (auto simp: cors_def Let_def with_header_def image_iff split: if_splits) metis

end
