(* ===== verification/Http_Typing.thy ===== *)
theory Http_Typing
  imports Http_Properties
begin

text \<open>
  The type of every answer of the API: which data each route returns, and the shape of the envelope
  around data and errors.
\<close>

section \<open>Answer types\<close>

text \<open>The data that a route answers a successful request with.\<close>

definition route_type :: "string \<times> string \<Rightarrow> api_data \<Rightarrow> bool" where
  "route_type k x \<longleftrightarrow>
     (case x of
        DStatus st \<Rightarrow> (k, st) \<in> {((''GET'', ''/health''), ''ok''), ((''GET'', ''/ready''), ''ready'')}
      | DCreate _ \<Rightarrow> k = (''POST'', ''/api/v1/jobs/'')
      | DPage _ \<Rightarrow> k = (''GET'', ''/api/v1/jobs/'')
      | DJob _ \<Rightarrow> k \<in> {(''GET'', ''/api/v1/jobs/{jobID}''),
                       (''POST'', ''/api/v1/dead-letter-jobs/{deadLetterID}/requeue'')}
      | DAttempts _ \<Rightarrow> k = (''GET'', ''/api/v1/jobs/{jobID}/attempts'')
      | DEvents _ \<Rightarrow> k = (''GET'', ''/api/v1/jobs/{jobID}/events'')
      | DDeadLetters _ \<Rightarrow> k = (''GET'', ''/api/v1/dead-letter-jobs/'')
      | DJobID _ \<Rightarrow> k \<in> {(''POST'', ''/api/v1/jobs/{jobID}/cancel''), (''POST'', ''/api/v1/jobs/{jobID}/pause''),
                         (''POST'', ''/api/v1/jobs/{jobID}/resume''), (''POST'', ''/api/v1/jobs/{jobID}/retry'')}
      | DWorkers _ \<Rightarrow> k = (''GET'', ''/api/v1/workers'')
      | DPrincipal _ \<Rightarrow> k = (''GET'', ''/api/v1/auth/whoami'')
      | DSummary _ \<Rightarrow> k = (''GET'', ''/api/v1/dashboard/summary'')
      | DReplay _ \<Rightarrow> k = (''POST'', ''/api/v1/events/{eventID}/replay''))"

text \<open>The codes of error envelopes, with their statuses.\<close>

definition error_code :: "int \<Rightarrow> string \<Rightarrow> bool" where
  "error_code st c \<longleftrightarrow>
     (st, c) \<in> {(400, ''INVALID_INPUT''), (400, ''INVALID_JSON''), (400, ''INVALID_UUID''),
                (401, ''UNAUTHORIZED''), (403, ''FORBIDDEN''), (404, ''NOT_FOUND''),
                (409, ''INVALID_TRANSITION''), (409, ''CONFLICT''), (409, ''IDEMPOTENCY_CONFLICT''),
                (429, ''RATE_LIMITED''), (500, ''INTERNAL_ERROR''), (500, ''WORKER_REGISTRY_UNAVAILABLE''),
                (503, ''DATABASE_UNAVAILABLE''), (503, ''DEPENDENCY_UNAVAILABLE'')}"

definition typed_answer :: "(api_data \<Rightarrow> bool) \<Rightarrow> string \<Rightarrow> http_response \<Rightarrow> bool" where
  "typed_answer T requestID resp \<longleftrightarrow>
     (case hr_Body resp of
        None \<Rightarrow> False
      | Some e \<Rightarrow>
          en_RequestID e = requestID \<and>
          (if en_Success e
           then hr_Status resp \<in> {200, 201} \<and> en_Error e = None \<and>
             (case en_Data e of None \<Rightarrow> False | Some x \<Rightarrow> T x)
           else en_Data e = None \<and>
             (case en_Error e of None \<Rightarrow> False | Some (c, m) \<Rightarrow> error_code (hr_Status resp) c)))"

definition typed_endpoint :: "(api_data \<Rightarrow> bool) \<Rightarrow> endpoint \<Rightarrow> bool" where
  "typed_endpoint T h \<longleftrightarrow> (\<forall>r w. typed_answer T (rq_RequestID r) (fst (h r w)))"

named_theorems typing

lemma typed_JSON [typing]: "st \<in> {200, 201} \<Longrightarrow> T x \<Longrightarrow> typed_answer T (rq_RequestID r) (response_JSON r st x)"
  by (auto simp: typed_answer_def response_JSON_def write_response_def)

lemma typed_Error [typing]: "error_code st c \<Longrightarrow> typed_answer T (rq_RequestID r) (response_Error r st c m)"
  by (simp add: typed_answer_def response_Error_def write_response_def)

lemma body_with_header: "hr_Body (with_header k v resp) = hr_Body resp"
  by (simp add: with_header_def)

lemma typed_header [typing]: "typed_answer T q resp \<Longrightarrow> typed_answer T q (with_header k v resp)"
  unfolding typed_answer_def body_with_header status_simps .

lemma typed_writeError [typing]: "typed_answer T (rq_RequestID r) (writeError r err)"
  unfolding writeError_def by (auto intro!: typing simp: error_code_def)

section \<open>Handlers and middlewares\<close>

lemma typed_respond [typing]:
  assumes "\<And>x. typed_answer T (rq_RequestID r) (ok x)"
  shows "typed_answer T (rq_RequestID r) (fst (respond r m ok w))"
  using assms by (cases "m w"; cases "fst (m w)") (auto simp: respond_def typed_writeError)

lemma typed_with_uuid [typing]:
  "(\<And>i. typed_endpoint T (f i)) \<Longrightarrow> typed_endpoint T (with_uuid env p f)"
  by (auto simp: typed_endpoint_def with_uuid_def parseUUID_def error_code_def intro!: typing
      split: option.splits)

lemma typed_require [typing]: "typed_endpoint T h \<Longrightarrow> typed_endpoint T (auth_Require role h)"
  by (auto simp: typed_endpoint_def auth_Require_def Require_def error_code_def intro!: typing
      split: option.splits)

lemma typed_handlers [typing]:
  "typed_endpoint (\<lambda>x. \<exists>c. x = DCreate c) (Handler_create env s)"
  "typed_endpoint (\<lambda>x. \<exists>c. x = DPage c) (Handler_list env)"
  "typed_endpoint (\<lambda>x. \<exists>c. x = DJob c) (Handler_get env)"
  "typed_endpoint (\<lambda>x. \<exists>c. x = DAttempts c) (Handler_attempts env)"
  "typed_endpoint (\<lambda>x. \<exists>c. x = DEvents c) (Handler_events env)"
  "typed_endpoint (\<lambda>x. \<exists>c. x = DJobID c) (Handler_transition env fn)"
  "typed_endpoint (\<lambda>x. \<exists>c. x = DDeadLetters c) (Handler_deadLetters env)"
  "typed_endpoint (\<lambda>x. \<exists>c. x = DJob c) (Handler_requeueDeadLetter env)"
  "typed_endpoint (\<lambda>x. \<exists>c. x = DWorkers c) (server_workers opts)"
  "typed_endpoint (\<lambda>x. \<exists>c. x = DPrincipal c) server_whoami"
  "typed_endpoint (\<lambda>x. x = DStatus ''ok'') server_health"
  "typed_endpoint (\<lambda>x. x = DStatus ''ready'') (server_ready opts)"
  unfolding Handler_get_def Handler_attempts_def Handler_events_def Handler_transition_def
    Handler_requeueDeadLetter_def
  by ((rule typed_with_uuid)?; auto simp: typed_endpoint_def Handler_create_def Handler_list_def
      time_bound_def Handler_deadLetters_def server_workers_def server_whoami_def server_health_def
      server_ready_def error_code_def Let_def intro!: typing split: option.splits sum.splits if_splits)+

lemma typed_summary [typing]: "typed_endpoint (\<lambda>x. \<exists>c. x = DSummary c) (server_summary opts)"
  by (auto simp: typed_endpoint_def server_summary_def error_code_def Let_def intro!: typing
      split: prod.splits sum.splits)

lemma typed_replay [typing]: "typed_endpoint (\<lambda>x. \<exists>c. x = DReplay c) (server_replay env opts)"
  by (auto simp: typed_endpoint_def server_replay_def error_code_def intro!: typing
      split: option.splits prod.splits sum.splits)


lemma typed_answer_mono:
  assumes "typed_answer S q resp" and "\<And>x. S x \<Longrightarrow> T x"
  shows "typed_answer T q resp"
proof (cases "hr_Body resp")
  case (Some e)
  with assms show ?thesis by (cases "en_Data e"; cases "en_Success e") (simp_all add: typed_answer_def)
qed (use assms(1) in \<open>simp add: typed_answer_def\<close>)

lemma typed_mono: "typed_endpoint S h \<Longrightarrow> (\<And>x. S x \<Longrightarrow> T x) \<Longrightarrow> typed_endpoint T h"
  unfolding typed_endpoint_def using typed_answer_mono by blast

definition typed_routes :: "routes \<Rightarrow> bool" where
  "typed_routes rs \<longleftrightarrow> list_all (\<lambda>(k, h). typed_endpoint (route_type k) h) rs"

lemma public_routes_typed: "typed_routes (public_routes opts)"
  unfolding typed_routes_def public_routes_def
  by (auto simp: route_type_def intro!: typed_mono [OF typed_handlers(11)] typed_mono [OF typed_handlers(12)])

lemma api_routes_typed: "typed_routes (api_routes env s opts)"
  unfolding typed_routes_def api_routes_def mount_def Routes_def DeadLetterRoutes_def
    Handler_cancel_def Handler_pause_def Handler_resume_def Handler_retry_def
  by (auto simp: route_type_def intro!: typed_require typed_mono [OF typed_handlers(1)]
      typed_mono [OF typed_handlers(2)] typed_mono [OF typed_handlers(3)] typed_mono [OF typed_handlers(4)]
      typed_mono [OF typed_handlers(5)] typed_mono [OF typed_handlers(6)] typed_mono [OF typed_handlers(7)]
      typed_mono [OF typed_handlers(8)] typed_mono [OF typed_handlers(9)] typed_mono [OF typed_handlers(10)]
      typed_mono [OF typed_summary] typed_mono [OF typed_replay])

lemma typed_limiter [typing]: "typed_endpoint T h \<Longrightarrow> typed_endpoint T (limiter_Use opts h)"
  by (auto simp: typed_endpoint_def limiter_Use_def Let_def RateLimiter_Middleware_def error_code_def
      intro!: typing split: option.splits sum.splits prod.splits bool.splits)

lemma Middleware_codes:
  assumes "Middleware sha on ctx header w = (Inr (Inl e), w')"
  shows "error_code (he_status e) (he_code e)"
proof -
  from assms have "he_status e = 401" "he_code e = ''UNAUTHORIZED''"
    by (cases "Authenticate sha (TrimSpace header) w"; cases "fst (Authenticate sha (TrimSpace header) w)";
        auto simp: Middleware_def Let_def bind_tx_def try_tx_def return_tx_def split: if_splits)+
  then show ?thesis by (simp add: error_code_def)
qed

lemma typed_auth [typing]: "typed_endpoint T h \<Longrightarrow> typed_endpoint T (auth_Use opts h)"
  unfolding typed_endpoint_def
proof (intro allI)
  fix r :: http_request and w
  assume h: "\<forall>r w. typed_answer T (rq_RequestID r) (fst (h r w))"
  obtain q w1 where M: "Middleware (op_sha opts) (op_AuthEnabled opts) (rq_ctx r)
      (rq_Header r ''X-API-Key'') w = (q, w1)" by fastforce
  have "typed_answer T (rq_RequestID r) (fst (h (r\<lparr>rq_ctx := c\<rparr>) w1))" for c
    using h [rule_format, of "r\<lparr>rq_ctx := c\<rparr>" w1] by simp
  with M Middleware_codes [of "op_sha opts" "op_AuthEnabled opts" "rq_ctx r" "rq_Header r ''X-API-Key''" w _ w1]
  show "typed_answer T (rq_RequestID r) (fst (auth_Use opts h r w))"
    by (auto simp: auth_Use_def intro!: typing split: sum.splits)
qed

definition registered :: "http_env \<Rightarrow> Service \<Rightarrow> Options \<Rightarrow> http_request \<Rightarrow> bool" where
  "registered env s opts r \<longleftrightarrow>
     (rq_Method r, rq_Route r) \<in> fst ` set (public_routes opts @ api_routes env s opts)"

lemma registered_method: "registered env s opts r \<Longrightarrow> rq_Method r \<noteq> ''OPTIONS''"
  by (auto simp: registered_def public_routes_def api_routes_def mount_def Routes_def DeadLetterRoutes_def)

lemma typed_route:
  assumes "registered env s opts r"
  shows "typed_answer (route_type (rq_Method r, rq_Route r)) (rq_RequestID r) (fst (route env s opts r w))"
proof (cases "map_of (public_routes opts) (rq_Method r, rq_Route r)")
  case None
  with assms obtain h where h: "map_of (api_routes env s opts) (rq_Method r, rq_Route r) = Some h"
    unfolding registered_def set_append image_Un Un_iff map_of_eq_None_iff by (metis map_of_eq_None_iff option.exhaust)
  then have "typed_endpoint (route_type (rq_Method r, rq_Route r)) h"
    using api_routes_typed map_of_SomeD [OF h] unfolding typed_routes_def list_all_iff by blast
  then have "typed_endpoint (route_type (rq_Method r, rq_Route r)) (auth_Use opts (limiter_Use opts h))"
    by (intro typing)
  with None h show ?thesis by (simp add: route_def typed_endpoint_def)
next
  case (Some h)
  then have "typed_endpoint (route_type (rq_Method r, rq_Route r)) h"
    using public_routes_typed map_of_SomeD [OF Some] unfolding typed_routes_def list_all_iff by blast
  with Some show ?thesis by (simp add: route_def typed_endpoint_def)
qed

lemma server_typed:
  assumes "registered env s opts r"
  shows "typed_answer (route_type (rq_Method r, rq_Route r))
     (if rq_Header r ''X-Request-ID'' = '''' then generated else rq_Header r ''X-Request-ID'')
     (fst (server_New env s opts generated r w))"
proof -
  define r' where "r' = r\<lparr>rq_RequestID := (if rq_Header r ''X-Request-ID'' = '''' then generated
      else rq_Header r ''X-Request-ID'')\<rparr>"
  have "registered env s opts r'" using assms by (simp add: registered_def r'_def)
  from typed_route [OF this, of w] registered_method [OF this]
  have "typed_answer (route_type (rq_Method r', rq_Route r')) (rq_RequestID r')
      (fst (cors (op_AllowedOrigins opts) (route env s opts) r' w))"
    by (auto simp: cors_def Let_def intro!: typed_header)
  then show ?thesis
    by (auto simp: server_New_def RequestID_def Let_def Recovery_def r'_def intro!: typed_header
        split: prod.splits)
qed

text \<open>A request of the health route.\<close>

lemma sample_health:
  "registered sample_http_env sample_service sample_server (sample_http_request ''GET'' ''/health'')"
  "hr_Status (fst (server_New sample_http_env sample_service sample_server ''q''
     (sample_http_request ''GET'' ''/health'') w)) = 200"
  by (simp_all add: registered_def public_routes_def server_New_def RequestID_def cors_def Let_def route_def
      server_health_def Recovery_def sample_http_request_def sample_server_def split: prod.split)


end
