(* ===== verification/Config.thy ===== *)
theory Config
  imports Worker_Service Job_Service
begin

text \<open>
  The configuration of internal/config/config.go, read from the environment, and what the processes of
  cmd build from it.  The environment is a function from names to values, empty where a variable is not
  set.
\<close>

section \<open>Reading the environment\<close>

type_synonym environment = "string \<Rightarrow> string"

definition env :: "environment \<Rightarrow> string \<Rightarrow> string \<Rightarrow> string" where
  "env getenv key fallback = (if getenv key \<noteq> '''' then getenv key else fallback)"

definition envInt :: "environment \<Rightarrow> string \<Rightarrow> int \<Rightarrow> int" where
  "envInt getenv key fallback =
     (if getenv key = '''' then fallback
      else (case Atoi (getenv key) of None \<Rightarrow> fallback | Some parsed \<Rightarrow> parsed))"

text \<open>\<open>strconv.ParseBool\<close>.\<close>

definition ParseBool :: "string \<Rightarrow> bool option" where
  "ParseBool s =
     (if s \<in> set [''1'', ''t'', ''T'', ''true'', ''TRUE'', ''True''] then Some True
      else if s \<in> set [''0'', ''f'', ''F'', ''false'', ''FALSE'', ''False''] then Some False
      else None)"

definition envBool :: "environment \<Rightarrow> string \<Rightarrow> bool \<Rightarrow> bool" where
  "envBool getenv key fallback =
     (if getenv key = '''' then fallback
      else (case ParseBool (getenv key) of None \<Rightarrow> fallback | Some parsed \<Rightarrow> parsed))"

text \<open>\<open>strings.Split\<close> at a one-byte separator: always at least one part.\<close>

fun strings_Split :: "char \<Rightarrow> string \<Rightarrow> string list" where
  "strings_Split sep [] = [[]]"
| "strings_Split sep (c # cs) =
     (if c = sep then [] # strings_Split sep cs
      else (case strings_Split sep cs of [] \<Rightarrow> [[c]] | p # ps \<Rightarrow> (c # p) # ps))"

definition split :: "string \<Rightarrow> string list" where
  "split value = filter (\<lambda>trimmed. trimmed \<noteq> '''') (map TrimSpace (strings_Split CHR '','' value))"

section \<open>The configuration\<close>

record Config =
  cf_AppEnv :: string
  cf_APIPort :: string
  cf_WorkerConcurrency :: int
  cf_WorkerPollInterval :: duration
  cf_WorkerBatchSize :: int
  cf_DatabaseURL :: string
  cf_RedisAddr :: string
  cf_RedisPassword :: string
  cf_RedisDB :: int
  cf_KafkaBrokers :: "string list"
  cf_KafkaEventsTopic :: string
  cf_JobLockTTL :: duration
  cf_WorkerHeartbeatTTL :: duration
  cf_WorkerHeartbeatInterval :: duration
  cf_JobDefaultTimeout :: duration
  cf_JobDefaultMaxRetries :: int
  cf_JobDefaultBackoffSeconds :: int
  cf_LogLevel :: string
  cf_AuthEnabled :: bool
  cf_CORSAllowedOrigins :: "string list"
  cf_RateLimitPerMinute :: int
  cf_EventRelayBatchSize :: int
  cf_EventRelayPollInterval :: duration
  cf_EventRelayHealthPort :: string
  cf_WebhookAllowedHosts :: "string list"
  cf_WebhookAllowPrivate :: bool
  cf_WorkerHealthPort :: string

definition seconds :: "int \<Rightarrow> duration" where
  "seconds n = word_of_int n * Second"

definition database_url :: "environment \<Rightarrow> string" where
  "database_url g =
     env g ''DATABASE_URL''
       (''postgres://'' @ env g ''POSTGRES_USER'' ''scheduler'' @ '':'' @
        env g ''POSTGRES_PASSWORD'' ''scheduler'' @ ''@'' @ env g ''POSTGRES_HOST'' ''localhost'' @ '':'' @
        env g ''POSTGRES_PORT'' ''5432'' @ ''/'' @ env g ''POSTGRES_DB'' ''scheduler_db'' @ ''?sslmode='' @
        env g ''POSTGRES_SSL_MODE'' ''disable'')"

definition Load :: "environment \<Rightarrow> Config" where
  "Load g =
     \<lparr>cf_AppEnv = env g ''APP_ENV'' ''local'',
      cf_APIPort = env g ''API_PORT'' ''8080'',
      cf_WorkerConcurrency = envInt g ''WORKER_CONCURRENCY'' 5,
      cf_WorkerPollInterval = seconds (envInt g ''WORKER_POLL_INTERVAL_SECONDS'' 5),
      cf_WorkerBatchSize = envInt g ''WORKER_BATCH_SIZE'' 10,
      cf_DatabaseURL = database_url g,
      cf_RedisAddr = env g ''REDIS_ADDR'' ''localhost:6379'',
      cf_RedisPassword = env g ''REDIS_PASSWORD'' '''',
      cf_RedisDB = envInt g ''REDIS_DB'' 0,
      cf_KafkaBrokers = split (env g ''KAFKA_BROKERS'' ''localhost:9092''),
      cf_KafkaEventsTopic = env g ''KAFKA_EVENTS_TOPIC'' ''scheduler.events'',
      cf_JobLockTTL = seconds (envInt g ''JOB_LOCK_TTL_SECONDS'' 360),
      cf_WorkerHeartbeatTTL = seconds (envInt g ''WORKER_HEARTBEAT_TTL_SECONDS'' 30),
      cf_WorkerHeartbeatInterval = seconds (envInt g ''WORKER_HEARTBEAT_INTERVAL_SECONDS'' 10),
      cf_JobDefaultTimeout = seconds (envInt g ''JOB_DEFAULT_TIMEOUT_SECONDS'' 300),
      cf_JobDefaultMaxRetries = envInt g ''JOB_DEFAULT_MAX_RETRIES'' 3,
      cf_JobDefaultBackoffSeconds = envInt g ''JOB_DEFAULT_BACKOFF_SECONDS'' 30,
      cf_LogLevel = env g ''LOG_LEVEL'' ''debug'',
      cf_AuthEnabled = envBool g ''AUTH_ENABLED'' True,
      cf_CORSAllowedOrigins = split (env g ''CORS_ALLOWED_ORIGINS'' ''http://localhost:3000''),
      cf_RateLimitPerMinute = envInt g ''RATE_LIMIT_PER_MINUTE'' 120,
      cf_EventRelayBatchSize = envInt g ''EVENT_RELAY_BATCH_SIZE'' 100,
      cf_EventRelayPollInterval = seconds (envInt g ''EVENT_RELAY_POLL_INTERVAL_SECONDS'' 1),
      cf_EventRelayHealthPort = env g ''EVENT_RELAY_HEALTH_PORT'' ''8091'',
      cf_WebhookAllowedHosts = split (env g ''WEBHOOK_ALLOWED_HOSTS'' ''''),
      cf_WebhookAllowPrivate = envBool g ''WEBHOOK_ALLOW_PRIVATE'' False,
      cf_WorkerHealthPort = env g ''WORKER_HEALTH_PORT'' ''8090''\<rparr>"

section \<open>What the processes build from it\<close>

text \<open>cmd/worker: the worker service and the network policy of its executor.\<close>

definition worker_main_service :: "string \<Rightarrow> Config \<Rightarrow> worker" where
  "worker_main_service generated cfg =
     WithRegistry (cf_WorkerHeartbeatTTL cfg) (cf_WorkerHeartbeatInterval cfg)
       (worker_NewService generated '''' (cf_WorkerConcurrency cfg) (cf_WorkerBatchSize cfg)
          (cf_WorkerPollInterval cfg) (cf_JobLockTTL cfg))"

definition worker_main_options :: "Config \<Rightarrow> ExecutorOptions" where
  "worker_main_options cfg =
     \<lparr>eo_AllowedHosts = cf_WebhookAllowedHosts cfg, eo_AllowPrivateNetworks = cf_WebhookAllowPrivate cfg\<rparr>"

text \<open>cmd/api: the job service with its create-time defaults, and the rate limiter's capacity.\<close>

definition api_main_service :: "Config \<Rightarrow> Service" where
  "api_main_service cfg =
     NewService (cf_JobDefaultMaxRetries cfg) (cf_JobDefaultBackoffSeconds cfg)
       (duration_Seconds (cf_JobDefaultTimeout cfg))"

definition api_main_capacity :: "Config \<Rightarrow> int" where
  "api_main_capacity cfg = NewRateLimiter (cf_RateLimitPerMinute cfg)"

text \<open>
  The health servers of cmd/worker and cmd/event-relay: the status for a path, given the answers of the
  two dependencies that readiness asks for; \<open>None\<close> is the metrics handler.
\<close>

definition health_server :: "bool \<Rightarrow> bool \<Rightarrow> string \<Rightarrow> int option" where
  "health_server db_answers other_answers path =
     (if path = ''/health'' then Some 200
      else if path = ''/ready'' then Some (if \<not> db_answers \<or> \<not> other_answers then 503 else 200)
      else if path = ''/metrics'' then None
      else Some 404)"

section \<open>Lists of names\<close>

lemma starts_with_append: "starts_with xs r \<Longrightarrow> starts_with (xs @ ys) r"
  by (auto simp: starts_with_def) (metis length_take min.absorb_iff1 min.commute nat_le_linear take_all_iff diff_is_0_eq append_Nil2 take0)

lemma strip_suffix: "\<exists>p. s = p @ strip rs s"
proof (induction rs s rule: strip.induct)
  case (1 rs s)
  show ?case
  proof (cases "find (starts_with s) rs")
    case None
    then show ?thesis by (simp add: strip.simps [of rs s])
  next
    case (Some r)
    from 1 [OF Some] obtain p where p: "drop (length r) s = p @ strip rs (drop (length r) s)" by blast
    have "s = (take (length r) s @ p) @ strip rs (drop (length r) s)"
      using p by (metis append.assoc append_take_drop_id)
    moreover have "strip rs s = strip rs (drop (length r) s)"
      using Some by (simp add: strip.simps [of rs s])
    ultimately show ?thesis by metis
  qed
qed

lemma strip_id: "find (starts_with s) rs = None \<Longrightarrow> strip rs s = s"
  by (simp add: strip.simps [of rs s])

lemma TrimSpace_idem [simp]: "TrimSpace (TrimSpace s) = TrimSpace s"
proof -
  let ?x = "strip space_runes s" and ?rs = "map rev space_runes"
  obtain p where p: "rev ?x = p @ strip ?rs (rev ?x)" using strip_suffix by blast
  then have x: "?x = TrimSpace s @ rev p" by (metis TrimSpace_def rev_append rev_rev_ident)
  have "find (starts_with (TrimSpace s)) space_runes = None"
    using strip_fixed [of space_runes s] starts_with_append [of "TrimSpace s" _ "rev p"] x
    by (auto simp: find_None_iff)
  then have "strip space_runes (TrimSpace s) = TrimSpace s" by (rule strip_id)
  then show ?thesis by (simp add: TrimSpace_def [of "TrimSpace s"]) (simp add: TrimSpace_def)
qed

lemma split_parts:
  assumes "x \<in> set (split value)"
  shows "x \<noteq> ''''" and "TrimSpace x = x"
  using assms by (auto simp: split_def)

section \<open>Any environment gives a working configuration\<close>

lemma Atoi_range: "Atoi s = Some n \<Longrightarrow> - (2 ^ 63) \<le> n \<and> n < 2 ^ 63"
  by (auto simp: Atoi_def Let_def split: if_splits option.splits)

lemma envInt_range:
  "- (2 ^ 63) \<le> k \<Longrightarrow> k < 2 ^ 63 \<Longrightarrow> - (2 ^ 63) \<le> envInt g key k \<and> envInt g key k < 2 ^ 63"
  using Atoi_range by (auto simp: envInt_def split: option.splits)

text \<open>
  Settings are normalised whatever the environment says.  The worker built from it has a name, at
  least one slot and a batch of at least one, and positive heartbeat times; the rate limiter grants at
  least one request per minute; the hosts that may be called despite the network policy are non-empty
  and trimmed, and there are none unless the variable lists some.
\<close>

theorem settings_normalised:
  "(let w = worker_main_service generated (Load g) in
      wk_ID w \<noteq> '''' \<and> 1 \<le> wk_concurrency w \<and> 1 \<le> wk_batchSize w \<and>
      0 < sint (wk_heartbeatTTL w) \<and> 0 < sint (wk_heartbeatInterval w)) \<and>
   1 \<le> api_main_capacity (Load g) \<and>
   (\<forall>h\<in>set (eo_AllowedHosts (worker_main_options (Load g))). h \<noteq> '''' \<and> TrimSpace h = h) \<and>
   (g ''WEBHOOK_ALLOWED_HOSTS'' = '''' \<longrightarrow> eo_AllowedHosts (worker_main_options (Load g)) = []) \<and>
   (g ''WEBHOOK_ALLOW_PRIVATE'' = '''' \<longrightarrow> \<not> eo_AllowPrivateNetworks (worker_main_options (Load g)))"
proof -
  have "split '''' = []" by (simp add: split_def) code_simp
  then show ?thesis
    using split_parts
    by (auto simp: Let_def worker_main_service_def WithRegistry_def worker_NewService_def
        api_main_capacity_def NewRateLimiter_def worker_main_options_def Load_def env_def envBool_def)
qed

theorem settings_normalised_witness:
  "eo_AllowedHosts (worker_main_options (Load (\<lambda>_. ''''))) = [] \<and>
   \<not> eo_AllowPrivateNetworks (worker_main_options (Load (\<lambda>_. '''')))"
  using settings_normalised [of "''w''" "\<lambda>_. ''''"] by simp

text \<open>The poll interval is not: zero passes through to the ticker, which panics on it.\<close>

theorem poll_interval_unchecked:
  "wk_pollInterval (worker_main_service generated (Load (\<lambda>k.
     if k = ''WORKER_POLL_INTERVAL_SECONDS'' then ''0'' else ''''))) = 0"
proof -
  have "Atoi ''0'' = Some 0" by code_simp
  then show ?thesis
    by (simp add: worker_main_service_def WithRegistry_def worker_NewService_def Load_def envInt_def
        seconds_def)
qed
end
