(* ===== verification/Admin.thy ===== *)
theory Admin
  imports System
begin

text \<open>
  The command cmd/scheduler-admin/main.go and \<open>GenerateKey\<close> of internal/auth/auth.go.  Parsing and printing
  a UUID, opening the connection pool and the random source are parameters.
\<close>

section \<open>Key generation\<close>

text \<open>\<open>base64.RawURLEncoding\<close>: the URL-safe alphabet, no padding.\<close>

definition base64_alphabet :: string where
  "base64_alphabet = ''ABCDEFGHIJKLMNOPQRSTUVWXYZabcdefghijklmnopqrstuvwxyz0123456789-_''"

definition base64_char :: "nat \<Rightarrow> char" where
  "base64_char n = base64_alphabet ! (n mod 64)"

fun base64_raw :: "8 word list \<Rightarrow> string" where
  "base64_raw [] = []"
| "base64_raw [a] = [base64_char (unat a div 4), base64_char (unat a mod 4 * 16)]"
| "base64_raw [a, b] =
     [base64_char (unat a div 4), base64_char (unat a mod 4 * 16 + unat b div 16),
      base64_char (unat b mod 16 * 4)]"
| "base64_raw (a # b # c # rest) =
     [base64_char (unat a div 4), base64_char (unat a mod 4 * 16 + unat b div 16),
      base64_char (unat b mod 16 * 4 + unat c div 64), base64_char (unat c mod 64)] @ base64_raw rest"

text \<open>\<open>raw\<close> is the outcome of \<open>rand.Read\<close> on 32 bytes.\<close>

definition GenerateKey :: "go_error + 8 word list \<Rightarrow> go_error + string" where
  "GenerateKey raw =
     (case raw of Inl e \<Rightarrow> Inl e | Inr bytes \<Rightarrow> Inr (''djs_'' @ base64_raw bytes))"

lemma base64_char_inj:
  assumes "m < 64" and "n < 64" and "base64_char m = base64_char n"
  shows "m = n"
proof -
  have "distinct base64_alphabet" "length base64_alphabet = 64" by (simp_all add: base64_alphabet_def)
  with assms nth_eq_iff_index_eq show ?thesis by (fastforce simp: base64_char_def)
qed

lemma byte_bound: "unat (a :: 8 word) < 256"
proof -
  have "(unsigned a :: nat) < 2 ^ LENGTH(8)" by (rule unsigned_less)
  then show ?thesis by simp
qed

lemma byte_parts:
  assumes "unat a div k = unat b div k" and "unat a mod k = unat b mod k"
  shows "a = (b :: 8 word)"
  using assms by (metis div_mult_mod_eq word_unat_eq_iff)

lemma base64_len: "length (base64_raw bs) = (4 * length bs + 2) div 3"
  by (induction bs rule: base64_raw.induct) auto

lemma base64_first:
  "base64_char (unat a div 4) = base64_char (unat a' div 4) \<Longrightarrow> unat (a :: 8 word) div 4 = unat (a' :: 8 word) div 4"
  by (rule base64_char_inj) (use byte_bound [of a] byte_bound [of a'] in auto)

lemma base64_pair:
  assumes "base64_char (p * k + q) = base64_char (p' * k + q')"
    and "p * k + q < 64" "p' * k + q' < 64" "q < k" "q' < k"
  shows "p = p'" and "q = (q' :: nat)"
proof -
  have e: "p * k + q = p' * k + q'" by (rule base64_char_inj [OF assms(2,3,1)])
  have "(p * k + q) div k = p" "(p' * k + q') div k = p'" using assms(4,5) by simp_all
  with e show "p = p'" by metis
  with e show "q = q'" by simp
qed


lemma mod_small: "x mod 4 * 16 + (y :: nat) div 16 < 64 \<and> y div 16 < 16" if "y < 256" for x y
proof -
  have "x mod 4 \<le> 3" using mod_less_divisor [of 4 x] by linarith
  moreover have "y div 16 < 16" using that by auto
  ultimately show ?thesis by linarith
qed

lemma mod_small': "x mod 16 * 4 + (y :: nat) div 64 < 64 \<and> y div 64 < 4" if "y < 256" for x y
proof -
  have "x mod 16 \<le> 15" using mod_less_divisor [of 16 x] by linarith
  moreover have "y div 64 < 4" using that by auto
  ultimately show ?thesis by linarith
qed

lemma base64_second:
  assumes "base64_char (unat a mod 4 * 16 + unat b div 16) = base64_char (unat a' mod 4 * 16 + unat b' div 16)"
  shows "unat (a :: 8 word) mod 4 = unat (a' :: 8 word) mod 4 \<and> unat (b :: 8 word) div 16 = unat (b' :: 8 word) div 16"
  using base64_pair [OF assms] mod_small [OF byte_bound [of b], of "unat a"]
    mod_small [OF byte_bound [of b'], of "unat a'"] by blast

lemma base64_third:
  assumes "base64_char (unat b mod 16 * 4 + unat c div 64) = base64_char (unat b' mod 16 * 4 + unat c' div 64)"
  shows "unat (b :: 8 word) mod 16 = unat (b' :: 8 word) mod 16 \<and> unat (c :: 8 word) div 64 = unat (c' :: 8 word) div 64"
  using base64_pair [OF assms] mod_small' [OF byte_bound [of c], of "unat b"]
    mod_small' [OF byte_bound [of c'], of "unat b'"] by blast

lemma base64_inj:
  "\<lbrakk>base64_raw xs = base64_raw ys; length xs = length ys\<rbrakk> \<Longrightarrow> xs = ys"
proof (induction xs arbitrary: ys rule: base64_raw.induct)
  case 1
  then show ?case by simp
next
  case (2 a)
  then obtain a' where ys: "ys = [a']" by (auto simp: Suc_length_conv length_Suc_conv)
  have "unat a mod 4 = unat a' mod 4"
    using base64_second [of a "0" a' "0"] 2(1) by (simp add: ys)
  with base64_first [of a a'] 2(1) show ?case by (auto simp: ys intro: byte_parts)
next
  case (3 a b)
  then obtain a' b' where ys: "ys = [a', b']" by (auto simp: Suc_length_conv length_Suc_conv)
  have "unat b mod 16 = unat b' mod 16"
    using base64_third [of b "0" b' "0"] 3(1) by (simp add: ys)
  with base64_first [of a a'] base64_second [of a b a' b'] 3(1) show ?case
    by (auto simp: ys intro: byte_parts)
next
  case (4 a b c rest)
  then obtain a' b' c' rest' where ys: "ys = a' # b' # c' # rest'" by (auto simp: Suc_length_conv length_Suc_conv)
  have "unat c mod 64 = unat c' mod 64"
    using 4(2) by (intro base64_char_inj) (simp_all add: ys)
  with base64_first [of a a'] base64_second [of a b a' b'] base64_third [of b c b' c'] 4
  show ?case by (auto simp: ys intro: byte_parts)
qed

text \<open>
  A generated key has 47 characters, and two keys from different random bytes differ.
\<close>

theorem generated_keys_differ:
  assumes "length x = 32" and "length y = 32" and "x \<noteq> y"
    and "GenerateKey (Inr x) = Inr k" and "GenerateKey (Inr y) = Inr k'"
  shows "length k = 47 \<and> k \<noteq> k'"
  using assms base64_inj [of x y] by (auto simp: GenerateKey_def base64_len)


section \<open>Flags\<close>

text \<open>
  \<open>flag.FlagSet.Parse\<close> for a set of string flags, with \<open>ExitOnError\<close>: \<open>Inl\<close> is the exit code of the
  process, \<open>Inr\<close> the flags given, the latest first.  One or two dashes, \<open>-name=value\<close> or \<open>-name value\<close>;
  parsing stops at the first argument that is no flag, or after \<open>--\<close>.
\<close>

definition flag_name :: "string \<Rightarrow> string" where
  "flag_name arg = (if take 2 arg = ''--'' then drop 2 arg else drop 1 arg)"

fun flag_Parse ::
  "string list \<Rightarrow> (string \<times> string) list \<Rightarrow> string list \<Rightarrow> int + (string \<times> string) list" where
  "flag_Parse known given [] = Inr given"
| "flag_Parse known given (arg # rest) =
     (if length arg < 2 \<or> hd arg \<noteq> CHR ''-'' \<or> arg = ''--'' then Inr given
      else
        (case flag_name arg of
           [] \<Rightarrow> Inl 2
         | c # name \<Rightarrow>
             if c = CHR ''-'' \<or> c = CHR ''='' then Inl 2
             else
               (let key = c # takeWhile (\<lambda>x. x \<noteq> CHR ''='') name in
                if key \<notin> set known then (if key \<in> {''help'', ''h''} then Inl 0 else Inl 2)
                else if CHR ''='' \<in> set name then
                  flag_Parse known ((key, tl (dropWhile (\<lambda>x. x \<noteq> CHR ''='') name)) # given) rest
                else
                  (case rest of
                     [] \<Rightarrow> Inl 2
                   | value # rest' \<Rightarrow> flag_Parse known ((key, value) # given) rest'))))"

definition flag_value :: "(string \<times> string) list \<Rightarrow> string \<Rightarrow> string \<Rightarrow> string" where
  "flag_value given key dflt = (case map_of given key of None \<Rightarrow> dflt | Some v \<Rightarrow> v)"

section \<open>The command\<close>

text \<open>What the process prints to its standard output, and its exit code.\<close>

record admin_result =
  ad_exit :: int
  ad_out :: string

abbreviation admin_exit :: "int \<Rightarrow> (db, admin_result) tx" where
  "admin_exit n \<equiv> return_tx \<lparr>ad_exit = n, ad_out = ''''\<rparr>"

definition newline :: string where
  "newline = [CHR 0x0A]"

definition create_api_key ::
  "(string \<Rightarrow> string) \<Rightarrow> go_error + 8 word list \<Rightarrow> (string \<Rightarrow> uuid option) \<Rightarrow> (uuid \<Rightarrow> string) \<Rightarrow> string list \<Rightarrow>
   (db, admin_result) tx" where
  "create_api_key sha raw uparse ustr args =
     (case flag_Parse [''tenant'', ''name'', ''role'', ''key''] [] args of
        Inl n \<Rightarrow> admin_exit n
      | Inr given \<Rightarrow>
          (case uparse (flag_value given ''tenant'' (ustr DefaultTenantID)) of
             None \<Rightarrow> admin_exit 1
           | Some tenantID \<Rightarrow>
               (let role = flag_value given ''role'' RoleAdmin in
                if role \<noteq> RoleViewer \<and> role \<noteq> RoleOperator \<and> role \<noteq> RoleAdmin then admin_exit 1
                else
                  bind_tx (try_tx (CreateClient sha (GenerateKey raw) tenantID
                    (flag_value given ''name'' ''local-admin'') role (flag_value given ''key'' ''''))) (\<lambda>res.
                  case res of
                    Inl err \<Rightarrow> admin_exit 1
                  | Inr (clientID, secret) \<Rightarrow>
                      return_tx \<lparr>ad_exit = 0,
                        ad_out = ''client_id='' @ ustr clientID @ newline @ ''api_key='' @ secret @ newline\<rparr>))))"

definition revoke_api_key ::
  "(string \<Rightarrow> uuid option) \<Rightarrow> (uuid \<Rightarrow> string) \<Rightarrow> string list \<Rightarrow> (db, admin_result) tx" where
  "revoke_api_key uparse ustr args =
     (case flag_Parse [''id''] [] args of
        Inl n \<Rightarrow> admin_exit n
      | Inr given \<Rightarrow>
          (case uparse (flag_value given ''id'' '''') of
             None \<Rightarrow> admin_exit 1
           | Some clientID \<Rightarrow>
               bind_tx (try_tx (RevokeClient clientID)) (\<lambda>res.
               case res of
                 Inl err \<Rightarrow> admin_exit 1
               | Inr _ \<Rightarrow>
                   return_tx \<lparr>ad_exit = 0, ad_out = ''revoked='' @ ustr clientID @ newline\<rparr>)))"

text \<open>\<open>args\<close> is \<open>os.Args[1:]\<close>, \<open>connect\<close> the error of opening the pool, if any.\<close>

definition admin_main ::
  "(string \<Rightarrow> string) \<Rightarrow> go_error + 8 word list \<Rightarrow> (string \<Rightarrow> uuid option) \<Rightarrow> (uuid \<Rightarrow> string) \<Rightarrow>
   go_error option \<Rightarrow> string list \<Rightarrow> (db, admin_result) tx" where
  "admin_main sha raw uparse ustr connect args =
     (case args of
        [] \<Rightarrow> admin_exit 2
      | cmd # rest \<Rightarrow>
          (case connect of
             Some err \<Rightarrow> admin_exit 1
           | None \<Rightarrow>
               if cmd = ''create-api-key'' then create_api_key sha raw uparse ustr rest
               else if cmd = ''revoke-api-key'' then revoke_api_key uparse ustr rest
               else admin_exit 2))"

lemma atomic_insert_client: "atomic_tx (insert_client mk)"
  unfolding insert_client_def by (rule atomic_pool_stmt)

lemma atomic_CreateClient: "atomic_tx (CreateClient sha gen t name role supplied)"
  unfolding atomic_tx_def
proof (intro allI impI)
  fix w e w'
  assume c: "CreateClient sha gen t name role supplied w = (Inl e, w')"
  show "w_db w' = w_db w"
    using c
    by (auto simp: CreateClient_def bind_tx_def try_tx_def fail_tx_def return_tx_def uuid_New_def
        dest!: atomic_txD [OF atomic_pool_stmt] atomic_txD [OF atomic_insert_client]
        split: sum.splits prod.splits if_splits)
qed

lemma atomic_RevokeClient: "atomic_tx (RevokeClient c)"
proof -
  have "upd_where P f xs = xs" if "rows_affected P xs = 0" for P f and xs :: "api_clients_row list"
    using that by (auto simp: rows_affected_0 upd_where_def intro!: map_idI)
  then show ?thesis
    unfolding atomic_tx_def RevokeClient_def
    by (auto simp: bind_tx_def fail_tx_def return_tx_def update_clients_def pool_stmt_def new_tx_def
        stmt_def split: sum.splits prod.splits if_splits list.splits option.splits)
qed

text \<open>
  An administrative command that does not report success has changed nothing, and no command touches
  anything but the API clients.
\<close>

theorem admin_failure_changes_nothing:
  assumes "admin_main sha raw uparse ustr connect args w = (r, w')"
  shows "same_but_clients (w_db w) (w_db w') \<and>
    (\<exists>res. r = Inr res \<and> (ad_exit res \<noteq> 0 \<or> ad_out res = '''' \<longrightarrow> w_db w' = w_db w))"
proof -
  have c: "same_but_clients (w_db w) (w_db w1) \<and> (\<forall>e. q = Inl e \<longrightarrow> w_db w1 = w_db w)"
    if "CreateClient sha gen t name role supplied w = (q, w1)" for gen t name role supplied q w1
    using that clients_only_CreateClient atomic_txD [OF atomic_CreateClient]
    unfolding clients_only_def by blast
  have v: "same_but_clients (w_db w) (w_db w1) \<and> (\<forall>e. q = Inl e \<longrightarrow> w_db w1 = w_db w)"
    if "RevokeClient i w = (q, w1)" for i q w1
    using that clients_only_RevokeClient atomic_txD [OF atomic_RevokeClient]
    unfolding clients_only_def by blast
  show ?thesis
    using assms
    by (auto simp: admin_main_def create_api_key_def revoke_api_key_def bind_tx_def try_tx_def
        return_tx_def Let_def same_but_clients_refl dest!: c v
        split: list.splits option.splits sum.splits prod.splits if_splits)
qed

end
