(* ===== verification/System_Calls.thy ===== *)
theory System_Calls
  imports System
begin

text \<open>
  What a step of the system is to the database: one successful call of the repository, the outbox or the
  authentication store, or nothing.  Invariants of whole runs are proved over these calls, and over one
  iteration of the two loops among them.
\<close>

section \<open>Steps as calls\<close>

text \<open>What the validator asks of a request, on the columns of the job that keep it.\<close>

definition acceptable :: "'a job_cols_scheme \<Rightarrow> bool" where
  "acceptable r \<longleftrightarrow>
     TrimSpace (j_Name r) \<noteq> '''' \<and> isSupportedJobType (j_JobType r) \<and>
     j_Payload r \<noteq> '''' \<and> j_Payload r \<noteq> ''null'' \<and> 0 \<le> j_Priority r \<and> j_Priority r \<le> 10 \<and>
     0 \<le> j_MaxRetries r \<and> 0 \<le> j_RetryBackoffSeconds r \<and> 0 \<le> j_TimeoutSeconds r"

lemma new_job_acceptable:
  "validateCreate valid req = None \<Longrightarrow> acceptable (new_job digest p req i now)"
  by (auto simp: validateCreate_def acceptable_def new_job_def job_ref_def split: if_splits)

inductive repo_call :: "action \<Rightarrow> (string \<times> Job) set \<Rightarrow> db \<Rightarrow> db \<Rightarrow> bool" where
  nothing: "repo_call a C d d"
| create: "\<lbrakk>new_job_ok j; Create j w = (Inr x, w'); acceptable j\<rbrakk> \<Longrightarrow>
     repo_call DoCreate C (w_db w) (w_db w')"
| operator: "\<lbrakk>(from, to) \<in> set service_moves; TransitionJob t i from to w = (Inr (), w')\<rbrakk> \<Longrightarrow>
     repo_call DoOperator C (w_db w) (w_db w')"
| requeue: "RequeueDeadLetter t i due w = (Inr x, w') \<Longrightarrow> repo_call DoRequeue C (w_db w) (w_db w')"
| recover: "RecoverExpiredRunningJobs reason w = (Inr n, w') \<Longrightarrow> repo_call DoRecover C (w_db w) (w_db w')"
| claim: "ClaimDueJobs wk n ttl w = (Inr ys, w') \<Longrightarrow> repo_call DoClaim C (w_db w) (w_db w')"
| extend: "ExtendLease i wk ttl w = (Inr b, w') \<Longrightarrow> repo_call DoExtend C (w_db w) (w_db w')"
| attempt: "CreateAttempt i wk n w = (Inr x, w') \<Longrightarrow> repo_call DoAttempt C (w_db w) (w_db w')"
| release: "\<lbrakk>(wk, j) \<in> C; ReleaseClaim (j_ID j) wk StatusRetryScheduled w = (Inr (), w')\<rbrakk> \<Longrightarrow>
     repo_call DoRelease C (w_db w) (w_db w')"
| complete: "\<lbrakk>(wk, j) \<in> C; CompleteExecution j wk dur res w = (Inr (), w')\<rbrakk> \<Longrightarrow>
     repo_call DoFinalize C (w_db w) (w_db w')"
| fail: "\<lbrakk>(wk, j) \<in> C; FailExecution j wk dur out st (j_RetryCount j + 1) due w = (Inr (), w')\<rbrakk> \<Longrightarrow>
     repo_call DoFinalize C (w_db w) (w_db w')"
| publish: "\<lbrakk>a \<in> {DoRelay, DoReplay}; same_but_published d d'\<rbrakk> \<Longrightarrow> repo_call a C d d'"
| clients: "same_but_clients d d' \<Longrightarrow> repo_call DoAuth C d d'"

text \<open>A failed call is none.\<close>

lemma call_or_nothing:
  assumes "atomic_tx m" and "m w = (r, w')" and "\<And>x. r = Inr x \<Longrightarrow> repo_call a C (w_db w) (w_db w')"
  shows "repo_call a C (w_db w) (w_db w')"
proof (cases r)
  case (Inl e)
  with assms(1,2) have "w_db w' = w_db w" using atomic_txD by blast
  then show ?thesis by (simp add: repo_call.nothing)
qed (use assms(3) in blast)

lemma create_repo_call:
  assumes "Service_Create valid digest s ctx req w = (r, w')"
  shows "repo_call DoCreate C (w_db w) (w_db w')"
  using assms
proof (cases rule: Service_Create_run)
  case (rejected e)
  then show ?thesis by (simp add: repo_call.nothing)
next
  case (called r1 w1 newID now)
  have "repo_call DoCreate C (w_db w1) (w_db w')"
    by (rule call_or_nothing [OF atomic_Create called(1)])
       (use called repo_call.create [OF new_job_new_job_ok [OF called(7)] _ new_job_acceptable [OF called(7)]]
         in blast)
  with called(2) show ?thesis by simp
qed

lemma finalize_repo_call:
  assumes "finalize PostgresRepository wk j dur out w = (r, w')" and j: "(wk, j) \<in> C"
  shows "repo_call DoFinalize C (w_db w) (w_db w')"
proof (cases out)
  case (Inl e)
  with assms(1) have "finalize_failure PostgresRepository wk j dur e w = (r, w')" by (simp add: finalize_def)
  then show ?thesis
  proof (rule finalize_failure_run)
    fix w1 t due
    let ?dec = "DecideFailure t (j_RetryCount j) (j_MaxRetries j) (j_RetryBackoffSeconds j)"
    assume w1: "w_db w1 = w_db w"
      and "record_failure PostgresRepository wk j dur e (next_status ?dec (ClassifyError e))
             (fd_NextRetryCount ?dec) due w1 = (r, w')"
    moreover have "fd_NextRetryCount ?dec = j_RetryCount j + 1"
      using decision_args_ok [of j t] by (simp add: fail_args_ok_def)
    ultimately obtain r1 where F: "FailExecution j wk dur (ClassifyError e)
        (next_status ?dec (ClassifyError e)) (j_RetryCount j + 1) due w1 = (r1, w')"
      using record_failure_run [of PostgresRepository] by (fastforce simp: PostgresRepository_def)
    have "repo_call DoFinalize C (w_db w1) (w_db w')"
      by (rule call_or_nothing [OF atomic_FailExecution F]) (use F repo_call.fail [OF j] in auto)
    with w1 show ?thesis by simp
  qed
next
  case (Inr res)
  with assms(1) obtain r1 where C: "CompleteExecution j wk dur res w = (r1, w')"
    by (auto simp: finalize_def bind_tx_def try_tx_def return_tx_def fail_tx_def PostgresRepository_def
        split: prod.splits sum.splits)
  show ?thesis
    by (rule call_or_nothing [OF atomic_CompleteExecution C]) (use C repo_call.complete [OF j] in auto)
qed

lemma ensure_attempt_repo_call:
  assumes "ensure_attempt PostgresRepository wk j w = (r, w')"
  shows "repo_call DoAttempt C (w_db w) (w_db w')"
proof (cases "j_ActiveAttemptID j = uuid_Nil")
  case False
  with assms show ?thesis by (simp add: ensure_attempt_def return_tx_def repo_call.nothing)
next
  case True
  with assms obtain r1 where A: "CreateAttempt (j_ID j) wk (j_RetryCount j + 1) w = (r1, w')"
    by (auto simp: ensure_attempt_def bind_tx_def try_tx_def return_tx_def fail_tx_def PostgresRepository_def
        split: prod.splits sum.splits)
  show ?thesis
    by (rule call_or_nothing [OF atomic_CreateAttempt A]) (use A repo_call.attempt in blast)
qed

lemma step_repo_call:
  assumes "sys_step a s s'"
  shows "repo_call a (sy_claims s) (sy_db s) (sy_db s')"
  using assms
proof (induction rule: sys_step.induct)
  case (create w s valid digest cfg ctx req r w')
  from create_repo_call [OF create(2)] create(1) show ?case by simp
next
  case (operator w s "from" to t i r1 w')
  have "repo_call DoOperator (sy_claims s) (w_db w) (w_db w')"
    by (rule call_or_nothing [OF atomic_TransitionJob operator(3)])
       (use operator(2,3) repo_call.operator in auto)
  with operator(1) show ?case by simp
next
  case (requeue w s ctx i r2 w')
  define w1 where "w1 = w\<lparr>w_ticks := Suc (w_ticks w)\<rparr>"
  have R: "RequeueDeadLetter (p_TenantID (PrincipalOrDefault ctx)) i (w_clock w (w_ticks w)) w1 = (r2, w')"
    using requeue(2) by (simp add: w1_def Service_RequeueDeadLetter_def bind_tx_def time_Now_def)
  have "repo_call DoRequeue (sy_claims s) (w_db w1) (w_db w')"
    by (rule call_or_nothing [OF atomic_RequeueDeadLetter R]) (use R repo_call.requeue in blast)
  with requeue(1) show ?case by (simp add: w1_def)
next
  case (recover w s reason r3 w')
  have "repo_call DoRecover (sy_claims s) (w_db w) (w_db w')"
    by (rule call_or_nothing [OF atomic_RecoverExpiredRunningJobs recover(2)])
       (use recover(2) repo_call.recover in blast)
  with recover(1) show ?case by simp
next
  case (claim w s wk n ttl r4 w')
  have "repo_call DoClaim (sy_claims s) (w_db w) (w_db w')"
    by (rule call_or_nothing [OF atomic_ClaimDueJobs claim(2)]) (use claim(2) repo_call.claim in blast)
  with claim(1) show ?case by simp
next
  case (extend w s i wk ttl r5 w')
  have "repo_call DoExtend (sy_claims s) (w_db w) (w_db w')"
    by (rule call_or_nothing [OF atomic_ExtendLease extend(2)]) (use extend(2) repo_call.extend in blast)
  with extend(1) show ?case by simp
next
  case (attempt w s wk j r6 w')
  from ensure_attempt_repo_call [OF attempt(3)] attempt(1) show ?case by simp
next
  case (release w s wk j r7 w')
  have "repo_call DoRelease (sy_claims s) (w_db w) (w_db w')"
    by (rule call_or_nothing [OF atomic_ReleaseClaim release(3)])
       (use release(2,3) repo_call.release in auto)
  with release(1) show ?case by simp
next
  case (finalize w s wk j dur out r8 w')
  from finalize_repo_call [OF finalize(3,2)] finalize(1) show ?case by simp
next
  case (relay w s arrange relay batch lease p r9 w' p')
  with repo_call.publish [OF _ publishBatch_same [OF relay(2)], of DoRelay] show ?case by simp
next
  case (replay w s t i r10 w')
  with repo_call.publish [OF _ Replay_same [OF replay(2)], of DoReplay] show ?case by simp
next
  case (auth w s sha key r11 w' gen t name role supplied r12 c r13)
  then have "same_but_clients (w_db w) (w_db w')"
    using clients_only_Authenticate clients_only_CreateClient clients_only_RevokeClient
    unfolding clients_only_def by blast
  with auth(1) repo_call.clients show ?case by simp
qed


section \<open>Loops\<close>

text \<open>A relation that holds for one recovered or claimed job holds for the whole call.\<close>

lemma recover_loop_rel:
  assumes refl: "\<And>d. db_ok d \<Longrightarrow> R d d"
    and trans: "\<And>d d' d''. extends d d' \<Longrightarrow> R d d' \<Longrightarrow> R d' d'' \<Longrightarrow> R d d''"
    and one: "\<And>w r u w'. \<lbrakk>db_ok (w_db w); r \<in> set (jobs (w_db w)); j_Status r = StatusRunning;
      recover_one reason (scanJob r) w = (Inr u, w')\<rbrakk> \<Longrightarrow> R (w_db w) (w_db w')"
    and "for_tx (recover_one reason) (map scanJob rs) w = (Inr us, w')"
    and "db_ok (w_db w)" and "distinct (map j_ID rs)"
    and "set rs \<subseteq> {r \<in> set (jobs (w_db w)). j_Status r = StatusRunning}"
  shows "R (w_db w) (w_db w')"
  using assms(4-)
proof (induction rs arbitrary: w us)
  case Nil
  then show ?case by (simp add: tx_simps refl)
next
  case (Cons r rs)
  from Cons.prems(1) obtain u zs w1 where u: "recover_one reason (scanJob r) w = (Inr u, w1)"
    and zs: "for_tx (recover_one reason) (map scanJob rs) w1 = (Inr zs, w')"
    by (auto simp: tx_simps)
  from Cons.prems(4) have r: "r \<in> set (jobs (w_db w))" "j_Status r = StatusRunning" by auto
  from recover_step [OF Cons.prems(2) r u] obtain f where
    f: "jobs (w_db w1) = upd_where (\<lambda>s. j_ID s = j_ID r \<and> j_Status s = StatusRunning) f (jobs (w_db w))"
    and ok1: "db_ok (w_db w1)" and ext: "extends (w_db w) (w_db w1)"
    by blast
  have "set rs \<subseteq> {r \<in> set (jobs (w_db w1)). j_Status r = StatusRunning}"
  proof
    fix s
    assume s: "s \<in> set rs"
    then have "j_ID s \<in> set (map j_ID rs)" by simp
    with Cons.prems(3) have "j_ID s \<noteq> j_ID r" by auto
    with s Cons.prems(4) f show "s \<in> {r \<in> set (jobs (w_db w1)). j_Status r = StatusRunning}"
      by (auto simp: in_upd_where)
  qed
  with Cons.IH [OF zs ok1] one [OF Cons.prems(2) r u] Cons.prems(3) ext show ?case by (auto intro: trans)
qed

lemma recover_rel:
  assumes "\<And>d. db_ok d \<Longrightarrow> R d d"
    and "\<And>d d' d''. extends d d' \<Longrightarrow> R d d' \<Longrightarrow> R d' d'' \<Longrightarrow> R d d''"
    and "\<And>w r u w'. \<lbrakk>db_ok (w_db w); r \<in> set (jobs (w_db w)); j_Status r = StatusRunning;
      recover_one reason (scanJob r) w = (Inr u, w')\<rbrakk> \<Longrightarrow> R (w_db w) (w_db w')"
    and ok: "db_ok (w_db w)" and R: "RecoverExpiredRunningJobs reason w = (Inr m, w')"
  shows "R (w_db w) (w_db w')"
proof -
  from R obtain w1 w2 us where
    L: "for_tx (recover_one reason) (map scanJob (expired_rows w)) w1 = (Inr us, w2)"
    and w: "w_db w1 = w_db w" "w_db w' = w_db w2"
    by (rule RecoverExpiredRunningJobs_okE) blast
  have "distinct (map j_ID (expired_rows w))"
    using db_okD(1) [OF ok] by (simp add: keys_ok_def distinct_map_filter)
  moreover have "set (expired_rows w) \<subseteq> {r \<in> set (jobs (w_db w1)). j_Status r = StatusRunning}"
    using w by (auto simp: expired_def)
  ultimately show ?thesis using recover_loop_rel [where R = R, OF assms(1-3) L] ok by (simp add: w)
qed

lemma claim_loop_rel:
  assumes refl: "\<And>d. db_ok d \<Longrightarrow> R d d"
    and trans: "\<And>d d' d''. extends d d' \<Longrightarrow> R d d' \<Longrightarrow> R d' d'' \<Longrightarrow> R d d''"
    and one: "\<And>d r j now eid. \<lbrakk>db_ok d; r \<in> set (jobs d); waiting r; j_ID j = j_ID r;
      j_ActiveAttemptID j \<notin> a_ID ` set (job_attempts d)\<rbrakk> \<Longrightarrow> R d (claim_effect wk ttl now eid j d)"
    and "for_tx (claim_one wk ttl) xs w = (Inr ys, w')"
    and "db_ok (w_db w)" and "distinct (map j_ID xs)"
    and "\<forall>x\<in>set xs. \<exists>r\<in>set (jobs (w_db w)). x = scanJob r \<and> waiting r"
  shows "R (w_db w) (w_db w')"
  using assms(4-)
proof (induction xs arbitrary: w ys)
  case Nil
  then show ?case by (simp add: tx_simps refl)
next
  case (Cons x xs)
  from Cons.prems(1) obtain y zs w1 where y: "claim_one wk ttl x w = (Inr y, w1)"
    and zs: "for_tx (claim_one wk ttl) xs w1 = (Inr zs, w')"
    by (auto simp: tx_simps)
  from Cons.prems(4) obtain r where r: "r \<in> set (jobs (w_db w))" "x = scanJob r" "waiting r" by auto
  have s: "j_ID (scanJob s) = j_ID s" "j_TenantID (scanJob s) = j_TenantID s" for s
    by (simp_all add: scanJob_def job_cols.defs Job.defs)
  from y obtain eid aid t where y': "y = claimed_job wk ttl t aid x"
    and d1: "w_db w1 = claim_effect wk ttl (w_now w) eid y (w_db w)"
    and e: "eid \<notin> e_ID ` set (job_events (w_db w))" and a: "aid \<notin> a_ID ` set (job_attempts (w_db w))"
    by (rule claim_one_okE) blast
  have ids: "j_ID y = j_ID r" "j_TenantID y = j_TenantID r" "j_ActiveAttemptID y = aid" by (simp_all add: y' r(2) s)
  have ok1: "db_ok (w_db w1)"
    unfolding d1 by (rule claim_effect_ok [OF Cons.prems(2) r(1,3)]) (use ids e a in auto)
  have b: "R (w_db w) (w_db w1)"
    unfolding d1 by (rule one [OF Cons.prems(2) r(1,3)]) (use ids a in auto)
  have "\<exists>s\<in>set (jobs (w_db w1)). z = scanJob s \<and> waiting s" if z: "z \<in> set xs" for z
  proof -
    from z Cons.prems(4) obtain s' where s': "s' \<in> set (jobs (w_db w))" "z = scanJob s'" "waiting s'" by auto
    have "j_ID z \<in> set (map j_ID xs)" using z by simp
    with Cons.prems(3) have "j_ID s' \<noteq> j_ID r" using r s' s by auto
    with s' show ?thesis
      using ids by (intro bexI [of _ s']) (auto simp: d1 claim_effect_def in_upd_where)
  qed
  moreover have "extends (w_db w) (w_db w1)" by (simp add: d1)
  ultimately show ?case using Cons.IH [OF zs ok1] b Cons.prems(3) by (auto intro: trans)
qed

lemma claim_rel:
  assumes "\<And>d. db_ok d \<Longrightarrow> R d d"
    and "\<And>d d' d''. extends d d' \<Longrightarrow> R d d' \<Longrightarrow> R d' d'' \<Longrightarrow> R d d''"
    and "\<And>d r j now eid. \<lbrakk>db_ok d; r \<in> set (jobs d); waiting r; j_ID j = j_ID r;
      j_ActiveAttemptID j \<notin> a_ID ` set (job_attempts d)\<rbrakk> \<Longrightarrow> R d (claim_effect wk ttl now eid j d)"
    and ok: "db_ok (w_db w)" and C: "ClaimDueJobs wk n ttl w = (Inr ys, w')"
  shows "R (w_db w) (w_db w')"
proof -
  let ?rs = "select_due (tx_now w) (skip_locked (begun w)) n (jobs (w_db w))"
  from C obtain w1 w2 where L: "for_tx (claim_one wk ttl) (map scanJob ?rs) w1 = (Inr ys, w2)"
    and w: "w_db w1 = w_db w" "w_db w' = w_db w2"
    by (rule ClaimDueJobs_okE) blast
  have "distinct (map j_ID (map scanJob ?rs))"
    using select_due_distinct db_okD(1) [OF ok] by (simp add: keys_ok_def comp_def)
  moreover have "\<forall>x\<in>set (map scanJob ?rs). \<exists>r\<in>set (jobs (w_db w1)). x = scanJob r \<and> waiting r"
    using select_due_sub claimable_waiting w by fastforce
  ultimately show ?thesis using claim_loop_rel [where R = R, OF assms(1-3) L] ok by (simp add: w)
qed

end
