(* ===== verification/Retry_Budget.thy ===== *)
theory Retry_Budget
  imports System_Calls
begin

text \<open>
  The retry budget over whole runs of the system: the retry counter of a job against its event log and
  its attempts.  The runs considered are those in which no worker gives a claim back after missing the
  Redis lock; such a release neither counts a retry nor closes the attempt.
\<close>

section \<open>The books\<close>

text \<open>The events that tell of a failed or expired execution, and the attempts of a job.\<close>

definition is_failure :: "events_row \<Rightarrow> bool" where
  "is_failure e \<longleftrightarrow> e_EventType e \<in> {''job.retry_scheduled'', ''job.dead_lettered''}"

definition failures :: "db \<Rightarrow> uuid \<Rightarrow> nat" where
  "failures d i = length (filter (\<lambda>e. e_JobID e = i \<and> is_failure e) (job_events d))"

definition tries :: "db \<Rightarrow> uuid \<Rightarrow> nat" where
  "tries d i = length (filter (\<lambda>a. a_JobID a = i) (job_attempts d))"

text \<open>How many attempts a job of a status and a retry count has.\<close>

definition tries_due :: "Status \<Rightarrow> int \<Rightarrow> int \<Rightarrow> bool" where
  "tries_due st rc n \<longleftrightarrow>
     (if st = StatusRunning \<or> st = StatusSucceeded then n = rc + 1
      else if st = StatusCancelled then n = rc \<or> n = rc + 1 else n = rc)"

definition accounted :: "db \<Rightarrow> jobs_row \<Rightarrow> bool" where
  "accounted d r \<longleftrightarrow>
     int (failures d (j_ID r)) = j_RetryCount r \<and>
     tries_due (j_Status r) (j_RetryCount r) (int (tries d (j_ID r)))"

abbreviation open_attempt :: "attempts_row \<Rightarrow> bool" where
  "open_attempt a \<equiv> a_Status a = AttemptRunning"

text \<open>Every job is accounted for, and an open attempt is the only one of a running job.\<close>

definition books_ok :: "db \<Rightarrow> bool" where
  "books_ok d \<longleftrightarrow>
     (\<forall>r\<in>set (jobs d). accounted d r) \<and>
     (\<forall>a\<in>set (job_attempts d). open_attempt a \<longrightarrow>
        (\<exists>r\<in>set (jobs d). j_ID r = a_JobID a \<and> j_Status r = StatusRunning)) \<and>
     (\<forall>a\<in>set (job_attempts d). \<forall>b\<in>set (job_attempts d).
        open_attempt a \<longrightarrow> open_attempt b \<longrightarrow> a_JobID a = a_JobID b \<longrightarrow> a_ID a = a_ID b)"

text \<open>An old attempt that is still open was open before, and its job's retry count is as before.\<close>

definition steady :: "db \<Rightarrow> db \<Rightarrow> bool" where
  "steady d d' \<longleftrightarrow>
     (\<forall>a'\<in>set (job_attempts d'). open_attempt a' \<longrightarrow> a_ID a' \<in> a_ID ` set (job_attempts d) \<longrightarrow>
        (\<exists>a\<in>set (job_attempts d). a_ID a = a_ID a' \<and> a_JobID a = a_JobID a' \<and> open_attempt a) \<and>
        (\<forall>r\<in>set (jobs d). \<forall>r'\<in>set (jobs d').
           j_ID r = a_JobID a' \<longrightarrow> j_ID r' = a_JobID a' \<longrightarrow> j_RetryCount r' = j_RetryCount r))"

lemma steady_refl: "keys_ok d \<Longrightarrow> steady d d"
  by (auto simp: steady_def dest: job_key_unique)

lemma no_open_attempt:
  assumes "keys_ok d" and "books_ok d" and "r \<in> set (jobs d)" and "j_Status r \<noteq> StatusRunning"
    and "a \<in> set (job_attempts d)" and "a_JobID a = j_ID r"
  shows "\<not> open_attempt a"
  using assms job_key_unique [of d _ r] unfolding books_ok_def by metis

section \<open>One row changes\<close>

lemma failures_append:
  assumes "job_events d' = job_events d @ es" and "\<And>e. e \<in> set es \<Longrightarrow> e_JobID e = k"
  shows "failures d' i = failures d i + (if i = k then length (filter is_failure es) else 0)"
proof -
  have "filter (\<lambda>e. e_JobID e = i \<and> is_failure e) es = (if i = k then filter is_failure es else [])"
    using assms(2) by (auto intro!: filter_cong simp: filter_empty_conv)
  then show ?thesis by (simp add: failures_def assms(1))
qed

lemma tries_update:
  assumes "job_attempts d' = upd_where Q g (job_attempts d)" and "\<And>a. a_JobID (g a) = a_JobID a"
  shows "tries d' i = tries d i"
  by (simp add: tries_def assms filter_upd_where)

lemma books_update:
  assumes ok: "keys_ok d" "books_ok d" and r: "r \<in> set (jobs d)"
    and js: "jobs d' = upd_where P f (jobs d)" "P r" "\<And>s. s \<in> set (jobs d) \<Longrightarrow> P s \<Longrightarrow> j_ID s = j_ID r"
      "j_ID (f r) = j_ID r"
    and as: "job_attempts d' = upd_where Q g (job_attempts d)"
      "\<And>a. a_ID (g a) = a_ID a \<and> a_JobID (g a) = a_JobID a \<and> \<not> open_attempt (g a)"
    and es: "job_events d' = job_events d @ es" "\<And>e. e \<in> set es \<Longrightarrow> e_JobID e = j_ID r"
    and rc: "j_RetryCount (f r) = j_RetryCount r + int (length (filter is_failure es))"
    and tr: "\<And>n. tries_due (j_Status r) (j_RetryCount r) n \<Longrightarrow> tries_due (j_Status (f r)) (j_RetryCount (f r)) n"
    and run: "j_Status (f r) = StatusRunning \<and> j_RetryCount (f r) = j_RetryCount r \<or>
      (\<forall>a\<in>set (job_attempts d). a_JobID a = j_ID r \<longrightarrow> open_attempt a \<longrightarrow> Q a)"
  shows "books_ok d' \<and> steady d d'"
proof -
  have P: "P s \<longleftrightarrow> s = r" if "s \<in> set (jobs d)" for s
    using that js(2,3) r job_key_unique [OF ok(1)] by blast
  have rows: "r' = f r \<or> r' \<in> set (jobs d) \<and> j_ID r' \<noteq> j_ID r" if "r' \<in> set (jobs d')" for r'
    using that P job_key_unique [OF ok(1) _ r] unfolding js(1) by (auto simp: in_upd_where split: if_splits)
  have fr: "f r \<in> set (jobs d')" using r js(2) unfolding js(1) by (auto simp: in_upd_where)
  have others: "s \<in> set (jobs d')" if "s \<in> set (jobs d)" "j_ID s \<noteq> j_ID r" for s
    using that P unfolding js(1) by (auto simp: in_upd_where)
  have opens: "a \<in> set (job_attempts d) \<and> \<not> Q a" if "a \<in> set (job_attempts d')" "open_attempt a" for a
    using that unfolding as(1) in_upd_where by (metis as(2))
  have acc: "accounted d s" if "s \<in> set (jobs d)" for s using that ok(2) by (simp add: books_ok_def)
  have "accounted d' r'" if "r' \<in> set (jobs d')" for r'
    using rows [OF that] acc [OF r] acc [of r'] rc tr js(4)
    by (auto simp: accounted_def failures_append [OF es] tries_update [OF as(1)] as(2))
  moreover have open_row: "\<exists>r'\<in>set (jobs d'). j_ID r' = a_JobID a \<and> j_Status r' = StatusRunning"
    if a: "a \<in> set (job_attempts d')" "open_attempt a" for a
  proof (cases "a_JobID a = j_ID r")
    case True
    with opens [OF a] a(2) run have "j_Status (f r) = StatusRunning" by blast
    with fr js(4) True show ?thesis by auto
  next
    case False
    from opens [OF a] a(2) ok(2) obtain s where "s \<in> set (jobs d)" "j_ID s = a_JobID a" "j_Status s = StatusRunning"
      unfolding books_ok_def by blast
    with False others show ?thesis by auto
  qed
  moreover have "a_ID a = a_ID b"
    if "a \<in> set (job_attempts d')" "b \<in> set (job_attempts d')" "open_attempt a" "open_attempt b" "a_JobID a = a_JobID b"
    for a b
    using opens [OF that(1,3)] opens [OF that(2,4)] that ok(2) unfolding books_ok_def by blast
  moreover have "j_RetryCount r' = j_RetryCount s"
    if a: "a \<in> set (job_attempts d')" "open_attempt a" and s: "s \<in> set (jobs d)" "r' \<in> set (jobs d')"
      "j_ID s = a_JobID a" "j_ID r' = a_JobID a" for a s r'
  proof (cases "a_JobID a = j_ID r")
    case True
    with opens [OF a] a(2) run have "j_RetryCount (f r) = j_RetryCount r" by blast
    moreover have "s = r" using s True job_key_unique [OF ok(1) s(1) r] by simp
    moreover have "r' = f r" using rows [OF s(2)] s(4) True by simp
    ultimately show ?thesis by simp
  next
    case False
    with rows [OF s(2)] s js(4) have "r' \<in> set (jobs d)" by auto
    with job_key_unique [OF ok(1) this s(1)] s show ?thesis by simp
  qed
  ultimately show ?thesis
    using opens unfolding books_ok_def steady_def by blast
qed


section \<open>Calls\<close>

text \<open>A call that failed, or that changed only API clients or publication columns.\<close>

lemma books_same:
  assumes "keys_ok d" and "books_ok d" and "jobs d' = jobs d" and "job_attempts d' = job_attempts d"
    and "map event_const (job_events d') = map event_const (job_events d)"
  shows "books_ok d' \<and> steady d d'"
proof -
  have e: "filter (\<lambda>e. e_JobID e = i \<and> is_failure e) es = filter (\<lambda>e. (\<lambda>((_, k, _), (t, _), _). k = i \<and>
      t \<in> {''job.retry_scheduled'', ''job.dead_lettered''}) (event_const e)) es" for i es
    by (rule filter_cong) (auto simp: event_const_def is_failure_def)
  have f: "failures d' i = failures d i" for i
  proof -
    let ?p = "\<lambda>((_, k, _), (t, _), _). k = i \<and> t \<in> {''job.retry_scheduled'', ''job.dead_lettered''}"
    have "length (filter ?p (map event_const (job_events d'))) = length (filter ?p (map event_const (job_events d)))"
      using assms(5) by simp
    then show ?thesis unfolding failures_def e by (simp add: filter_map comp_def)
  qed
  have t: "tries d' i = tries d i" for i by (simp add: tries_def assms(4))
  have "books_ok d'" using assms(2) unfolding books_ok_def accounted_def f t assms(3,4) .
  moreover have "steady d d'" using steady_refl [OF assms(1)] unfolding steady_def assms(3,4) .
  ultimately show ?thesis ..
qed

lemma fresh_id_books:
  assumes "refs_ok d" and "i \<notin> j_ID ` set (jobs d)"
  shows "failures d i = 0" and "tries d i = 0"
proof -
  have "e_JobID e \<noteq> i" if "e \<in> set (job_events d)" for e
    using that assms unfolding refs_ok_def by (force simp: job_ref_key_def)
  then show "failures d i = 0" by (auto simp: failures_def filter_empty_conv)
  have "a_JobID a \<noteq> i" if "a \<in> set (job_attempts d)" for a
    using that assms unfolding refs_ok_def by (force simp: job_ref_key_def)
  then show "tries d i = 0" by (auto simp: tries_def filter_empty_conv)
qed

text \<open>A new job starts with empty books.\<close>

lemma books_append:
  assumes ok: "db_ok d" "books_ok d" and r: "j_ID r \<notin> j_ID ` set (jobs d)" "j_RetryCount r = 0"
      "j_Status r \<in> {StatusPending, StatusScheduled}"
    and d': "jobs d' = jobs d @ [r]" "job_attempts d' = job_attempts d" "job_events d' = job_events d @ [e]"
      "e_JobID e = j_ID r" "\<not> is_failure e"
  shows "books_ok d' \<and> steady d d'"
proof -
  note k = db_okD(1) [OF ok(1)]
  have f: "failures d' i = failures d i" for i
    using failures_append [OF d'(3), of "j_ID r" i] d'(4,5) by simp
  have t: "tries d' i = tries d i" for i by (simp add: tries_def d'(2))
  have "accounted d' r" using fresh_id_books [OF db_okD(3) [OF ok(1)] r(1)] r by (auto simp: accounted_def f t tries_due_def)
  moreover have "accounted d' s" if "s \<in> set (jobs d)" for s
    using ok(2) that by (simp add: books_ok_def accounted_def f t)
  ultimately have "\<forall>s\<in>set (jobs d'). accounted d' s" by (simp add: d'(1))
  moreover have "set (jobs d) \<subseteq> set (jobs d')" by (auto simp: d'(1))
  ultimately have "books_ok d'" using ok(2) unfolding books_ok_def d'(2) by blast
  moreover have "steady d d'"
  proof -
    have "a_JobID a \<noteq> j_ID r" if "a \<in> set (job_attempts d)" "open_attempt a" for a
      using that ok(2) r(1) unfolding books_ok_def by (metis image_eqI)
    note other = this
    show ?thesis
      unfolding steady_def d'(1,2)
    proof (intro ballI impI conjI)
      fix a s s'
      assume a: "a \<in> set (job_attempts d)" "open_attempt a" "s \<in> set (jobs d)" "s' \<in> set (jobs d @ [r])"
        "j_ID s = a_JobID a" "j_ID s' = a_JobID a"
      with other [of a] have "s' \<in> set (jobs d)" by auto
      with job_key_unique [OF k this a(3)] a show "j_RetryCount s' = j_RetryCount s" by simp
    qed auto
  qed
  ultimately show ?thesis by blast
qed

lemma Create_books:
  assumes "db_ok (w_db w)" and "books_ok (w_db w)" and "new_job_ok j" and "Create j w = (Inr x, w')"
  shows "books_ok (w_db w') \<and> steady (w_db w) (w_db w')"
  using assms(4)
proof (cases rule: Create_okE)
  case (inserted r eid)
  then show ?thesis
    using assms(3) by (intro books_append [OF assms(1,2), of r]) (auto simp: new_job_ok_def is_failure_def)
next
  case replayed
  then show ?thesis using assms steady_refl db_okD(1) by simp
qed

lemma Requeue_books:
  assumes "db_ok (w_db w)" and "books_ok (w_db w)" and "RequeueDeadLetter t i due w = (Inr x, w')"
  shows "books_ok (w_db w') \<and> steady (w_db w) (w_db w')"
  using assms(3)
proof (cases rule: RequeueDeadLetter_okE)
  case (1 dl newID st eid)
  then show ?thesis
    using initialStatus_cases [of due "w_clock w (w_ticks w)"]
    by (intro books_append [OF assms(1,2), of "requeue_row dl newID t st due (tx_now w)"])
       (auto simp: requeue_effect_def is_failure_def)
qed

text \<open>Operators.\<close>

lemma operator_event: "(from, to) \<in> set service_moves \<Longrightarrow> to \<noteq> StatusRetryScheduled \<Longrightarrow>
    ''job.'' @ ToLower (status_string to) \<notin> {''job.retry_scheduled'', ''job.dead_lettered''}"
  by (auto simp: service_moves_def) code_simp+

lemma Transition_books:
  assumes ok: "db_ok (w_db w)" "books_ok (w_db w)" and m: "(from, to) \<in> set service_moves"
    and T: "TransitionJob t i from to w = (Inr u, w')"
  shows "books_ok (w_db w') \<and> steady (w_db w) (w_db w')"
  using T
proof (cases rule: TransitionJob_okE)
  case (1 eid r)
  have "j_Status r \<noteq> StatusFailed" using 1 db_okD(2) [OF ok(1)] by (auto simp: rows_ok_def job_ok_def)
  with 1 m have to: "to \<noteq> StatusRetryScheduled" by (auto simp: service_moves_def)
  let ?e = "new_event (tx_now w) eid (job_ref i t) (''job.'' @ ToLower (status_string to)) ''scheduler-api''
      [(''status'', JStatus to)]"
  have e: "\<not> is_failure ?e" using operator_event [OF m to] by (simp add: is_failure_def)
  show ?thesis
  proof (rule books_update [OF db_okD(1) [OF ok(1)] ok(2) \<open>r \<in> set (jobs (w_db w))\<close>,
        where P = "\<lambda>r. j_TenantID r = t \<and> j_ID r = i \<and> j_Status r \<in> set from"
          and f = "transition_row to (tx_now w)" and es = "[?e]"
          and Q = "\<lambda>a. to = StatusCancelled \<and> a_JobID a = i \<and> a_Status a = AttemptRunning"
          and g = "cancel_attempt_row (tx_now w)"])
    show "job_attempts (w_db w') = upd_where (\<lambda>a. to = StatusCancelled \<and> a_JobID a = i \<and> open_attempt a)
        (cancel_attempt_row (tx_now w)) (job_attempts (w_db w))"
      by (simp add: 1 transition_effect_def upd_where_def)
    show "j_Status (transition_row to (tx_now w) r) = StatusRunning \<and>
        j_RetryCount (transition_row to (tx_now w) r) = j_RetryCount r \<or>
        (\<forall>a\<in>set (job_attempts (w_db w)). a_JobID a = j_ID r \<longrightarrow> open_attempt a \<longrightarrow>
          to = StatusCancelled \<and> a_JobID a = i \<and> open_attempt a)"
      using no_open_attempt [OF db_okD(1) [OF ok(1)] ok(2) 1(3)] 1 m by (auto simp: service_moves_def)
  qed (use 1 e m in \<open>auto simp: transition_effect_def transition_row_def cancel_attempt_row_def tries_due_def
        service_moves_def split: if_splits\<close>)
qed


text \<open>Workers.  The attempt of a live claim is the only open one of its job.\<close>

lemma only_open:
  assumes ok: "keys_ok d" "books_ok d" and c: "claim_ok d j"
    and a: "a \<in> set (job_attempts d)" "a_ID a = j_ActiveAttemptID j" "open_attempt a"
    and b: "b \<in> set (job_attempts d)" "a_JobID b = j_ID j" "open_attempt b"
  shows "a_ID b = j_ActiveAttemptID j"
  using ok(2) a b claim_attempt [OF ok(1) c a(1,2)] unfolding books_ok_def by metis

lemma Complete_books:
  assumes ok: "db_ok (w_db w)" "books_ok (w_db w)" and c: "claim_ok (w_db w) j"
    and C: "CompleteExecution j wk dur res w = (Inr u, w')"
  shows "books_ok (w_db w') \<and> steady (w_db w) (w_db w')"
  using C
proof (cases rule: CompleteExecution_okE)
  case (1 eid r a)
  note k = db_okD(1) [OF ok(1)]
  have r: "j_ID r = j_ID j" "j_Status r = StatusRunning" using 1 by (auto simp: owned_by_def)
  show ?thesis
  proof (rule books_update [OF k ok(2) 1(2),
        where P = "\<lambda>r. owned_by (j_ID j) wk r \<and> j_TenantID r = j_TenantID j" and f = "succeed_row (tx_now w)"
          and Q = "\<lambda>a. a_ID a = j_ActiveAttemptID j \<and> a_Status a = AttemptRunning"
          and g = "\<lambda>a. a\<lparr>a_Status := AttemptSucceeded, a_CompletedAt := Some (tx_now w),
                     a_ExecutionDurationMS := Some (duration_Milliseconds dur), a_Result := nullableJSON res\<rparr>"
          and es = "[new_event (tx_now w) eid j ''job.completed'' ''worker''
            [(''worker_id'', JStr wk), (''execution_duration_ms'', JInt (duration_Milliseconds dur))]]"])
    show "j_Status (succeed_row (tx_now w) r) = StatusRunning \<and> j_RetryCount (succeed_row (tx_now w) r) = j_RetryCount r \<or>
      (\<forall>a\<in>set (job_attempts (w_db w)). a_JobID a = j_ID r \<longrightarrow> open_attempt a \<longrightarrow>
         a_ID a = j_ActiveAttemptID j \<and> open_attempt a)"
      using only_open [OF k ok(2) c 1(5,6,7)] r by auto
  qed (use 1 r in \<open>auto simp: complete_effect_def owned_by_def succeed_row_def is_failure_def tries_due_def\<close>)
qed

lemma Fail_books:
  assumes ok: "db_ok (w_db w)" "books_ok (w_db w)" and c: "claim_ok (w_db w) j"
    and rc: "\<And>r a. \<lbrakk>r \<in> set (jobs (w_db w)); j_ID r = j_ID j; a \<in> set (job_attempts (w_db w));
      a_ID a = j_ActiveAttemptID j; open_attempt a\<rbrakk> \<Longrightarrow> n = j_RetryCount r + 1"
    and F: "FailExecution j wk dur out st n due w = (Inr u, w')"
  shows "books_ok (w_db w') \<and> steady (w_db w) (w_db w')"
proof -
  note k = db_okD(1) [OF ok(1)]
  have gen: "books_ok (w_db w') \<and> steady (w_db w) (w_db w')"
    if r: "r \<in> set (jobs (w_db w))" "owned_by (j_ID j) wk r"
      and a: "a \<in> set (job_attempts (w_db w))" "a_ID a = j_ActiveAttemptID j" "open_attempt a"
      and d': "jobs (w_db w') = upd_where (owned_by (j_ID j) wk) f (jobs (w_db w))"
        "job_attempts (w_db w') = upd_where (\<lambda>a. a_ID a = j_ActiveAttemptID j \<and> open_attempt a)
           (fail_attempt_row dur out (tx_now w)) (job_attempts (w_db w))"
        "job_events (w_db w') = job_events (w_db w) @ es"
      and f: "j_ID (f r) = j_ID r" "j_RetryCount (f r) = n" "j_Status (f r) \<in> {StatusRetryScheduled, StatusDeadLettered}"
      and es: "length (filter is_failure es) = 1" "\<And>e. e \<in> set es \<Longrightarrow> e_JobID e = j_ID j" for r a f es
  proof (rule books_update [OF k ok(2) r(1) d'(1) r(2) _ f(1) d'(2) _ d'(3)])
    have r': "j_ID r = j_ID j" "j_Status r = StatusRunning" using r by (auto simp: owned_by_def)
    show "j_RetryCount (f r) = j_RetryCount r + int (length (filter is_failure es))"
      using rc [OF r(1) r'(1) a] f es by simp
    show "tries_due (j_Status (f r)) (j_RetryCount (f r)) m" if "tries_due (j_Status r) (j_RetryCount r) m" for m
      using that f(2,3) r'(2) rc [OF r(1) r'(1) a] by (auto simp: tries_due_def)
    show "j_Status (f r) = StatusRunning \<and> j_RetryCount (f r) = j_RetryCount r \<or>
      (\<forall>a\<in>set (job_attempts (w_db w)). a_JobID a = j_ID r \<longrightarrow> open_attempt a \<longrightarrow>
         a_ID a = j_ActiveAttemptID j \<and> open_attempt a)"
      using only_open [OF k ok(2) c a] r' by auto
  qed (use r es in \<open>auto simp: owned_by_def fail_attempt_row_def\<close>)
  from F show ?thesis
  proof (cases rule: FailExecution_okE)
    case (retry eid eid' r a)
    then show ?thesis
      by (intro gen [of r a "retry_row n due (x_Message out) (tx_now w)"])
         (auto simp: retry_effect_def retry_row_def is_failure_def)
  next
    case (dead did eid eid' r a)
    then show ?thesis
      by (intro gen [of r a "dead_letter_row n (x_Message out) (tx_now w)"])
         (auto simp: dead_effect_def dead_letter_row_def is_failure_def)
  qed
qed

lemma Extend_books:
  assumes ok: "db_ok (w_db w)" "books_ok (w_db w)" and E: "ExtendLease i wk ttl w = (Inr b, w')"
  shows "books_ok (w_db w') \<and> steady (w_db w) (w_db w')"
  using E
proof (cases rule: ExtendLease_okE)
  case (1 now)
  note k = db_okD(1) [OF ok(1)]
  show ?thesis
  proof (cases "\<exists>r\<in>set (jobs (w_db w)). owned_by i wk r")
    case False
    then have "upd_where (owned_by i wk) f (jobs (w_db w)) = jobs (w_db w)" for f
      by (auto simp: upd_where_def intro!: map_idI)
    with 1 ok k show ?thesis by (simp add: steady_refl)
  next
    case True
    then obtain r where r: "r \<in> set (jobs (w_db w))" "owned_by i wk r" by blast
    show ?thesis
      by (rule books_update [OF k ok(2) r(1), where P = "owned_by i wk" and es = "[]" and Q = "\<lambda>_. False"
            and g = "cancel_attempt_row now"
            and f = "\<lambda>r. r\<lparr>j_LockedUntil := Some (now + interval_seconds (duration_Seconds ttl)), j_UpdatedAt := now\<rparr>"])
         (use 1 r in \<open>auto simp: owned_by_def upd_where_def cancel_attempt_row_def\<close>)
  qed
qed


lemma steady_trans:
  assumes "steady d d'" and "steady d' d''" and "extends d d'"
  shows "steady d d''"
  unfolding steady_def
proof (intro ballI impI)
  fix a2
  assume a2: "a2 \<in> set (job_attempts d'')" "open_attempt a2" "a_ID a2 \<in> a_ID ` set (job_attempts d)"
  have ids: "a_ID ` set (job_attempts d) \<subseteq> a_ID ` set (job_attempts d')"
    using assms(3) by (force simp: extends_def attempt_keys_def)
  with a2 assms(2) obtain a1 where a1: "a1 \<in> set (job_attempts d')" "a_ID a1 = a_ID a2"
      "a_JobID a1 = a_JobID a2" "open_attempt a1"
    and rc2: "\<forall>r\<in>set (jobs d'). \<forall>r'\<in>set (jobs d''). j_ID r = a_JobID a2 \<longrightarrow> j_ID r' = a_JobID a2 \<longrightarrow>
      j_RetryCount r' = j_RetryCount r"
    unfolding steady_def by (meson subsetD)
  from a1 a2(3) assms(1) have a0: "\<exists>a\<in>set (job_attempts d). a_ID a = a_ID a2 \<and> a_JobID a = a_JobID a2 \<and> open_attempt a"
    and rc1: "\<forall>r\<in>set (jobs d). \<forall>r'\<in>set (jobs d'). j_ID r = a_JobID a2 \<longrightarrow> j_ID r' = a_JobID a2 \<longrightarrow>
      j_RetryCount r' = j_RetryCount r"
    unfolding steady_def by metis+
  have mid: "\<exists>r'\<in>set (jobs d'). j_ID r' = j_ID r" if "r \<in> set (jobs d)" for r
  proof -
    have "job_const r \<in> job_consts d" using that by simp
    with assms(3) have "job_const r \<in> job_consts d'" unfolding extends_def by blast
    then obtain r' where "r' \<in> set (jobs d')" "job_const r' = job_const r" by auto
    then show ?thesis by (auto simp: job_const_def)
  qed
  show "(\<exists>a\<in>set (job_attempts d). a_ID a = a_ID a2 \<and> a_JobID a = a_JobID a2 \<and> open_attempt a) \<and>
      (\<forall>r\<in>set (jobs d). \<forall>r'\<in>set (jobs d''). j_ID r = a_JobID a2 \<longrightarrow> j_ID r' = a_JobID a2 \<longrightarrow>
         j_RetryCount r' = j_RetryCount r)"
    using a0 rc1 rc2 mid by metis
qed

lemma recover_one_books:
  assumes ok: "db_ok (w_db w)" "books_ok (w_db w)" and r: "r \<in> set (jobs (w_db w))" "j_Status r = StatusRunning"
    and R: "recover_one reason (scanJob r) w = (Inr u, w')"
  shows "books_ok (w_db w') \<and> steady (w_db w) (w_db w')"
proof -
  note k = db_okD(1) [OF ok(1)]
  have s: "j_ID (scanJob r) = j_ID r" "j_RetryCount (scanJob r) = j_RetryCount r"
    by (simp_all add: scanJob_def job_cols.defs Job.defs)
  have gen: "books_ok (w_db w') \<and> steady (w_db w) (w_db w')"
    if d': "jobs (w_db w') = upd_where (\<lambda>s. j_ID s = j_ID r \<and> j_Status s = StatusRunning) f (jobs (w_db w))"
        "job_attempts (w_db w') = expire_attempts reason (j_ID r) (w_now w) (job_attempts (w_db w))"
        "job_events (w_db w') = job_events (w_db w) @ [e]"
      and f: "j_ID (f r) = j_ID r" "j_RetryCount (f r) = j_RetryCount r + 1"
        "j_Status (f r) \<in> {StatusRetryScheduled, StatusDeadLettered}"
      and e: "is_failure e" "e_JobID e = j_ID r" for f e
    by (rule books_update [OF k ok(2) r(1) d'(1) _ _ f(1) d'(2) [unfolded expire_attempts_def] _ d'(3)])
       (use r f e in \<open>auto simp: expire_attempt_row_def tries_due_def\<close>)
  from R show ?thesis
  proof (cases rule: recover_one_okE)
    case (retry eid)
    then show ?thesis
      by (intro gen [of "retry_row (j_RetryCount r + 1)
            (NextRetryAt (w_clock w (w_ticks w)) (j_RetryBackoffSeconds (scanJob r)) (j_RetryCount r + 1)) reason (w_now w)"])
         (auto simp: recover_retry_def retry_row_def is_failure_def s)
  next
    case (dead did eid)
    then show ?thesis
      by (intro gen [of "dead_letter_row (j_RetryCount r + 1) reason (w_now w)"])
         (auto simp: recover_dead_def dead_letter_row_def is_failure_def s)
  qed
qed

lemma Recover_books:
  assumes "db_ok (w_db w)" and "books_ok (w_db w)" and "RecoverExpiredRunningJobs reason w = (Inr m, w')"
  shows "books_ok (w_db w') \<and> steady (w_db w) (w_db w')"
proof -
  have "books_ok (w_db w) \<longrightarrow> books_ok (w_db w') \<and> steady (w_db w) (w_db w')"
    by (rule recover_rel [where R = "\<lambda>d d'. books_ok d \<longrightarrow> books_ok d' \<and> steady d d'", OF _ _ _ assms(1,3)])
       (use recover_one_books steady_refl db_okD(1) steady_trans in blast)+
  with assms(2) show ?thesis by blast
qed
lemma claim_effect_books:
  assumes ok: "db_ok d" "books_ok d" and r: "r \<in> set (jobs d)" "waiting r" "j_ID j = j_ID r"
    and fresh: "j_ActiveAttemptID j \<notin> a_ID ` set (job_attempts d)"
  shows "books_ok (claim_effect wk ttl now eid j d) \<and> steady d (claim_effect wk ttl now eid j d)"
proof -
  let ?d = "claim_effect wk ttl now eid j d"
  note k = db_okD(1) [OF ok(1)]
  have js: "jobs ?d = upd_where (\<lambda>s. j_ID s = j_ID r) (claim_row wk ttl now) (jobs d)"
    and as: "job_attempts ?d = job_attempts d @ [attempt_of wk now j]"
    by (simp_all add: claim_effect_def r(3))
  have f: "failures ?d i = failures d i" for i
    by (simp add: failures_def claim_effect_def is_failure_def)
  have t: "tries ?d i = tries d i + (if i = j_ID r then 1 else 0)" for i
    by (simp add: tries_def as r(3))
  have w: "j_Status r \<noteq> StatusRunning" "j_Status r \<noteq> StatusSucceeded" "j_Status r \<noteq> StatusCancelled"
    using r(2) by (auto simp: waiting_def)
  have rows: "s' \<in> set (jobs ?d) \<longleftrightarrow> s' = claim_row wk ttl now r \<or> s' \<in> set (jobs d) \<and> j_ID s' \<noteq> j_ID r" for s'
    unfolding js in_upd_where using job_key_unique [OF k _ r(1)] r(1) by (metis (full_types))
  have acc: "accounted d s" if "s \<in> set (jobs d)" for s using that ok(2) by (simp add: books_ok_def)
  have "accounted ?d s" if "s \<in> set (jobs ?d)" for s
    using that acc [OF r(1)] acc [of s] w unfolding rows
    by (auto simp: accounted_def f t tries_due_def claim_row_def)
  moreover have none: "a_JobID a \<noteq> j_ID r" if "a \<in> set (job_attempts d)" "open_attempt a" for a
    using no_open_attempt [OF k ok(2) r(1) w(1) that(1)] that(2) by blast
  have "\<exists>s\<in>set (jobs ?d). j_ID s = a_JobID a \<and> j_Status s = StatusRunning"
    if a: "a \<in> set (job_attempts ?d)" "open_attempt a" for a
  proof (cases "a \<in> set (job_attempts d)")
    case True
    with a ok(2) obtain s where "s \<in> set (jobs d)" "j_ID s = a_JobID a" "j_Status s = StatusRunning"
      unfolding books_ok_def by blast
    with none [OF True a(2)] show ?thesis using rows by auto
  next
    case False
    with a have "a = attempt_of wk now j" by (simp add: as)
    then show ?thesis using rows r(3) by (intro bexI [of _ "claim_row wk ttl now r"]) (auto simp: claim_row_def)
  qed
  moreover have "a_ID a = a_ID b" if "a \<in> set (job_attempts ?d)" "b \<in> set (job_attempts ?d)"
      "open_attempt a" "open_attempt b" "a_JobID a = a_JobID b" for a b
  proof (cases "a \<in> set (job_attempts d) \<and> b \<in> set (job_attempts d)")
    case True
    with that ok(2) show ?thesis unfolding books_ok_def by blast
  next
    case False
    with that none [of a] none [of b] r(3) show ?thesis by (auto simp: as)
  qed
  ultimately have "books_ok ?d" unfolding books_ok_def by blast
  moreover have "steady d ?d"
    unfolding steady_def
  proof (intro ballI impI)
    fix a
    assume a: "a \<in> set (job_attempts ?d)" "open_attempt a" "a_ID a \<in> a_ID ` set (job_attempts d)"
    with fresh have "a \<in> set (job_attempts d)" by (auto simp: as)
    moreover have "j_RetryCount s' = j_RetryCount s"
      if "s \<in> set (jobs d)" "s' \<in> set (jobs ?d)" "j_ID s = a_JobID a" "j_ID s' = a_JobID a" for s s'
      using that none [OF calculation a(2)] rows [of s'] job_key_unique [OF k, of s' s]
      by (auto simp: claim_row_def)
    ultimately show "(\<exists>b\<in>set (job_attempts d). a_ID b = a_ID a \<and> a_JobID b = a_JobID a \<and> open_attempt b) \<and>
        (\<forall>s\<in>set (jobs d). \<forall>s'\<in>set (jobs ?d). j_ID s = a_JobID a \<longrightarrow> j_ID s' = a_JobID a \<longrightarrow>
           j_RetryCount s' = j_RetryCount s)"
      using a(2) by blast
  qed
  ultimately show ?thesis by blast
qed

lemma Claim_books:
  assumes "db_ok (w_db w)" and "books_ok (w_db w)" and "ClaimDueJobs wk n ttl w = (Inr ys, w')"
  shows "books_ok (w_db w') \<and> steady (w_db w) (w_db w')"
proof -
  have "books_ok (w_db w) \<longrightarrow> books_ok (w_db w') \<and> steady (w_db w) (w_db w')"
    by (rule claim_rel [where R = "\<lambda>d d'. books_ok d \<longrightarrow> books_ok d' \<and> steady d d'", OF _ _ _ assms(1,3)])
       (use claim_effect_books steady_refl db_okD(1) steady_trans in blast)+
  with assms(2) show ?thesis by blast
qed
section \<open>Runs of the system\<close>

text \<open>A claim whose attempt is still open knows the retry count of its job.\<close>

definition current :: "db \<Rightarrow> Job \<Rightarrow> bool" where
  "current d j \<longleftrightarrow>
     (\<forall>a\<in>set (job_attempts d). a_ID a = j_ActiveAttemptID j \<longrightarrow> open_attempt a \<longrightarrow>
        (\<forall>r\<in>set (jobs d). j_ID r = j_ID j \<longrightarrow> j_RetryCount r = j_RetryCount j))"

definition budget_inv :: "system \<Rightarrow> bool" where
  "budget_inv s \<longleftrightarrow> sys_inv s \<and> books_ok (sy_db s) \<and> (\<forall>(wk, j)\<in>sy_claims s. current (sy_db s) j)"

text \<open>
  The steps without releases.  Every claim of \<open>ClaimDueJobs\<close> comes with its attempt, so that no further
  attempt is created for it.
\<close>

definition budget_step :: "system \<Rightarrow> system \<Rightarrow> bool" where
  "budget_step s s' \<longleftrightarrow> (\<exists>a. a \<noteq> DoRelease \<and> a \<noteq> DoAttempt \<and> sys_step a s s')"

lemma current_steady:
  assumes c: "claim_ok d j" "current d j" and d': "sound_call d d'" "steady d d'"
  shows "current d' j"
  unfolding current_def
proof (intro ballI impI)
  fix a' r'
  assume a': "a' \<in> set (job_attempts d')" "a_ID a' = j_ActiveAttemptID j" "open_attempt a'"
    and r': "r' \<in> set (jobs d')" "j_ID r' = j_ID j"
  have c': "claim_ok d' j" using c(1) d'(1) claim_ok_extends by (auto simp: sound_call_def)
  have job: "a_JobID a' = j_ID j"
    using claim_attempt [OF _ c' a'(1,2)] d'(1) db_okD(1) by (simp add: sound_call_def)
  have "a_ID a' \<in> a_ID ` set (job_attempts d)"
    using c(1) a'(2) by (auto simp: claim_ok_def attempt_keys_def)
  with d'(2) a' obtain a where a: "a \<in> set (job_attempts d)" "a_ID a = j_ActiveAttemptID j" "open_attempt a"
    and rc: "\<forall>r\<in>set (jobs d). j_ID r = a_JobID a' \<longrightarrow> j_RetryCount r' = j_RetryCount r"
    using r' job unfolding steady_def by metis
  from c(1) obtain r where r: "r \<in> set (jobs d)" "job_const r = job_const j"
    by (auto simp: claim_ok_def)
  then have i: "j_ID r = j_ID j" by (simp add: job_const_def)
  with a r c(2) have "j_RetryCount r = j_RetryCount j" unfolding current_def by blast
  with rc r i job show "j_RetryCount r' = j_RetryCount j" by metis
qed

lemma call_books:
  assumes "repo_call a C d d'" and "a \<noteq> DoRelease" and "a \<noteq> DoAttempt" and "db_ok d" and "books_ok d"
    and "\<forall>(wk, j)\<in>C. claim_ok d j \<and> current d j"
  shows "books_ok d' \<and> steady d d'"
  using assms
proof (induction rule: repo_call.induct)
  case (nothing a C d)
  then show ?case by (simp add: steady_refl db_okD(1))
next
  case (create j w x w' C)
  then show ?case using Create_books by blast
next
  case (operator "from" to t i w w' C)
  then show ?case using Transition_books by blast
next
  case (requeue t i due w x w' C)
  then show ?case using Requeue_books by blast
next
  case (recover reason w n w' C)
  then show ?case using Recover_books by blast
next
  case (claim wk n ttl w ys w' C)
  then show ?case using Claim_books by blast
next
  case (extend i wk ttl w b w' C)
  then show ?case using Extend_books by blast
next
  case (complete wk j C dur res w w')
  then show ?case using Complete_books by blast
next
  case (fail wk j C dur out st due w w')
  then have "claim_ok (w_db w) j" "current (w_db w) j" by auto
  with fail Fail_books [of w j "j_RetryCount j + 1" wk dur out st due "()" w'] show ?case
    by (auto simp: current_def)
next
  case (publish a d d' C)
  then show ?case using books_same [of d d'] by (auto simp: same_but_published_def db_okD(1))
next
  case (clients d d' C)
  then show ?case using books_same [of d d'] by (auto simp: same_but_clients_def db_okD(1))
qed simp_all

lemma step_books:
  assumes "sys_step a s s'" and "a \<noteq> DoRelease" and "a \<noteq> DoAttempt" and "budget_inv s"
  shows "books_ok (sy_db s') \<and> steady (sy_db s) (sy_db s')"
  using call_books [OF step_repo_call [OF assms(1)] assms(2,3)] assms(4)
  by (auto simp: budget_inv_def sys_inv_def)
text \<open>A claim knows the retry count its job had when it was claimed.\<close>

lemma upd_where_or: "r \<in> set (upd_where P f xs) \<Longrightarrow> \<exists>q\<in>set xs. r = q \<or> r = f q"
  by (auto simp: in_upd_where)

lemma claimed_current:
  assumes ok: "db_ok (w_db w)" and C: "ClaimDueJobs wk n ttl w = (Inr ys, w')" and y: "y \<in> set ys"
  shows "current (w_db w') y"
proof -
  let ?xs = "map scanJob (select_due (tx_now w) (skip_locked (begun w)) n (jobs (w_db w)))"
  from ok C obtain eids where B: "claim_batch wk ttl (tx_now w) ?xs ys eids (w_db w) (w_db w')"
    by (rule ClaimDueJobs_batch)
  with y obtain x t aid where x: "x \<in> set ?xs" "y = claimed_job wk ttl t aid x"
    unfolding claim_batch_def list_all2_conv_all_nth in_set_conv_nth by metis
  then obtain r0 where r0: "r0 \<in> set (jobs (w_db w))" "x = scanJob r0"
    using select_due_sub by fastforce
  have "j_RetryCount r = j_RetryCount y" if "r \<in> set (jobs (w_db w'))" "j_ID r = j_ID y" for r
  proof -
    from B have "jobs (w_db w') = upd_where (\<lambda>r. j_ID r \<in> j_ID ` set ?xs) (claim_row wk ttl (tx_now w)) (jobs (w_db w))"
      unfolding claim_batch_def by simp
    with that obtain q where "q \<in> set (jobs (w_db w))" "r = q \<or> r = claim_row wk ttl (tx_now w) q"
      using upd_where_or [of r] by metis
    then have q: "q \<in> set (jobs (w_db w))" "j_ID r = j_ID q" "j_RetryCount r = j_RetryCount q"
      by (auto simp: claim_row_def)
    with that x r0 job_key_unique [OF db_okD(1) [OF ok] q(1) r0(1)] show ?thesis by simp
  qed
  then show ?thesis by (simp add: current_def)
qed

lemma budget_step_inv:
  assumes "budget_step s s'" and inv: "budget_inv s"
  shows "budget_inv s'"
proof -
  from assms obtain a where a: "a \<noteq> DoRelease" "a \<noteq> DoAttempt" "sys_step a s s'"
    by (auto simp: budget_step_def)
  from inv have I: "sys_inv s" "books_ok (sy_db s)" by (simp_all add: budget_inv_def)
  note S = sys_step_sound [OF a(3) I(1)] and B = step_books [OF a(3,1,2) inv]
  have old: "current (sy_db s') j" if "(wk, j) \<in> sy_claims s" for wk j
    using current_steady [of "sy_db s" j "sy_db s'"] that inv S B
    unfolding budget_inv_def sys_inv_def by (metis (mono_tags, lifting) case_prodD)
  have new: "current (sy_db s') j" if "(wk, j) \<in> sy_claims s'" "(wk, j) \<notin> sy_claims s" for wk j
    using a(3,1,2) that I(1)
  proof (cases rule: sys_step.cases)
    case (claim w wk1 n ttl r4 w')
    with that obtain ys where "r4 = Inr ys" "j \<in> set ys" by (auto split: sum.splits)
    with claim I(1) claimed_current [of w wk1 n ttl ys w' j] show ?thesis by (simp add: sys_inv_def)
  qed auto
  from S B old new show ?thesis by (auto simp: budget_inv_def)
qed

lemma budget_run_inv:
  assumes "initial s0" and "budget_step\<^sup>*\<^sup>* s0 s"
  shows "budget_inv s"
  using assms(2)
proof (induction rule: rtranclp_induct)
  case base
  from assms(1) show ?case
    using initial_inv [OF assms(1)] by (auto simp: budget_inv_def initial_def empty_db_def books_ok_def)
next
  case (step s1 s2)
  then show ?case using budget_step_inv by blast
qed

end
