(* ===== verification/Lifecycle_Log.thy ===== *)
theory Lifecycle_Log
  imports System_Calls
begin

text \<open>
  The event log against the jobs, over whole runs of the system: what the transactional outbox is for.
  The events of a job, in the order of the log, tell its whole lifecycle; the last one tells its status.
  The names are those of internal/events/events.go and the ones TransitionJob builds from a status.
\<close>

section \<open>Lifecycles\<close>

text \<open>The event names of internal/events/events.go, in the order of the source.\<close>

definition event_names :: "string list" where
  "event_names =
     [''job.created'', ''job.claimed'', ''job.started'', ''job.completed'', ''job.failed'',
      ''job.retry_scheduled'', ''job.dead_lettered'', ''job.cancelled'', ''worker.heartbeat'']"

text \<open>The status that an event leaves its job in.  After job.failed another event follows at once.\<close>

definition tells :: "string \<Rightarrow> Status \<Rightarrow> bool" where
  "tells t st \<longleftrightarrow>
     (if t = ''job.created'' \<or> t = ''job.requeued'' then st = StatusPending \<or> st = StatusScheduled
      else if t = ''job.started'' then st = StatusRunning
      else if t = ''job.completed'' then st = StatusSucceeded
      else if t = ''job.retry_scheduled'' then st = StatusRetryScheduled
      else if t = ''job.dead_lettered'' then st = StatusDeadLettered
      else if t = ''job.cancelled'' then st = StatusCancelled
      else if t = ''job.paused'' then st = StatusPaused
      else t = ''job.scheduled'' \<and> st = StatusScheduled)"

text \<open>The events that may follow an event of the same job.\<close>

definition followed_by :: "string \<Rightarrow> string \<Rightarrow> bool" where
  "followed_by t t' \<longleftrightarrow>
     (if t = ''job.created'' \<or> t = ''job.requeued'' \<or> t = ''job.scheduled''
      then t' \<in> {''job.started'', ''job.paused'', ''job.cancelled''}
      else if t = ''job.started''
      then t' \<in> {''job.completed'', ''job.failed'', ''job.retry_scheduled'', ''job.dead_lettered'', ''job.cancelled''}
      else if t = ''job.failed'' then t' \<in> {''job.retry_scheduled'', ''job.dead_lettered''}
      else if t = ''job.retry_scheduled'' then t' \<in> {''job.started'', ''job.cancelled''}
      else t = ''job.paused'' \<and> t' = ''job.scheduled'')"

definition history :: "db \<Rightarrow> uuid \<Rightarrow> string list" where
  "history d i = map e_EventType (filter (\<lambda>e. e_JobID e = i) (job_events d))"

text \<open>A history that begins with the creation, goes on as it may, and ends with the status.\<close>

definition lifecycle :: "string list \<Rightarrow> Status \<Rightarrow> bool" where
  "lifecycle ts st \<longleftrightarrow>
     (case ts of [] \<Rightarrow> False | t # _ \<Rightarrow> t = ''job.created'' \<or> t = ''job.requeued'') \<and>
     successively followed_by ts \<and> tells (last ts) st"

definition log_ok :: "db \<Rightarrow> bool" where
  "log_ok d \<longleftrightarrow> (\<forall>r\<in>set (jobs d). lifecycle (history d (j_ID r)) (j_Status r))"

section \<open>One job changes\<close>

lemma history_append:
  assumes "job_events d' = job_events d @ es" and "\<And>e. e \<in> set es \<Longrightarrow> e_JobID e = k"
  shows "history d' i = history d i @ (if i = k then map e_EventType es else [])"
  using assms by (auto simp: history_def filter_empty_conv intro!: arg_cong [of _ _ "map e_EventType"] filter_True)

lemma history_same:
  assumes "map event_const (job_events d') = map event_const (job_events d)"
  shows "history d' i = history d i"
proof -
  let ?p = "\<lambda>((_, k, _), _). k = i" and ?t = "\<lambda>(_, (t, _), _). t"
  have e: "map e_EventType (filter (\<lambda>e. e_JobID e = i) es) = map ?t (filter ?p (map event_const es))" for es
    by (induction es) (auto simp: event_const_def)
  show ?thesis unfolding history_def e assms by simp
qed

lemma log_same:
  "log_ok d \<Longrightarrow> jobs d' = jobs d \<Longrightarrow> map event_const (job_events d') = map event_const (job_events d) \<Longrightarrow> log_ok d'"
  using history_same [of d' d] unfolding log_ok_def by simp

lemma lifecycle_extend:
  assumes "lifecycle ts st" and "\<And>t. tells t st \<Longrightarrow> successively followed_by (t # us) \<and> tells (last (t # us)) st'"
  shows "lifecycle (ts @ us) st'"
proof -
  from assms(1) have ts: "ts \<noteq> []" "successively followed_by ts" "tells (last ts) st"
    by (auto simp: lifecycle_def split: list.splits)
  note u = assms(2) [OF ts(3)]
  have "successively followed_by (ts @ us)" using ts u by (cases us) (auto simp: successively_append_iff)
  moreover have "last (ts @ us) = last (last ts # us)" using ts(1) by simp
  ultimately show ?thesis using assms(1) u by (auto simp: lifecycle_def split: list.splits)
qed

lemma log_update:
  assumes ok: "keys_ok d" "log_ok d" and r: "r \<in> set (jobs d)"
    and js: "jobs d' = upd_where P f (jobs d)" "P r" "\<And>s. s \<in> set (jobs d) \<Longrightarrow> P s \<Longrightarrow> j_ID s = j_ID r"
      "j_ID (f r) = j_ID r"
    and es: "job_events d' = job_events d @ es" "\<And>e. e \<in> set es \<Longrightarrow> e_JobID e = j_ID r"
    and l: "\<And>t. tells t (j_Status r) \<Longrightarrow> successively followed_by (t # map e_EventType es) \<and>
      tells (last (t # map e_EventType es)) (j_Status (f r))"
  shows "log_ok d'"
  unfolding log_ok_def
proof
  fix r'
  assume r': "r' \<in> set (jobs d')"
  have h: "history d' i = history d i @ (if i = j_ID r then map e_EventType es else [])" for i
    by (rule history_append [OF es])
  have P: "P s \<longleftrightarrow> s = r" if "s \<in> set (jobs d)" for s
    using that js(2,3) r job_key_unique [OF ok(1)] by blast
  consider "r' = f r" | "r' \<in> set (jobs d)" "j_ID r' \<noteq> j_ID r"
    using r' P job_key_unique [OF ok(1) _ r] unfolding js(1) by (auto simp: in_upd_where split: if_splits)
  then show "lifecycle (history d' (j_ID r')) (j_Status r')"
  proof cases
    case 1
    have "lifecycle (history d (j_ID r)) (j_Status r)" using ok(2) r by (simp add: log_ok_def)
    from lifecycle_extend [OF this l] show ?thesis by (simp add: h 1 js(4))
  next
    case 2
    with ok(2) show ?thesis by (simp add: h log_ok_def)
  qed
qed

lemma new_job_events:
  assumes "refs_ok d" and "i \<notin> j_ID ` set (jobs d)"
  shows "history d i = []"
proof -
  have "e_JobID e \<noteq> i" if "e \<in> set (job_events d)" for e
    using that assms unfolding refs_ok_def by (force simp: job_ref_key_def)
  then show ?thesis by (auto simp: history_def filter_empty_conv)
qed

lemma log_append:
  assumes ok: "db_ok d" "log_ok d" and r: "j_ID r \<notin> j_ID ` set (jobs d)"
      "j_Status r \<in> {StatusPending, StatusScheduled}"
    and d': "jobs d' = jobs d @ [r]" "job_events d' = job_events d @ [e]" "e_JobID e = j_ID r"
      "e_EventType e \<in> {''job.created'', ''job.requeued''}"
  shows "log_ok d'"
proof -
  have h: "history d' i = history d i @ (if i = j_ID r then [e_EventType e] else [])" for i
    using history_append [OF d'(2), of "j_ID r" i] d'(3) by simp
  from new_job_events [OF db_okD(3) [OF ok(1)] r(1)] d'(4) r(2) have "lifecycle (history d' (j_ID r)) (j_Status r)"
    by (auto simp: h lifecycle_def tells_def)
  moreover have "lifecycle (history d' (j_ID s)) (j_Status s)" if s: "s \<in> set (jobs d)" for s
  proof -
    have "j_ID s \<noteq> j_ID r" using s r(1) by (metis imageI)
    with s ok(2) show ?thesis by (simp add: h log_ok_def)
  qed
  ultimately show ?thesis by (simp add: log_ok_def d'(1))
qed


section \<open>The calls\<close>

text \<open>What the status of a job says about its last event, and the steps from there.\<close>

lemma tells_simps [simp]:
  "tells t StatusRunning \<longleftrightarrow> t = ''job.started''"
  "tells t StatusPending \<longleftrightarrow> t = ''job.created'' \<or> t = ''job.requeued''"
  "tells t StatusScheduled \<longleftrightarrow> t = ''job.created'' \<or> t = ''job.requeued'' \<or> t = ''job.scheduled''"
  "tells t StatusRetryScheduled \<longleftrightarrow> t = ''job.retry_scheduled''"
  "tells t StatusSucceeded \<longleftrightarrow> t = ''job.completed''"
  "tells t StatusDeadLettered \<longleftrightarrow> t = ''job.dead_lettered''"
  "tells t StatusCancelled \<longleftrightarrow> t = ''job.cancelled''"
  "tells t StatusPaused \<longleftrightarrow> t = ''job.paused''"
  by (auto simp: tells_def)

lemma followed_by_simps [simp]:
  "followed_by ''job.created'' t \<longleftrightarrow> t \<in> {''job.started'', ''job.paused'', ''job.cancelled''}"
  "followed_by ''job.requeued'' t \<longleftrightarrow> t \<in> {''job.started'', ''job.paused'', ''job.cancelled''}"
  "followed_by ''job.scheduled'' t \<longleftrightarrow> t \<in> {''job.started'', ''job.paused'', ''job.cancelled''}"
  "followed_by ''job.started'' t \<longleftrightarrow> t \<in> {''job.completed'', ''job.failed'', ''job.retry_scheduled'',
     ''job.dead_lettered'', ''job.cancelled''}"
  "followed_by ''job.failed'' t \<longleftrightarrow> t \<in> {''job.retry_scheduled'', ''job.dead_lettered''}"
  "followed_by ''job.retry_scheduled'' t \<longleftrightarrow> t \<in> {''job.started'', ''job.cancelled''}"
  "followed_by ''job.paused'' t \<longleftrightarrow> t = ''job.scheduled''"
  by (simp_all add: followed_by_def)

lemma running_log:
  assumes "keys_ok d" and "log_ok d" and "r \<in> set (jobs d)" and "j_Status r = StatusRunning"
    and "jobs d' = upd_where P f (jobs d)" and "P r" and "\<And>s. s \<in> set (jobs d) \<Longrightarrow> P s \<Longrightarrow> j_ID s = j_ID r"
    and "j_ID (f r) = j_ID r" and "job_events d' = job_events d @ es"
    and "\<And>e. e \<in> set es \<Longrightarrow> e_JobID e = j_ID r"
    and "successively followed_by (''job.started'' # map e_EventType es)"
    and "tells (last (''job.started'' # map e_EventType es)) (j_Status (f r))"
  shows "log_ok d'"
  by (rule log_update [OF assms(1-3,5-10)]) (use assms(4,11,12) in simp_all)

lemma Create_log:
  assumes "db_ok (w_db w)" and "log_ok (w_db w)" and "new_job_ok j" and "Create j w = (Inr x, w')"
  shows "log_ok (w_db w')"
  using assms(4)
proof (cases rule: Create_okE)
  case (inserted r eid)
  then show ?thesis
    using assms(3) by (intro log_append [OF assms(1,2), of r]) (auto simp: new_job_ok_def)
next
  case replayed
  then show ?thesis using assms by simp
qed

lemma Requeue_log:
  assumes "db_ok (w_db w)" and "log_ok (w_db w)" and "RequeueDeadLetter t i due w = (Inr x, w')"
  shows "log_ok (w_db w')"
  using assms(3)
proof (cases rule: RequeueDeadLetter_okE)
  case (1 dl newID st eid)
  then show ?thesis
    using initialStatus_cases [of due "w_clock w (w_ticks w)"]
    by (intro log_append [OF assms(1,2), of "requeue_row dl newID t st due (tx_now w)"])
       (auto simp: requeue_effect_def)
qed

lemma operator_names:
  "ToLower ''CANCELLED'' = ''cancelled''" "ToLower ''PAUSED'' = ''paused''"
  "ToLower ''SCHEDULED'' = ''scheduled''" "ToLower ''RETRY_SCHEDULED'' = ''retry_scheduled''"
  by code_simp+

lemma operator_step:
  assumes "(from, to) \<in> set service_moves" and "st \<in> set from" and "st \<noteq> StatusFailed" and "tells u st"
  shows "followed_by u (''job.'' @ ToLower (status_string to))"
    and "tells (''job.'' @ ToLower (status_string to)) to"
proof -
  from assms(1) consider
      "from = [StatusPending, StatusScheduled, StatusRetryScheduled, StatusRunning]" "to = StatusCancelled"
    | "from = [StatusPending, StatusScheduled]" "to = StatusPaused"
    | "from = [StatusPaused]" "to = StatusScheduled" | "from = [StatusFailed]"
    by (auto simp: service_moves_def)
  then have "followed_by u (''job.'' @ ToLower (status_string to)) \<and>
      tells (''job.'' @ ToLower (status_string to)) to"
  proof cases
    case 1
    with assms(2,4) show ?thesis by (auto simp: operator_names)
  next
    case 2
    with assms(2,4) show ?thesis by (auto simp: operator_names)
  next
    case 3
    with assms(2,4) show ?thesis by (simp add: operator_names)
  next
    case 4
    with assms(2,3) show ?thesis by simp
  qed
  then show "followed_by u (''job.'' @ ToLower (status_string to))"
    "tells (''job.'' @ ToLower (status_string to)) to" by blast+
qed
lemma Transition_log:
  assumes ok: "db_ok (w_db w)" "log_ok (w_db w)" and m: "(from, to) \<in> set service_moves"
    and T: "TransitionJob t i from to w = (Inr u, w')"
  shows "log_ok (w_db w')"
  using T
proof (cases rule: TransitionJob_okE)
  case (1 eid r)
  have "j_Status r \<noteq> StatusFailed" using 1 db_okD(2) [OF ok(1)] by (auto simp: rows_ok_def job_ok_def)
  note step = operator_step [OF m 1(6) this]
  show ?thesis
  proof (rule log_update [OF db_okD(1) [OF ok(1)] ok(2) \<open>r \<in> set (jobs (w_db w))\<close>,
        where P = "\<lambda>r. j_TenantID r = t \<and> j_ID r = i \<and> j_Status r \<in> set from"
          and f = "transition_row to (tx_now w)"])
    show "job_events (w_db w') = job_events (w_db w) @ [new_event (tx_now w) eid (job_ref i t)
        (''job.'' @ ToLower (status_string to)) ''scheduler-api'' [(''status'', JStatus to)]]"
      by (simp add: 1 transition_effect_def)
  qed (use 1 step in \<open>auto simp: transition_effect_def transition_row_def\<close>)
qed

lemma Complete_log:
  assumes ok: "db_ok (w_db w)" "log_ok (w_db w)" and C: "CompleteExecution j wk dur res w = (Inr u, w')"
  shows "log_ok (w_db w')"
  using C
proof (cases rule: CompleteExecution_okE)
  case (1 eid r a)
  have r: "j_ID r = j_ID j" "j_Status r = StatusRunning" using 1 by (auto simp: owned_by_def)
  show ?thesis
    by (rule running_log [OF db_okD(1) [OF ok(1)] ok(2) 1(2) r(2),
          where P = "\<lambda>r. owned_by (j_ID j) wk r \<and> j_TenantID r = j_TenantID j" and f = "succeed_row (tx_now w)"])
       (use 1 r in \<open>auto simp: complete_effect_def owned_by_def succeed_row_def\<close>)
qed

lemma Fail_log:
  assumes ok: "db_ok (w_db w)" "log_ok (w_db w)" and F: "FailExecution j wk dur out st n due w = (Inr u, w')"
  shows "log_ok (w_db w')"
  using F
proof (cases rule: FailExecution_okE)
  case (retry eid eid' r a)
  then have r: "j_ID r = j_ID j" "j_Status r = StatusRunning" by (auto simp: owned_by_def)
  show ?thesis
    by (rule running_log [OF db_okD(1) [OF ok(1)] ok(2) retry(6) r(2),
          where P = "owned_by (j_ID j) wk" and f = "retry_row n due (x_Message out) (tx_now w)"])
       (use retry r in \<open>auto simp: retry_effect_def retry_row_def owned_by_def\<close>)
next
  case (dead did eid eid' r a)
  then have r: "j_ID r = j_ID j" "j_Status r = StatusRunning" by (auto simp: owned_by_def)
  show ?thesis
    by (rule running_log [OF db_okD(1) [OF ok(1)] ok(2) dead(7) r(2),
          where P = "owned_by (j_ID j) wk" and f = "dead_letter_row n (x_Message out) (tx_now w)"])
       (use dead r in \<open>auto simp: dead_effect_def dead_letter_row_def owned_by_def\<close>)
qed


lemma recover_one_log:
  assumes ok: "db_ok (w_db w)" "log_ok (w_db w)" and r: "r \<in> set (jobs (w_db w))" "j_Status r = StatusRunning"
    and R: "recover_one reason (scanJob r) w = (Inr u, w')"
  shows "log_ok (w_db w')"
proof -
  have s: "j_ID (scanJob r) = j_ID r" by (simp add: scanJob_def job_cols.defs Job.defs)
  from R show ?thesis
  proof (cases rule: recover_one_okE)
    case (retry eid)
    show ?thesis
      by (rule running_log [OF db_okD(1) [OF ok(1)] ok(2) r,
            where P = "\<lambda>s. j_ID s = j_ID r \<and> j_Status s = StatusRunning"
              and f = "retry_row (j_RetryCount (scanJob r) + 1) (NextRetryAt (w_clock w (w_ticks w))
                (j_RetryBackoffSeconds (scanJob r)) (j_RetryCount (scanJob r) + 1)) reason (w_now w)"])
         (use retry r in \<open>auto simp: recover_retry_def retry_row_def s\<close>)
  next
    case (dead did eid)
    show ?thesis
      by (rule running_log [OF db_okD(1) [OF ok(1)] ok(2) r,
            where P = "\<lambda>s. j_ID s = j_ID r \<and> j_Status s = StatusRunning"
              and f = "dead_letter_row (j_RetryCount (scanJob r) + 1) reason (w_now w)"])
         (use dead r in \<open>auto simp: recover_dead_def dead_letter_row_def s\<close>)
  qed
qed

lemma Recover_log:
  assumes "db_ok (w_db w)" and "log_ok (w_db w)" and "RecoverExpiredRunningJobs reason w = (Inr m, w')"
  shows "log_ok (w_db w')"
proof -
  have "log_ok (w_db w) \<longrightarrow> log_ok (w_db w')"
    by (rule recover_rel [where R = "\<lambda>d d'. log_ok d \<longrightarrow> log_ok d'", OF _ _ _ assms(1,3)])
       (use recover_one_log in blast)+
  with assms(2) show ?thesis by blast
qed

lemma claim_effect_log:
  assumes ok: "db_ok d" "log_ok d" and r: "r \<in> set (jobs d)" "waiting r" "j_ID j = j_ID r"
  shows "log_ok (claim_effect wk ttl now eid j d)"
proof (rule log_update [OF db_okD(1) [OF ok(1)] ok(2) r(1),
      where P = "\<lambda>s. j_ID s = j_ID r" and f = "claim_row wk ttl now" and es = "[started_event wk now eid j]"])
  show "successively followed_by (t # map e_EventType [started_event wk now eid j]) \<and>
      tells (last (t # map e_EventType [started_event wk now eid j])) (j_Status (claim_row wk ttl now r))"
    if "tells t (j_Status r)" for t
    using that r(2) by (auto simp: waiting_def claim_row_def)
qed (use r(3) in \<open>auto simp: claim_effect_def claim_row_def\<close>)

lemma Claim_log:
  assumes "db_ok (w_db w)" and "log_ok (w_db w)" and "ClaimDueJobs wk n ttl w = (Inr ys, w')"
  shows "log_ok (w_db w')"
proof -
  have "log_ok (w_db w) \<longrightarrow> log_ok (w_db w')"
    by (rule claim_rel [where R = "\<lambda>d d'. log_ok d \<longrightarrow> log_ok d'", OF _ _ _ assms(1,3)])
       (use claim_effect_log in blast)+
  with assms(2) show ?thesis by blast
qed

lemma Extend_log:
  assumes "log_ok (w_db w)" and E: "ExtendLease i wk ttl w = (Inr b, w')"
  shows "log_ok (w_db w')"
  using E
proof (cases rule: ExtendLease_okE)
  case (1 now)
  then have e: "history (w_db w') k = history (w_db w) k" for k by (simp add: history_def)
  have "\<exists>q\<in>set (jobs (w_db w)). j_ID q = j_ID r \<and> j_Status q = j_Status r" if "r \<in> set (jobs (w_db w'))" for r
    using that 1 by (auto simp: in_upd_where split: if_splits)
  with assms(1) show ?thesis unfolding log_ok_def e by metis
qed

lemma call_log:
  assumes "repo_call a C d d'" and "a \<noteq> DoRelease" and "db_ok d" and "log_ok d"
  shows "log_ok d'"
  using assms
proof (induction rule: repo_call.induct)
  case (attempt i wk n w x w' C)
  then obtain as where "w_db w' = (w_db w)\<lparr>job_attempts := as\<rparr>" by (auto elim: CreateAttempt_okE)
  with attempt show ?case by (simp add: log_ok_def history_def)
next
  case (publish a d d' C)
  then show ?case using log_same [of d d'] by (auto simp: same_but_published_def)
next
  case (clients d d' C)
  then show ?case using log_same [of d d'] by (auto simp: same_but_clients_def)
qed (simp_all, (blast intro: Create_log Transition_log Requeue_log Recover_log Claim_log Extend_log
      Complete_log Fail_log)+)

section \<open>Runs of the system\<close>

text \<open>The steps without releases: \<open>ReleaseClaim\<close> changes the status and writes no event.\<close>

definition logged_step :: "system \<Rightarrow> system \<Rightarrow> bool" where
  "logged_step s s' \<longleftrightarrow> (\<exists>a. a \<noteq> DoRelease \<and> sys_step a s s')"

lemma logged_run:
  assumes "initial s0" and "logged_step\<^sup>*\<^sup>* s0 s"
  shows "sys_inv s \<and> log_ok (sy_db s)"
  using assms(2)
proof (induction rule: rtranclp_induct)
  case base
  from assms(1) show ?case
    using initial_inv [OF assms(1)] by (auto simp: initial_def empty_db_def log_ok_def)
next
  case (step s1 s2)
  then obtain a where a: "a \<noteq> DoRelease" "sys_step a s1 s2" by (auto simp: logged_step_def)
  from step have "log_ok (sy_db s2)"
    using call_log [OF step_repo_call [OF a(2)] a(1)] by (simp add: sys_inv_def)
  with step sys_step_sound [OF a(2)] show ?case by blast
qed


text \<open>
  The names of the events a run writes.  Three of them, job.requeued, job.paused and job.scheduled, are
  not among the names of internal/events/events.go; job.claimed and worker.heartbeat of that list are
  never written.
\<close>

definition written_names :: "string list" where
  "written_names =
     [''job.created'', ''job.requeued'', ''job.scheduled'', ''job.paused'', ''job.started'', ''job.completed'',
      ''job.failed'', ''job.retry_scheduled'', ''job.dead_lettered'', ''job.cancelled'']"

lemma followed_by_names: "followed_by t t' \<Longrightarrow> t' \<in> set written_names"
  by (auto simp: followed_by_def written_names_def split: if_splits)

lemma successively_names:
  "successively followed_by (t # ts) \<Longrightarrow> set ts \<subseteq> set written_names"
proof (induction ts arbitrary: t)
  case (Cons u us)
  then show ?case using followed_by_names [of t u] by auto
qed simp

lemma lifecycle_names: "lifecycle ts st \<Longrightarrow> set ts \<subseteq> set written_names"
  using successively_names [of "hd ts" "tl ts"]
  by (cases ts) (auto simp: lifecycle_def written_names_def)

theorem log_names:
  assumes "initial s0" and "logged_step\<^sup>*\<^sup>* s0 s" and "e \<in> set (job_events (sy_db s))"
  shows "e_EventType e \<in> set written_names"
proof -
  note inv = logged_run [OF assms(1,2)]
  then have "refs_ok (sy_db s)" using db_okD(3) by (simp add: sys_inv_def)
  then have "history (sy_db s) (e_JobID e) = []" if "e_JobID e \<notin> j_ID ` set (jobs (sy_db s))"
    using new_job_events that by blast
  then obtain r where r: "r \<in> set (jobs (sy_db s))" "j_ID r = e_JobID e"
    using assms(3) by (fastforce simp: history_def filter_empty_conv)
  have "lifecycle (history (sy_db s) (e_JobID e)) (j_Status r)" using inv r by (simp add: log_ok_def flip: r(2))
  moreover have "e_EventType e \<in> set (history (sy_db s) (e_JobID e))" using assms(3) by (simp add: history_def)
  ultimately show ?thesis using lifecycle_names by blast
qed

lemma undocumented_names:
  "filter (\<lambda>t. t \<notin> set event_names) written_names = [''job.requeued'', ''job.scheduled'', ''job.paused'']"
  "filter (\<lambda>t. t \<notin> set written_names) event_names = [''job.claimed'', ''worker.heartbeat'']"
  by (simp_all add: written_names_def event_names_def)

end
