(* ===== verification/Metrics.thy ===== *)
theory Metrics
  imports Http_Properties
begin

text \<open>
  internal/observability, and the calls of its recorder in internal/job/service.go,
  internal/worker/service.go and internal/server/server.go.  The Prometheus client is a parameter: the
  record \<open>prom\<close> has its operations on the collectors of a process, the locale \<open>prometheus_client\<close> its
  documented behaviour.  The instrumented operations act on the database and on the collectors; without
  the collectors they are the operations of the other theories.
\<close>

section \<open>The Prometheus client\<close>

text \<open>Each operation names a collector and its label values.  Counts are integers in the code, too.\<close>

record 'p prom =
  pm_Inc :: "string \<Rightarrow> string list \<Rightarrow> 'p \<Rightarrow> 'p"
  pm_Add :: "string \<Rightarrow> string list \<Rightarrow> int \<Rightarrow> 'p \<Rightarrow> 'p"
  pm_Set :: "string \<Rightarrow> string list \<Rightarrow> int \<Rightarrow> 'p \<Rightarrow> 'p"
  pm_Observe :: "string \<Rightarrow> string list \<Rightarrow> rat \<Rightarrow> 'p \<Rightarrow> 'p"

text \<open>\<open>metric\<close> reads a counter or gauge, \<open>samples\<close> the observations of a histogram.\<close>

locale prometheus_client =
  fixes pm :: "'p prom"
    and metric :: "'p \<Rightarrow> string \<Rightarrow> string list \<Rightarrow> int"
    and samples :: "'p \<Rightarrow> string \<Rightarrow> string list \<Rightarrow> rat list"
  assumes inc: "metric (pm_Inc pm n ls p) m ks = metric p m ks + (if (m, ks) = (n, ls) then 1 else 0)"
    and add: "0 \<le> k \<Longrightarrow> metric (pm_Add pm n ls k p) m ks = metric p m ks + (if (m, ks) = (n, ls) then k else 0)"
    and set_value: "metric (pm_Set pm n ls k p) m ks = (if (m, ks) = (n, ls) then k else metric p m ks)"
    and observe: "metric (pm_Observe pm n ls x p) m ks = metric p m ks"
    and inc_samples: "samples (pm_Inc pm n ls p) m ks = samples p m ks"
    and add_samples: "samples (pm_Add pm n ls k p) m ks = samples p m ks"
    and set_samples: "samples (pm_Set pm n ls k p) m ks = samples p m ks"
    and observe_samples:
      "samples (pm_Observe pm n ls x p) m ks = samples p m ks @ (if (m, ks) = (n, ls) then [x] else [])"

section \<open>Recorders\<close>

record 'p Recorder =
  rc_JobCreated :: "string \<Rightarrow> 'p \<Rightarrow> 'p"
  rc_JobCompleted :: "string \<Rightarrow> duration \<Rightarrow> 'p \<Rightarrow> 'p"
  rc_JobFailed :: "string \<Rightarrow> 'p \<Rightarrow> 'p"
  rc_JobDeadLettered :: "string \<Rightarrow> 'p \<Rightarrow> 'p"
  rc_WorkerClaimed :: "int \<Rightarrow> 'p \<Rightarrow> 'p"
  rc_SetActiveWorkers :: "int \<Rightarrow> 'p \<Rightarrow> 'p"

definition NoopRecorder :: "'p Recorder" where
  "NoopRecorder =
     \<lparr>rc_JobCreated = (\<lambda>jobType p. p), rc_JobCompleted = (\<lambda>jobType duration p. p),
      rc_JobFailed = (\<lambda>jobType p. p), rc_JobDeadLettered = (\<lambda>jobType p. p),
      rc_WorkerClaimed = (\<lambda>count p. p), rc_SetActiveWorkers = (\<lambda>count p. p)\<rparr>"

text \<open>\<open>WithMetrics\<close> of both services keeps their recorder when it is given none.\<close>

definition WithMetrics :: "'p Recorder option \<Rightarrow> 'p Recorder \<Rightarrow> 'p Recorder" where
  "WithMetrics metrics own = (case metrics of None \<Rightarrow> own | Some m \<Rightarrow> m)"

text \<open>The collectors of the recorder, by the names they are registered under.\<close>

record collectors =
  cl_jobsCreated :: string
  cl_jobsCompleted :: string
  cl_jobsFailed :: string
  cl_jobsDeadLettered :: string
  cl_executionDuration :: string
  cl_workerClaimed :: string
  cl_activeWorkers :: string

definition NewPrometheusRecorder :: collectors where
  "NewPrometheusRecorder =
     \<lparr>cl_jobsCreated = ''jobs_created_total'', cl_jobsCompleted = ''jobs_completed_total'',
      cl_jobsFailed = ''jobs_failed_total'', cl_jobsDeadLettered = ''jobs_dead_lettered_total'',
      cl_executionDuration = ''job_execution_duration_seconds'',
      cl_workerClaimed = ''worker_claimed_jobs_total'', cl_activeWorkers = ''active_workers''\<rparr>"

definition httpRequests :: string where
  "httpRequests = ''http_requests_total''"

definition httpDuration :: string where
  "httpDuration = ''http_request_duration_seconds''"

text \<open>\<open>Duration.Seconds\<close>, exactly.\<close>

definition Seconds :: "duration \<Rightarrow> rat" where
  "Seconds d = of_int (sint d) / 1000000000"

definition PrometheusRecorder :: "'p prom \<Rightarrow> collectors \<Rightarrow> 'p Recorder" where
  "PrometheusRecorder pm r =
     \<lparr>rc_JobCreated = (\<lambda>jobType. pm_Inc pm (cl_jobsCreated r) [jobType]),
      rc_JobCompleted = (\<lambda>jobType duration p.
        pm_Observe pm (cl_executionDuration r) [jobType] (Seconds duration)
          (pm_Inc pm (cl_jobsCompleted r) [jobType] p)),
      rc_JobFailed = (\<lambda>jobType. pm_Inc pm (cl_jobsFailed r) [jobType]),
      rc_JobDeadLettered = (\<lambda>jobType. pm_Inc pm (cl_jobsDeadLettered r) [jobType]),
      rc_WorkerClaimed = (\<lambda>count. pm_Add pm (cl_workerClaimed r) [] count),
      rc_SetActiveWorkers = (\<lambda>count. pm_Set pm (cl_activeWorkers r) [] count)\<rparr>"

section \<open>Instrumented operations\<close>

text \<open>A transaction of the database beside the collectors of the process, and a call of the recorder.\<close>

type_synonym ('d, 'p, 'a) metered = "'d world \<times> 'p \<Rightarrow> (go_error + 'a) \<times> ('d world \<times> 'p)"

definition lift_tx :: "('d, 'a) tx \<Rightarrow> ('d, 'p, 'a) metered" where
  "lift_tx m s = (case s of (w, p) \<Rightarrow> (case m w of (r, w') \<Rightarrow> (r, (w', p))))"

definition bind_metered :: "('d, 'p, 'a) metered \<Rightarrow> ('a \<Rightarrow> ('d, 'p, 'b) metered) \<Rightarrow> ('d, 'p, 'b) metered" where
  "bind_metered m k s = (case m s of (Inl e, s') \<Rightarrow> (Inl e, s') | (Inr x, s') \<Rightarrow> k x s')"

definition recorded :: "('p \<Rightarrow> 'p) \<Rightarrow> ('d, 'p, unit) metered" where
  "recorded f s = (case s of (w, p) \<Rightarrow> (Inr (), (w, f p)))"

definition Service_Create_metered ::
  "'p Recorder \<Rightarrow> (json \<Rightarrow> bool) \<Rightarrow> (hashed_fields \<Rightarrow> string) \<Rightarrow> Service \<Rightarrow> ctx \<Rightarrow> CreateRequest \<Rightarrow>
   (db, 'p, CreateResponse) metered" where
  "Service_Create_metered metrics valid digest s ctx req0 =
     (let req1 = withDefaults s req0;
          req = req1\<lparr>cr_IdempotencyKey := TrimSpace (cr_IdempotencyKey req1)\<rparr> in
      if length (cr_IdempotencyKey req) > 255
      then lift_tx (fail_tx (invalid_input ''Idempotency-Key exceeds 255 characters''))
      else
        (case validateCreate valid req of
           Some m \<Rightarrow> lift_tx (fail_tx (invalid_input m))
         | None \<Rightarrow>
             bind_metered (lift_tx uuid_New) (\<lambda>newID.
             bind_metered (lift_tx time_Now) (\<lambda>now.
             bind_metered (lift_tx (Create (new_job digest (PrincipalOrDefault ctx) req newID now))) (\<lambda>inserted.
             bind_metered (recorded (rc_JobCreated metrics (j_JobType inserted))) (\<lambda>_.
             lift_tx (return_tx \<lparr>resp_JobID = j_ID inserted, resp_Status = j_Status inserted,
                                 resp_Replayed = (j_ID inserted \<noteq> newID)\<rparr>)))))))"

definition poll_tick_metered ::
  "'p Recorder \<Rightarrow> 'd Repository \<Rightarrow> worker \<Rightarrow> ('d, 'p, Job list) metered" where
  "poll_tick_metered metrics repo s =
     bind_metered (lift_tx (try_tx (rp_RecoverExpiredRunningJobs repo
       ''worker lease expired before completion''))) (\<lambda>_.
     bind_metered (lift_tx (try_tx (rp_ClaimDueJobs repo (wk_ID s) (wk_batchSize s) (wk_lockTTL s)))) (\<lambda>res.
     case res of
       Inl _ \<Rightarrow> lift_tx (return_tx [])
     | Inr claimed \<Rightarrow>
         bind_metered (recorded (rc_WorkerClaimed metrics (int (length claimed)))) (\<lambda>_.
         lift_tx (return_tx claimed))))"

definition record_failure_metered ::
  "'p Recorder \<Rightarrow> 'd Repository \<Rightarrow> string \<Rightarrow> Job \<Rightarrow> duration \<Rightarrow> go_error \<Rightarrow> Status \<Rightarrow> int \<Rightarrow> time \<Rightarrow>
   ('d, 'p, unit) metered" where
  "record_failure_metered metrics repo workerID j dur err nextStatus nextRetryCount nextRunAt =
     bind_metered (lift_tx (try_tx (rp_FailExecution repo j workerID dur (ClassifyError err) nextStatus
                              nextRetryCount nextRunAt))) (\<lambda>res.
     case res of
       Inr _ \<Rightarrow>
         if nextStatus = StatusDeadLettered then recorded (rc_JobDeadLettered metrics (j_JobType j))
         else lift_tx (return_tx ())
     | Inl failErr \<Rightarrow>
         if errors_Is err ContextCanceled \<and> errors_Is failErr ErrConflict then lift_tx (return_tx ())
         else lift_tx (fail_tx (Wrapped ''finalize failed execution: '' failErr '''')))"

definition finalize_metered ::
  "'p Recorder \<Rightarrow> 'd Repository \<Rightarrow> string \<Rightarrow> Job \<Rightarrow> duration \<Rightarrow> go_error + json \<Rightarrow> ('d, 'p, unit) metered" where
  "finalize_metered metrics repo workerID j dur outcome =
     (case outcome of
        Inr result \<Rightarrow>
          bind_metered (lift_tx (try_tx (rp_CompleteExecution repo j workerID dur result))) (\<lambda>res.
          case res of
            Inr _ \<Rightarrow> recorded (rc_JobCompleted metrics (j_JobType j) dur)
          | Inl successErr \<Rightarrow> lift_tx (fail_tx (Wrapped ''mark succeeded: '' successErr '''')))
      | Inl err \<Rightarrow>
          bind_metered (recorded (rc_JobFailed metrics (j_JobType j))) (\<lambda>_.
          bind_metered (lift_tx time_Now) (\<lambda>now.
          let decision = DecideFailure now (j_RetryCount j) (j_MaxRetries j) (j_RetryBackoffSeconds j)
          in bind_metered
               (lift_tx (if sint (retryAfter err) > 0
                  then bind_tx time_Now (\<lambda>t. return_tx (time_Add t (retryAfter err)))
                  else return_tx (fd_NextRunAt decision))) (\<lambda>nextRunAt.
             record_failure_metered metrics repo workerID j dur err (next_status decision (ClassifyError err))
               (fd_NextRetryCount decision) nextRunAt))))"

text \<open>The relay's loop over a batch; \<open>latency\<close> is the time since an event occurred.\<close>

definition publishedTotal :: string where
  "publishedTotal = ''outbox_events_published_total''"

definition publishFailures :: string where
  "publishFailures = ''outbox_publish_failures_total''"

definition publishLatency :: string where
  "publishLatency = ''outbox_publish_latency_seconds''"

fun publish_loop_metered ::
  "'p prom \<Rightarrow> (outbox_Event \<Rightarrow> duration) \<Rightarrow> string \<Rightarrow> outbox_Event list \<Rightarrow> pg_world \<times> transport \<times> 'p \<Rightarrow>
   (go_error + unit) \<times> pg_world \<times> transport \<times> 'p"
where
  "publish_loop_metered pm latency relayID [] s = (Inr (), s)"
| "publish_loop_metered pm latency relayID (ev # evs) (w, q, p) =
     (case Publish ev q of
        (Some err, q') \<Rightarrow>
          publish_loop_metered pm latency relayID evs
            (snd (MarkFailed (ev_EventID ev) relayID (ev_PublishAttempts ev)
                    (truncate_string (error_Error err) 1000) w), q', pm_Inc pm publishFailures [] p)
      | (None, q') \<Rightarrow>
          (case MarkPublished (ev_EventID ev) relayID w of
             (Inl e, w') \<Rightarrow> (Inl (Wrapped ''mark event published: '' e ''''), (w', q', p))
           | (Inr _, w') \<Rightarrow>
               publish_loop_metered pm latency relayID evs
                 (w', q', pm_Observe pm publishLatency [] (Seconds (latency ev)) (pm_Inc pm publishedTotal [] p))))"

definition publishBatch_metered ::
  "'p prom \<Rightarrow> (outbox_Event \<Rightarrow> duration) \<Rightarrow> (events_row list \<Rightarrow> events_row list) \<Rightarrow> string \<Rightarrow> int \<Rightarrow> duration \<Rightarrow>
   pg_world \<times> transport \<times> 'p \<Rightarrow> (go_error + unit) \<times> pg_world \<times> transport \<times> 'p" where
  "publishBatch_metered pm latency arrange relayID batch lease s =
     (case s of (w, q, p) \<Rightarrow>
       (case Claim arrange relayID batch lease w of
          (Inl e, w') \<Rightarrow> (Inl e, (w', q, p))
        | (Inr items, w') \<Rightarrow> publish_loop_metered pm latency relayID items (w', q, p)))"

text \<open>The handler of /workers.\<close>

definition server_workers_metered ::
  "'p Recorder \<Rightarrow> Options \<Rightarrow> http_request \<Rightarrow> pg_world \<times> 'p \<Rightarrow> http_response \<times> pg_world \<times> 'p" where
  "server_workers_metered metrics opts r s =
     (case s of (w, p) \<Rightarrow>
       (case op_ActiveWorkers opts of
          Inl _ \<Rightarrow>
            (response_Error r 500 ''WORKER_REGISTRY_UNAVAILABLE'' ''worker registry is unavailable'', (w, p))
        | Inr workers \<Rightarrow>
            (response_JSON r 200 (DWorkers workers), (w, rc_SetActiveWorkers metrics (int (length workers)) p))))"

text \<open>
  \<open>HTTPMiddleware\<close>.  The router's \<open>RoutePattern\<close> and the measured duration are parameters; the inner
  handler answers, or panics (\<open>None\<close>) before it wrote anything, which leaves the middleware as well.
\<close>

definition HTTPMiddleware ::
  "'p prom \<Rightarrow> (http_request \<Rightarrow> string) \<Rightarrow> duration \<Rightarrow>
   (http_request \<Rightarrow> 's \<Rightarrow> http_response option \<times> 's) \<Rightarrow> http_request \<Rightarrow> 's \<times> 'p \<Rightarrow>
   http_response option \<times> 's \<times> 'p" where
  "HTTPMiddleware pm RoutePattern elapsed next r s =
     (case s of (w, p) \<Rightarrow>
       (case next r w of
          (None, w') \<Rightarrow> (None, (w', p))
        | (Some resp, w') \<Rightarrow>
            (let route = (if RoutePattern r = '''' then ''unmatched'' else RoutePattern r) in
             (Some resp,
              (w', pm_Observe pm httpDuration [rq_Method r, route] (Seconds elapsed)
                     (pm_Inc pm httpRequests [rq_Method r, route, Itoa (hr_Status resp)] p))))))"

text \<open>
  The middlewares of the server in their order, around its router.  \<open>panics\<close> says which requests panic,
  and the world they leave behind.
\<close>

definition server_metered ::
  "'p prom \<Rightarrow> (http_request \<Rightarrow> string) \<Rightarrow> duration \<Rightarrow> http_env \<Rightarrow> Service \<Rightarrow> Options \<Rightarrow> string \<Rightarrow>
   (http_request \<Rightarrow> pg_world \<Rightarrow> pg_world option) \<Rightarrow> http_request \<Rightarrow> pg_world \<times> 'p \<Rightarrow>
   http_response \<times> pg_world \<times> 'p" where
  "server_metered pm RoutePattern elapsed env s opts generated panics r st =
     (let given = rq_Header r ''X-Request-ID'';
          requestID = (if given = '''' then generated else given);
          r' = r\<lparr>rq_RequestID := requestID\<rparr>
      in case HTTPMiddleware pm RoutePattern elapsed (\<lambda>r w.
                case panics r w of
                  Some w' \<Rightarrow> (None, w')
                | None \<Rightarrow>
                    (case cors (op_AllowedOrigins opts) (route env s opts) r w of (resp, w') \<Rightarrow> (Some resp, w')))
              r' st of
           (outcome, st') \<Rightarrow> (with_header ''X-Request-ID'' requestID (Recovery r' outcome), st'))"


section \<open>Without the collectors\<close>

text \<open>\<open>plain m f\<close>: the instrumented operation \<open>m\<close> does to the database what \<open>f\<close> does.\<close>

definition plain :: "('d, 'p, 'a) metered \<Rightarrow> ('d, 'a) tx \<Rightarrow> bool" where
  "plain m f \<longleftrightarrow> (\<forall>w p. fst (m (w, p)) = fst (f w) \<and> fst (snd (m (w, p))) = snd (f w))"

named_theorems plain_rules

lemma plain_lift [plain_rules]: "plain (lift_tx f) f"
  by (simp add: plain_def lift_tx_def split: prod.splits)

lemma plain_bind [plain_rules]:
  assumes "plain m f" and "\<And>x. plain (k x) (g x)"
  shows "plain (bind_metered m k) (bind_tx f g)"
  unfolding plain_def
proof (intro allI)
  fix w p
  obtain r w' where f: "f w = (r, w')" by fastforce
  with assms(1) obtain p' where "m (w, p) = (r, (w', p'))"
    unfolding plain_def by (metis fst_conv snd_conv prod.collapse)
  with f assms(2) show "fst (bind_metered m k (w, p)) = fst (bind_tx f g w) \<and>
      fst (snd (bind_metered m k (w, p))) = snd (bind_tx f g w)"
    by (cases r) (simp_all add: bind_metered_def bind_tx_def plain_def)
qed

lemma plain_recorded [plain_rules]: "plain (recorded f) (return_tx ())"
  by (simp add: plain_def recorded_def return_tx_def)

lemma plain_skip [plain_rules]: "plain (k ()) g \<Longrightarrow> plain (bind_metered (recorded f) k) g"
  by (simp add: plain_def bind_metered_def recorded_def)

lemma Service_Create_plain:
  "plain (Service_Create_metered metrics valid digest s ctx req) (Service_Create valid digest s ctx req)"
  unfolding Service_Create_metered_def Service_Create_def Let_def
  by (auto intro!: plain_rules split: option.splits)

lemma poll_tick_plain: "plain (poll_tick_metered metrics repo s) (poll_tick repo s)"
  unfolding poll_tick_metered_def poll_tick_def
  by (auto intro!: plain_rules split: sum.splits)

lemma finalize_plain: "plain (finalize_metered metrics repo wk j dur out) (finalize repo wk j dur out)"
  unfolding finalize_metered_def finalize_def finalize_failure_def record_failure_metered_def
    record_failure_def Let_def
  by (auto intro!: plain_rules split: sum.splits)

lemma plainD:
  assumes "plain m f" and "m (w, p) = (r, (w', p'))"
  shows "f w = (r, w')"
  using assms unfolding plain_def by (metis fst_conv snd_conv prod.collapse)

lemma publish_loop_plain:
  "publish_loop_metered pm latency relay evs (w, q, p) = (r, (w', q', p')) \<Longrightarrow>
   publish_loop relay evs (w, q) = (r, (w', q'))"
  by (induction evs arbitrary: w q p) (auto split: prod.splits option.splits sum.splits)

lemma publishBatch_plain:
  "publishBatch_metered pm latency arrange relay batch lease (w, q, p) = (r, (w', q', p')) \<Longrightarrow>
   publishBatch arrange relay batch lease (w, q) = (r, (w', q'))"
  by (auto simp: publishBatch_metered_def publishBatch_def dest: publish_loop_plain
      split: prod.splits sum.splits)

lemma server_plain:
  assumes "\<And>w. panics (r\<lparr>rq_RequestID := q\<rparr>) w = None"
    and "q = (if rq_Header r ''X-Request-ID'' = '''' then generated else rq_Header r ''X-Request-ID'')"
  shows "(case server_metered pm pattern elapsed env s opts generated panics r (w, p) of
     (resp, (w', p')) \<Rightarrow> (resp, w')) = server_New env s opts generated r w"
  using assms(1)
  by (simp add: server_metered_def server_New_def HTTPMiddleware_def RequestID_def Recovery_def Let_def
      assms(2) [symmetric] split: prod.splits)


section \<open>Counters against the event log\<close>

definition event_count :: "db \<Rightarrow> string \<Rightarrow> nat" where
  "event_count d t = length (filter (\<lambda>e. e_EventType e = t) (job_events d))"

lemma complete_events:
  assumes "CompleteExecution j wk dur res w = (r, w')"
  shows "event_count (w_db w') t = event_count (w_db w) t +
    (case r of Inl _ \<Rightarrow> 0 | Inr _ \<Rightarrow> if t = ''job.completed'' then 1 else 0)"
proof (cases r)
  case (Inl e)
  with assms atomic_txD [OF atomic_CompleteExecution] show ?thesis by (metis sum.case(1) add_0_right)
next
  case (Inr u)
  with assms obtain eid where "w_db w' = complete_effect j wk dur res (tx_now w) eid (w_db w)"
    by (auto elim: CompleteExecution_okE)
  with Inr show ?thesis by (simp add: event_count_def complete_effect_def new_event_def)
qed

lemma fail_events:
  assumes "FailExecution j wk dur out st n due w = (r, w')"
  shows "event_count (w_db w') t = event_count (w_db w) t +
    (case r of Inl _ \<Rightarrow> 0 | Inr _ \<Rightarrow>
       if t = ''job.failed'' \<or> t = (if st = StatusDeadLettered then ''job.dead_lettered'' else ''job.retry_scheduled'')
       then 1 else 0)"
proof (cases r)
  case (Inl e)
  with assms atomic_txD [OF atomic_FailExecution] show ?thesis by (metis sum.case(1) add_0_right)
next
  case (Inr u)
  with assms have "FailExecution j wk dur out st n due w = (Inr u, w')" by simp
  then show ?thesis
    by (cases rule: FailExecution_okE)
       (auto simp: event_count_def retry_effect_def dead_effect_def new_event_def failed_event_def Inr)
qed

abbreviation recorder :: "'p prom \<Rightarrow> 'p Recorder" where
  "recorder pm \<equiv> PrometheusRecorder pm NewPrometheusRecorder"

lemma finalize_metered_failure:
  assumes "finalize_metered metrics repo wk j dur (Inl err) (w, p) = (r, s)"
  obtains st n due w1 where "w_db w1 = w_db w"
    and "record_failure_metered metrics repo wk j dur err st n due (w1, rc_JobFailed metrics (j_JobType j) p) = (r, s)"
proof (cases "sint (retryAfter err) > 0")
  case True
  with assms show thesis
    by (intro that [of "w\<lparr>w_ticks := Suc (Suc (w_ticks w))\<rparr>"])
       (simp_all add: finalize_metered_def bind_metered_def recorded_def lift_tx_def time_Now_def
          return_tx_def bind_tx_def Let_def)
next
  case False
  with assms show thesis
    by (intro that [of "w\<lparr>w_ticks := Suc (w_ticks w)\<rparr>"])
       (simp_all add: finalize_metered_def bind_metered_def recorded_def lift_tx_def time_Now_def
          return_tx_def Let_def)
qed

context prometheus_client
begin

lemma recorder_metric:
  "metric (rc_JobCreated (recorder pm) t p) m ks =
     metric p m ks + (if (m, ks) = (''jobs_created_total'', [t]) then 1 else 0)"
  "metric (rc_JobCompleted (recorder pm) t d p) m ks =
     metric p m ks + (if (m, ks) = (''jobs_completed_total'', [t]) then 1 else 0)"
  "metric (rc_JobFailed (recorder pm) t p) m ks =
     metric p m ks + (if (m, ks) = (''jobs_failed_total'', [t]) then 1 else 0)"
  "metric (rc_JobDeadLettered (recorder pm) t p) m ks =
     metric p m ks + (if (m, ks) = (''jobs_dead_lettered_total'', [t]) then 1 else 0)"
  "0 \<le> n \<Longrightarrow> metric (rc_WorkerClaimed (recorder pm) n p) m ks =
     metric p m ks + (if (m, ks) = (''worker_claimed_jobs_total'', []) then n else 0)"
  "metric (rc_SetActiveWorkers (recorder pm) n p) m ks =
     (if (m, ks) = (''active_workers'', []) then n else metric p m ks)"
  by (simp_all add: PrometheusRecorder_def NewPrometheusRecorder_def inc add set_value observe)

lemma recorder_samples:
  "samples (rc_JobCompleted (recorder pm) t d p) m ks =
     samples p m ks @ (if (m, ks) = (''job_execution_duration_seconds'', [t]) then [Seconds d] else [])"
  "samples (rc_JobFailed (recorder pm) t p) m ks = samples p m ks"
  "samples (rc_JobDeadLettered (recorder pm) t p) m ks = samples p m ks"
  by (simp_all add: PrometheusRecorder_def NewPrometheusRecorder_def inc_samples observe_samples)

lemma record_failure_metrics:
  assumes "record_failure_metered (recorder pm) PostgresRepository wk j dur err st n due (w, p) = (r, (w', p'))"
  shows "metric p' m ks = metric p m ks +
     (if (m, ks) = (''jobs_dead_lettered_total'', [j_JobType j])
      then int (event_count (w_db w') ''job.dead_lettered'') - int (event_count (w_db w) ''job.dead_lettered'')
      else 0)"
    and "event_count (w_db w') ''job.completed'' = event_count (w_db w) ''job.completed''"
    and "event_count (w_db w') ''job.failed'' \<le> event_count (w_db w) ''job.failed'' + 1"
proof -
  obtain r1 w1 where F: "FailExecution j wk dur (ClassifyError err) st n due w = (r1, w1)" by fastforce
  then have w1: "w1 = w'" and p': "p' = (if r1 = Inr () \<and> st = StatusDeadLettered
      then rc_JobDeadLettered (recorder pm) (j_JobType j) p else p)"
    using assms
    by (auto simp: record_failure_metered_def PostgresRepository_def bind_metered_def lift_tx_def try_tx_def
        recorded_def return_tx_def fail_tx_def split: sum.splits if_splits)
  show "metric p' m ks = metric p m ks +
     (if (m, ks) = (''jobs_dead_lettered_total'', [j_JobType j])
      then int (event_count (w_db w') ''job.dead_lettered'') - int (event_count (w_db w) ''job.dead_lettered'')
      else 0)"
    using fail_events [OF F, of "''job.dead_lettered''"] unfolding w1 p'
    by (cases r1) (auto simp: recorder_metric)
  show "event_count (w_db w') ''job.completed'' = event_count (w_db w) ''job.completed''"
    "event_count (w_db w') ''job.failed'' \<le> event_count (w_db w) ''job.failed'' + 1"
    using fail_events [OF F] unfolding w1 by (cases r1; simp)+
qed

lemma finalize_metrics:
  assumes "finalize_metered (recorder pm) PostgresRepository wk j dur out (w, p) = (r, (w', p'))"
  shows "metric p' ''jobs_completed_total'' ks = metric p ''jobs_completed_total'' ks +
      (if ks = [j_JobType j] then int (event_count (w_db w') ''job.completed'') -
         int (event_count (w_db w) ''job.completed'') else 0)" (is ?completed)
    and "metric p' ''jobs_dead_lettered_total'' ks = metric p ''jobs_dead_lettered_total'' ks +
      (if ks = [j_JobType j] then int (event_count (w_db w') ''job.dead_lettered'') -
         int (event_count (w_db w) ''job.dead_lettered'') else 0)" (is ?dead)
    and "metric p' ''jobs_failed_total'' ks = metric p ''jobs_failed_total'' ks +
      (if ks = [j_JobType j] \<and> isl out then 1 else 0)" (is ?failed)
    and "event_count (w_db w') ''job.failed'' \<le> event_count (w_db w) ''job.failed'' + (if isl out then 1 else 0)"
      (is ?events)
proof -
  have "?completed \<and> ?dead \<and> ?failed \<and> ?events"
  proof (cases out)
    case (Inl err)
    define p1 where "p1 = rc_JobFailed (recorder pm) (j_JobType j) p"
    obtain st n due w1 where w1: "w_db w1 = w_db w"
      and F: "record_failure_metered (recorder pm) PostgresRepository wk j dur err st n due (w1, p1) = (r, (w', p'))"
      using assms unfolding Inl p1_def by (rule finalize_metered_failure)
    from record_failure_metrics [OF F] show ?thesis
      unfolding w1 by (simp add: p1_def recorder_metric Inl)
  next
    case (Inr res)
    obtain r1 w1 where C: "CompleteExecution j wk dur res w = (r1, w1)" by fastforce
    with assms Inr have "w1 = w'"
      and "p' = (if r1 = Inr () then rc_JobCompleted (recorder pm) (j_JobType j) dur p else p)"
      by (auto simp: finalize_metered_def PostgresRepository_def bind_metered_def lift_tx_def try_tx_def
          recorded_def fail_tx_def split: sum.splits)
    with complete_events [OF C] Inr show ?thesis by (cases r1) (auto simp: recorder_metric)
  qed
  then show ?completed ?dead ?failed ?events by blast+
qed

text \<open>
  The relay counts what the transport accepted, but for the event whose publication could not be
  recorded any more; that one ends the batch.
\<close>

lemma publish_loop_metrics:
  "publish_loop_metered pm latency relay evs (w, q, p) = (r, (w', q', p')) \<Longrightarrow>
   int (length (tr_accepted q')) - int (length (tr_accepted q)) =
     metric p' ''outbox_events_published_total'' [] - metric p ''outbox_events_published_total'' [] +
     (if isl r then 1 else 0) \<and>
   (r = Inr () \<longrightarrow> metric p' ''outbox_publish_failures_total'' [] - metric p ''outbox_publish_failures_total'' [] +
     (metric p' ''outbox_events_published_total'' [] - metric p ''outbox_events_published_total'' []) =
     int (length evs))"
proof (induction evs arbitrary: w q p)
  case Nil
  then show ?case by auto
next
  case (Cons ev evs)
  obtain res q1 where P: "Publish ev q = (res, q1)" by fastforce
  show ?case
  proof (cases res)
    case (Some err)
    with P have "tr_accepted q1 = tr_accepted q" by (auto simp: Publish_def split: list.splits option.splits)
    moreover from Cons(2) P Some obtain w1 where
      "publish_loop_metered pm latency relay evs (w1, q1, pm_Inc pm publishFailures [] p) = (r, (w', q', p'))"
      by simp
    note Cons(1) [OF this]
    ultimately show ?thesis by (auto simp: inc publishFailures_def)
  next
    case None
    with P have a: "tr_accepted q1 = tr_accepted q @ [ev]"
      by (auto simp: Publish_def split: list.splits option.splits)
    obtain m w1 where M: "MarkPublished (ev_EventID ev) relay w = (m, w1)" by fastforce
    show ?thesis
    proof (cases m)
      case (Inl e)
      with Cons(2) P None M a show ?thesis by auto
    next
      case (Inr u)
      with Cons(2) P None M have
        "publish_loop_metered pm latency relay evs
          (w1, q1, pm_Observe pm publishLatency [] (Seconds (latency ev)) (pm_Inc pm publishedTotal [] p)) =
          (r, (w', q', p'))" by simp
      from Cons(1) [OF this] a show ?thesis by (auto simp: inc observe publishedTotal_def)
    qed
  qed
qed

lemma poll_metrics:
  assumes "poll_tick_metered (recorder pm) repo s (w, p) = (Inr claimed, (w', p'))"
  shows "metric p' m ks = metric p m ks +
    (if (m, ks) = (''worker_claimed_jobs_total'', []) then int (length claimed) else 0)"
  using assms
  by (auto simp: poll_tick_metered_def bind_metered_def lift_tx_def try_tx_def recorded_def return_tx_def
      recorder_metric split: prod.splits sum.splits)

end

text \<open>The collectors of one process, as the client keeps them.\<close>

record collected =
  co_values :: "string \<Rightarrow> string list \<Rightarrow> int"
  co_samples :: "string \<Rightarrow> string list \<Rightarrow> rat list"

definition collect :: "collected prom" where
  "collect =
     \<lparr>pm_Inc = (\<lambda>n ls p. p\<lparr>co_values := (co_values p)(n := (co_values p n)(ls := co_values p n ls + 1))\<rparr>),
      pm_Add = (\<lambda>n ls k p. p\<lparr>co_values := (co_values p)(n := (co_values p n)(ls := co_values p n ls + k))\<rparr>),
      pm_Set = (\<lambda>n ls k p. p\<lparr>co_values := (co_values p)(n := (co_values p n)(ls := k))\<rparr>),
      pm_Observe = (\<lambda>n ls x p. p\<lparr>co_samples := (co_samples p)(n := (co_samples p n)(ls := co_samples p n ls @ [x]))\<rparr>)\<rparr>"

interpretation collect: prometheus_client collect co_values co_samples
  by unfold_locales (auto simp: collect_def)

definition no_samples :: collected where
  "no_samples = \<lparr>co_values = (\<lambda>_ _. 0), co_samples = (\<lambda>_ _. [])\<rparr>"

text \<open>
  The metrics of an execution.  However a worker finishes an execution, with any handler outcome and
  any failing round trip, jobs_completed_total and jobs_dead_lettered_total of the job's type grow by
  exactly the job.completed and job.dead_lettered events that the call wrote, other types keep their
  counters, and jobs_failed_total grows by one for every failed execution, also for one whose failure
  could not be recorded.
\<close>

theorem metrics_match_events:
  assumes "prometheus_client pm metric samples"
    and "finalize_metered (PrometheusRecorder pm NewPrometheusRecorder) PostgresRepository wk j dur out (w, p) =
      (r, (w', p'))"
  shows "metric p' ''jobs_completed_total'' ks = metric p ''jobs_completed_total'' ks +
      (if ks = [j_JobType j] then int (event_count (w_db w') ''job.completed'') -
         int (event_count (w_db w) ''job.completed'') else 0) \<and>
    metric p' ''jobs_dead_lettered_total'' ks = metric p ''jobs_dead_lettered_total'' ks +
      (if ks = [j_JobType j] then int (event_count (w_db w') ''job.dead_lettered'') -
         int (event_count (w_db w) ''job.dead_lettered'') else 0) \<and>
    metric p' ''jobs_failed_total'' ks = metric p ''jobs_failed_total'' ks +
      (if ks = [j_JobType j] \<and> isl out then 1 else 0) \<and>
    event_count (w_db w') ''job.failed'' \<le> event_count (w_db w) ''job.failed'' + (if isl out then 1 else 0)"
  using prometheus_client.finalize_metrics [OF assms] by blast


text \<open>A worker completes the running job of the sample database.\<close>

lemma sample_completes:
  "\<exists>w'. CompleteExecution sample_claim ''w1'' Second ''{}'' (sample_world sample_db) = (Inr (), w')"
  by (simp add: CompleteExecution_def run_simps statement_defs rows_affected_def jval_ok_def owned_by_def
      sample_defs)

theorem metrics_match_events_witness:
  "\<exists>w' p'. finalize_metered (PrometheusRecorder collect NewPrometheusRecorder) PostgresRepository ''w1'' sample_claim
       Second (Inr ''{}'') (sample_world sample_db, no_samples) = (Inr (), (w', p')) \<and>
     co_values p' ''jobs_completed_total'' [''CALL_WEBHOOK''] = 1 \<and>
     event_count (w_db w') ''job.completed'' = 1 \<and> co_values p' ''jobs_failed_total'' [''CALL_WEBHOOK''] = 0"
proof -
  let ?m = "PrometheusRecorder collect NewPrometheusRecorder"
  obtain w' where C: "CompleteExecution sample_claim ''w1'' Second ''{}'' (sample_world sample_db) = (Inr (), w')"
    using sample_completes by blast
  let ?p = "rc_JobCompleted ?m (j_JobType sample_claim) Second no_samples"
  have F: "finalize_metered ?m PostgresRepository ''w1'' sample_claim Second (Inr ''{}'')
      (sample_world sample_db, no_samples) = (Inr (), (w', ?p))"
    using C by (simp add: finalize_metered_def PostgresRepository_def bind_metered_def lift_tx_def try_tx_def
        recorded_def)
  have "event_count (w_db w') ''job.completed'' = 1"
    using complete_events [OF C, of "''job.completed''"] by (simp add: event_count_def)
  moreover have "j_JobType sample_claim = ''CALL_WEBHOOK''" by (simp add: sample_claim_def sample_defs)
  ultimately show ?thesis
    using metrics_match_events [OF collect.prometheus_client_axioms F, of "[''CALL_WEBHOOK'']"] F
    by (auto simp: event_count_def no_samples_def)
qed

section \<open>Requests\<close>

text \<open>
  Every answered request is counted once.  After a request the counter http_requests_total of its
  method, route and status has grown by exactly one and no other label of it has changed, whatever
  middleware or handler answered.  Only a request whose handler panicked is not counted, although the
  client receives an answer with status 500.
\<close>

theorem requests_counted:
  assumes "prometheus_client pm metric samples"
    and "server_metered pm pattern elapsed env s opts generated panics r (w, p) = (resp, (w', p'))"
  defines "q \<equiv> r\<lparr>rq_RequestID := (if rq_Header r ''X-Request-ID'' = '''' then generated
      else rq_Header r ''X-Request-ID'')\<rparr>"
  shows "metric p' ''http_requests_total'' ks = metric p ''http_requests_total'' ks +
     (if panics q w = None \<and>
         ks = [rq_Method r, if pattern q = '''' then ''unmatched'' else pattern q, Itoa (hr_Status resp)]
      then 1 else 0) \<and> (panics q w \<noteq> None \<longrightarrow> hr_Status resp = 500)"
proof (cases "panics q w")
  case None
  obtain resp1 w1 where "cors (op_AllowedOrigins opts) (route env s opts) q w = (resp1, w1)" by fastforce
  with None assms(2) have "hr_Status resp = hr_Status resp1"
    and "p' = pm_Observe pm httpDuration [rq_Method r, if pattern q = '''' then ''unmatched'' else pattern q]
       (Seconds elapsed) (pm_Inc pm httpRequests
         [rq_Method r, if pattern q = '''' then ''unmatched'' else pattern q, Itoa (hr_Status resp1)] p)"
    by (auto simp: server_metered_def HTTPMiddleware_def Let_def Recovery_def q_def [symmetric])
       (simp_all add: q_def)
  with None show ?thesis
    by (simp add: prometheus_client.observe [OF assms(1)] prometheus_client.inc [OF assms(1)] httpRequests_def)
next
  case (Some w1)
  with assms(2) show ?thesis
    by (auto simp: server_metered_def HTTPMiddleware_def Let_def Recovery_def q_def [symmetric])
qed

theorem requests_counted_witness:
  "\<exists>resp w' p'. server_metered collect rq_Route Second sample_http_env sample_service sample_server ''q''
       (\<lambda>_ _. None) (sample_http_request ''GET'' ''/health'') (sample_world sample_db, no_samples) =
       (resp, (w', p')) \<and>
     co_values p' ''http_requests_total'' [''GET'', ''/health'', ''200''] = 1"
proof -
  let ?r = "sample_http_request ''GET'' ''/health''"
  obtain resp w' p' where S: "server_metered collect rq_Route Second sample_http_env sample_service sample_server
      ''q'' (\<lambda>_ _. None) ?r (sample_world sample_db, no_samples) = (resp, (w', p'))"
    by (metis prod.collapse)
  then have "hr_Status resp = 200"
    by (auto simp: server_metered_def HTTPMiddleware_def Let_def Recovery_def cors_def route_def
        public_routes_def server_health_def sample_http_request_def sample_server_def)
  moreover have "Itoa 200 = ''200''" by code_simp
  ultimately show ?thesis
    using requests_counted [OF collect.prometheus_client_axioms S, of "[''GET'', ''/health'', ''200'']"] S
    by (simp add: sample_http_request_def no_samples_def)
qed

text \<open>
  jobs_created_total counts every successful call, also one that only found the job of an earlier request
  with the same idempotency key.
\<close>

theorem created_counts_replays:
  assumes "Service_Create_metered (recorder collect) valid digest s ctx req (w, p) = (Inr resp, (w', p'))"
  shows "\<exists>t. co_values p' ''jobs_created_total'' [t] = co_values p ''jobs_created_total'' [t] + 1"
  using assms
  by (auto simp: Service_Create_metered_def Let_def bind_metered_def lift_tx_def recorded_def return_tx_def
      fail_tx_def collect.recorder_metric split: if_splits option.splits prod.splits sum.splits)


text \<open>
  The counters of the relay over a whole batch: the events that the transport accepted are those counted
  as published, but for at most one whose row could not be marked; a batch that ends without an error
  counted every claimed event as published or failed.
\<close>

theorem relay_metrics:
  assumes "publishBatch_metered collect latency arrange relay batch lease (w, q, p) = (r, (w', q', p'))"
  shows "co_values p' ''outbox_events_published_total'' [] - co_values p ''outbox_events_published_total'' []
     \<in> {int (length (tr_accepted q')) - int (length (tr_accepted q)) - (if isl r then 1 else 0),
        int (length (tr_accepted q')) - int (length (tr_accepted q))}"
  using assms collect.publish_loop_metrics
  by (auto simp: publishBatch_metered_def split: prod.splits sum.splits)

end
