(* ===== verification/Processes.thy ===== *)
theory Processes
  imports Config Relay_Process Http_Api
begin

text \<open>
  The main functions of cmd/api, cmd/worker and cmd/event-relay: what a process opens, in which order,
  what it builds from the configuration, and how it ends.  The model has Go's \<open>defer\<close>, \<open>panic\<close> and
  \<open>os.Exit\<close>; the outcomes of opening connections, of listening on a port and of the work itself are
  parameters.  logger.New, postgres.Connect and redis.Connect are modelled on top of the libraries they call.
\<close>

section \<open>A Go process\<close>

datatype zap_config = Development | Production

text \<open>What a process does, in the order of execution.\<close>

datatype effect =
    OpenLogger zap_config | SyncLogger
  | NotifySignals | StopSignals
  | OpenPostgres string | ClosePostgres
  | OpenRedis string string int | CloseRedis
  | OpenKafka Producer | CloseKafka
  | Listen string
  | Serve Service | Work worker ExecutorOptions | Relaying Relay
  | StartTimeout duration | CancelTimeout
  | ShutdownServer
  | LogFatal string | LogError string

datatype ending = Exited int | Panicked

text \<open>The effects so far and the deferred calls, the last one first.\<close>

record proc =
  pc_trace :: "effect list"
  pc_defers :: "effect list"

type_synonym 'a prog = "proc \<Rightarrow> (ending + 'a) \<times> proc"

definition bind_prog :: "'a prog \<Rightarrow> ('a \<Rightarrow> 'b prog) \<Rightarrow> 'b prog" where
  "bind_prog m k s = (case m s of (Inl e, s') \<Rightarrow> (Inl e, s') | (Inr x, s') \<Rightarrow> k x s')"

definition perform :: "effect \<Rightarrow> unit prog" where
  "perform e s = (Inr (), s\<lparr>pc_trace := pc_trace s @ [e]\<rparr>)"

definition go_defer :: "effect \<Rightarrow> unit prog" where
  "go_defer e s = (Inr (), s\<lparr>pc_defers := e # pc_defers s\<rparr>)"

definition go_panic :: "'a prog" where
  "go_panic s = (Inl Panicked, s)"

text \<open>\<open>log.Fatal\<close>: one line, then \<open>os.Exit(1)\<close>, which runs no deferred call.\<close>

definition log_Fatal :: "string \<Rightarrow> 'a prog" where
  "log_Fatal msg s = (Inl (Exited 1), s\<lparr>pc_trace := pc_trace s @ [LogFatal msg]\<rparr>)"

definition skip_prog :: "unit prog" where
  "skip_prog s = (Inr (), s)"

text \<open>\<open>main\<close> returns with status 0 after its deferred calls; a panic runs them and ends with status 2.\<close>

definition run_main :: "unit prog \<Rightarrow> int \<times> effect list" where
  "run_main m =
     (case m \<lparr>pc_trace = [], pc_defers = []\<rparr> of
        (Inr _, s) \<Rightarrow> (0, pc_trace s @ pc_defers s)
      | (Inl Panicked, s) \<Rightarrow> (2, pc_trace s @ pc_defers s)
      | (Inl (Exited n), s) \<Rightarrow> (n, pc_trace s))"

section \<open>Connections\<close>

text \<open>
  What the libraries answer: zap's constructors, \<open>pgxpool.New\<close> (which parses the URL and does not
  connect), the ping of a new Redis client, \<open>ListenAndServe\<close> before the signal, \<open>Shutdown\<close> and the work.
\<close>

record process_env =
  pe_zap :: "zap_config \<Rightarrow> go_error option"
  pe_pgxpool_New :: "string \<Rightarrow> go_error option"
  pe_redis_Ping :: "string \<Rightarrow> string \<Rightarrow> int \<Rightarrow> go_error option"
  pe_Listen :: "string \<Rightarrow> go_error option"
  pe_Shutdown :: "go_error option"
  pe_Run :: "go_error option"
  pe_generated :: string

definition logger_New :: "process_env \<Rightarrow> string \<Rightarrow> go_error + zap_config" where
  "logger_New pe level =
     (let c = (if level = ''debug'' then Development else Production)
      in case pe_zap pe c of Some e \<Rightarrow> Inl e | None \<Rightarrow> Inr c)"

definition postgres_Connect :: "process_env \<Rightarrow> string \<Rightarrow> go_error + effect" where
  "postgres_Connect pe databaseURL =
     (case pe_pgxpool_New pe databaseURL of Some e \<Rightarrow> Inl e | None \<Rightarrow> Inr (OpenPostgres databaseURL))"

definition redis_Connect :: "process_env \<Rightarrow> string \<Rightarrow> string \<Rightarrow> int \<Rightarrow> go_error + effect" where
  "redis_Connect pe addr password db =
     (case pe_redis_Ping pe addr password db of Some e \<Rightarrow> Inl e | None \<Rightarrow> Inr (OpenRedis addr password db))"

section \<open>The main functions\<close>

text \<open>The first statements of all three: the logger, the signals and PostgreSQL.\<close>

definition start_process :: "process_env \<Rightarrow> Config \<Rightarrow> unit prog" where
  "start_process pe cfg =
     (case logger_New pe (cf_LogLevel cfg) of
        Inl err \<Rightarrow> go_panic
      | Inr c \<Rightarrow>
          bind_prog (perform (OpenLogger c)) (\<lambda>_.
          bind_prog (go_defer SyncLogger) (\<lambda>_.
          bind_prog (perform NotifySignals) (\<lambda>_.
          bind_prog (go_defer StopSignals) (\<lambda>_.
          case postgres_Connect pe (cf_DatabaseURL cfg) of
            Inl err \<Rightarrow> log_Fatal ''failed to connect postgres''
          | Inr e \<Rightarrow>
              bind_prog (perform e) (\<lambda>_. go_defer ClosePostgres))))))"

definition start_redis :: "process_env \<Rightarrow> Config \<Rightarrow> unit prog" where
  "start_redis pe cfg =
     (case redis_Connect pe (cf_RedisAddr cfg) (cf_RedisPassword cfg) (cf_RedisDB cfg) of
        Inl err \<Rightarrow> log_Fatal ''failed to connect redis''
      | Inr e \<Rightarrow> bind_prog (perform e) (\<lambda>_. go_defer CloseRedis))"

text \<open>The options of the API server: the answers of its dependencies during a request are arguments.\<close>

definition api_main_options ::
  "(string \<Rightarrow> string) \<Rightarrow> (int \<Rightarrow> Principal \<Rightarrow> go_error + bool \<times> duration) \<Rightarrow> go_error option \<Rightarrow> go_error option \<Rightarrow>
   (go_error + Info list) \<Rightarrow> http_response \<Rightarrow> Config \<Rightarrow> Options" where
  "api_main_options sha allow ping redis_ping workers notFound cfg =
     \<lparr>op_sha = sha, op_AuthEnabled = cf_AuthEnabled cfg,
      op_RateLimiter = Some (allow (api_main_capacity cfg)), op_AllowedOrigins = cf_CORSAllowedOrigins cfg,
      op_Outbox = True, op_Ping = ping, op_ReadyChecks = [redis_ping], op_ActiveWorkers = workers,
      op_NotFound = notFound\<rparr>"

definition api_main :: "process_env \<Rightarrow> Config \<Rightarrow> unit prog" where
  "api_main pe cfg =
     bind_prog (start_process pe cfg) (\<lambda>_.
     bind_prog (start_redis pe cfg) (\<lambda>_.
     bind_prog (perform (Listen ('':'' @ cf_APIPort cfg))) (\<lambda>_.
     case pe_Listen pe ('':'' @ cf_APIPort cfg) of
       Some err \<Rightarrow> log_Fatal ''api server failed''
     | None \<Rightarrow>
         bind_prog (perform (Serve (api_main_service cfg))) (\<lambda>_.
         bind_prog (perform (StartTimeout (10 * Second))) (\<lambda>_.
         bind_prog (go_defer CancelTimeout) (\<lambda>_.
         bind_prog (perform ShutdownServer) (\<lambda>_.
         if pe_Shutdown pe \<noteq> None then perform (LogError ''api shutdown failed'') else skip_prog)))))))"

text \<open>
  The end of the other two: a health server whose failure is only logged, the work, and the shutdown.
  \<open>time.NewTicker\<close> at the start of the work panics for an interval that is not positive.
\<close>

definition work_process :: "process_env \<Rightarrow> string \<Rightarrow> string \<Rightarrow> string \<Rightarrow> duration \<Rightarrow> effect \<Rightarrow> unit prog" where
  "work_process pe port health_msg fatal_msg interval work =
     bind_prog (perform (Listen ('':'' @ port))) (\<lambda>_.
     bind_prog (if pe_Listen pe ('':'' @ port) \<noteq> None then perform (LogError health_msg) else skip_prog) (\<lambda>_.
     if sint interval \<le> 0 then go_panic
     else
       bind_prog (perform work) (\<lambda>_.
       if pe_Run pe \<noteq> None then log_Fatal fatal_msg
       else
         bind_prog (perform (StartTimeout (5 * Second))) (\<lambda>_.
         bind_prog (go_defer CancelTimeout) (\<lambda>_.
         perform ShutdownServer)))))"

definition worker_main :: "process_env \<Rightarrow> Config \<Rightarrow> unit prog" where
  "worker_main pe cfg =
     bind_prog (start_process pe cfg) (\<lambda>_.
     bind_prog (start_redis pe cfg) (\<lambda>_.
     let service = worker_main_service (pe_generated pe) cfg
     in work_process pe (cf_WorkerHealthPort cfg) ''worker health server failed'' ''worker failed''
          (wk_pollInterval service) (Work service (worker_main_options cfg))))"

definition relay_main :: "process_env \<Rightarrow> Config \<Rightarrow> unit prog" where
  "relay_main pe cfg =
     bind_prog (start_process pe cfg) (\<lambda>_.
     bind_prog (perform (OpenKafka (NewProducer (cf_KafkaBrokers cfg) (cf_KafkaEventsTopic cfg)))) (\<lambda>_.
     bind_prog (go_defer CloseKafka) (\<lambda>_.
     let relay = NewRelay (pe_generated pe) (cf_EventRelayBatchSize cfg) (cf_EventRelayPollInterval cfg)
     in work_process pe (cf_EventRelayHealthPort cfg) ''relay health server failed'' ''event relay failed''
          (rl_interval relay) (Relaying relay))))"

text \<open>The health server of the relay: readiness asks the database and the first Kafka broker.\<close>

definition relay_health :: "go_error option \<Rightarrow> (string \<Rightarrow> go_error option) \<Rightarrow> Producer \<Rightarrow> string \<Rightarrow> int option" where
  "relay_health ping dial publisher path =
     (if path = ''/health'' then Some 200
      else if path = ''/ready''
      then Some (if ping \<noteq> None \<or> Producer_Ping dial publisher \<noteq> None then 503 else 200)
      else if path = ''/metrics'' then None
      else Some 404)"

section \<open>Startup and cleanup\<close>

text \<open>The release that belongs to each acquisition.\<close>

fun release_of :: "effect \<Rightarrow> effect option" where
  "release_of (OpenLogger _) = Some SyncLogger"
| "release_of NotifySignals = Some StopSignals"
| "release_of (OpenPostgres _) = Some ClosePostgres"
| "release_of (OpenRedis _ _ _) = Some CloseRedis"
| "release_of (OpenKafka _) = Some CloseKafka"
| "release_of (StartTimeout _) = Some CancelTimeout"
| "release_of _ = None"

definition is_release :: "effect \<Rightarrow> bool" where
  "is_release e \<longleftrightarrow> e \<in> {SyncLogger, StopSignals, ClosePostgres, CloseRedis, CloseKafka, CancelTimeout}"

definition is_work :: "effect \<Rightarrow> bool" where
  "is_work e \<longleftrightarrow> (case e of Serve _ \<Rightarrow> True | Work _ _ \<Rightarrow> True | Relaying _ \<Rightarrow> True | _ \<Rightarrow> False)"

text \<open>
  A clean run: the effects before the deferred calls release nothing, the deferred calls release what
  was acquired in the opposite order, and with status 0 the work ran once.
\<close>

definition clean_run :: "int \<times> effect list \<Rightarrow> bool" where
  "clean_run run \<longleftrightarrow>
     (case run of (status, trace) \<Rightarrow>
        status \<in> {0, 1, 2} \<and>
        (status = 0 \<longleftrightarrow> ShutdownServer \<in> set trace) \<and>
        (status = 1 \<longrightarrow> \<not> list_ex is_release trace \<and> (case last trace of LogFatal _ \<Rightarrow> True | _ \<Rightarrow> False)) \<and>
        (status = 0 \<longrightarrow> length (filter is_work trace) = 1) \<and>
        (status \<noteq> 1 \<longrightarrow>
           (let body = takeWhile (\<lambda>e. \<not> is_release e) trace; tail = dropWhile (\<lambda>e. \<not> is_release e) trace
            in tail = rev (map the (filter (\<lambda>x. x \<noteq> None) (map release_of body))))))"


text \<open>Before any work the given connections are open.\<close>

definition opens_first :: "effect list \<Rightarrow> int \<times> effect list \<Rightarrow> bool" where
  "opens_first es run \<longleftrightarrow>
     (case run of (status, trace) \<Rightarrow>
        list_ex is_work trace \<longrightarrow> set es \<subseteq> set (takeWhile (\<lambda>e. \<not> is_work e) trace))"

lemma bind_prog_bind: "bind_prog (bind_prog m k) h s = bind_prog m (\<lambda>x. bind_prog (k x) h) s"
  by (simp add: bind_prog_def split: prod.split sum.split)

lemma bind_prog_run:
  "bind_prog (perform e) k s = k () (s\<lparr>pc_trace := pc_trace s @ [e]\<rparr>)"
  "bind_prog (go_defer e) k s = k () (s\<lparr>pc_defers := e # pc_defers s\<rparr>)"
  "bind_prog go_panic k s = (Inl Panicked, s)"
  "bind_prog (log_Fatal msg) k s = (Inl (Exited 1), s\<lparr>pc_trace := pc_trace s @ [LogFatal msg]\<rparr>)"
  "bind_prog skip_prog k s = k () s"
  by (simp_all add: bind_prog_def perform_def go_defer_def go_panic_def log_Fatal_def skip_prog_def)

lemmas prog_run =
  bind_prog_bind bind_prog_run perform_def go_defer_def go_panic_def log_Fatal_def skip_prog_def

lemma start_process_run:
  "bind_prog (start_process pe cfg) k \<lparr>pc_trace = [], pc_defers = []\<rparr> =
     (let c = (if cf_LogLevel cfg = ''debug'' then Development else Production) in
      if pe_zap pe c \<noteq> None then (Inl Panicked, \<lparr>pc_trace = [], pc_defers = []\<rparr>)
      else if pe_pgxpool_New pe (cf_DatabaseURL cfg) \<noteq> None
      then (Inl (Exited 1), \<lparr>pc_trace = [OpenLogger c, NotifySignals, LogFatal ''failed to connect postgres''],
              pc_defers = [StopSignals, SyncLogger]\<rparr>)
      else k () \<lparr>pc_trace = [OpenLogger c, NotifySignals, OpenPostgres (cf_DatabaseURL cfg)],
              pc_defers = [ClosePostgres, StopSignals, SyncLogger]\<rparr>)"
  by (simp add: start_process_def logger_New_def postgres_Connect_def Let_def prog_run split: option.split)

lemma start_redis_run:
  "bind_prog (start_redis pe cfg) k s =
     (if pe_redis_Ping pe (cf_RedisAddr cfg) (cf_RedisPassword cfg) (cf_RedisDB cfg) \<noteq> None
      then (Inl (Exited 1), s\<lparr>pc_trace := pc_trace s @ [LogFatal ''failed to connect redis'']\<rparr>)
      else k () (s\<lparr>pc_trace := pc_trace s @ [OpenRedis (cf_RedisAddr cfg) (cf_RedisPassword cfg) (cf_RedisDB cfg)],
                   pc_defers := CloseRedis # pc_defers s\<rparr>))"
  by (simp add: start_redis_def redis_Connect_def prog_run split: option.split)

lemma work_process_run:
  "work_process pe port hm fm interval work s =
     (let t = pc_trace s @ Listen ('':'' @ port) #
                (if pe_Listen pe ('':'' @ port) \<noteq> None then [LogError hm] else []) in
      if sint interval \<le> 0 then (Inl Panicked, s\<lparr>pc_trace := t\<rparr>)
      else if pe_Run pe \<noteq> None then (Inl (Exited 1), s\<lparr>pc_trace := t @ [work, LogFatal fm]\<rparr>)
      else (Inr (), s\<lparr>pc_trace := t @ [work, StartTimeout (5 * Second), ShutdownServer],
                     pc_defers := CancelTimeout # pc_defers s\<rparr>))"
  by (simp add: work_process_def Let_def prog_run)

lemmas clean_defs = clean_run_def opens_first_def is_release_def is_work_def run_main_def Let_def

lemma api_main_clean:
  "clean_run (run_main (api_main pe cfg)) \<and>
   opens_first [OpenPostgres (cf_DatabaseURL cfg),
     OpenRedis (cf_RedisAddr cfg) (cf_RedisPassword cfg) (cf_RedisDB cfg)] (run_main (api_main pe cfg))"
  by (simp add: api_main_def start_process_run start_redis_run prog_run clean_defs split: option.split)

lemma worker_main_clean:
  "clean_run (run_main (worker_main pe cfg)) \<and>
   opens_first [OpenPostgres (cf_DatabaseURL cfg),
     OpenRedis (cf_RedisAddr cfg) (cf_RedisPassword cfg) (cf_RedisDB cfg)] (run_main (worker_main pe cfg))"
  by (simp add: worker_main_def start_process_run start_redis_run work_process_run clean_defs)

lemma relay_main_clean:
  "clean_run (run_main (relay_main pe cfg)) \<and>
   opens_first [OpenPostgres (cf_DatabaseURL cfg),
     OpenKafka (NewProducer (cf_KafkaBrokers cfg) (cf_KafkaEventsTopic cfg))] (run_main (relay_main pe cfg))"
  by (simp add: relay_main_def start_process_run prog_run work_process_run clean_defs)



end
