(* ===== verification/Dashboard.thy ===== *)
theory Dashboard
  imports Http_Typing
begin

text \<open>
  The API client of the dashboard (web/src/api.ts) and the parts of web/src/App.tsx that decide something:
  the login, the buttons of a job and the paging of the list.  The browser is a parameter only in that
  \<open>fetch\<close> delivers a response; markup and styles have no model.
\<close>

section \<open>The API client\<close>

text \<open>The session storage has at most the entry scheduler_api_key.\<close>

type_synonym session_storage = "string option"

definition getKey :: "session_storage \<Rightarrow> string" where
  "getKey st = (case st of None \<Rightarrow> '''' | Some key \<Rightarrow> key)"

definition setKey :: "string \<Rightarrow> session_storage \<Rightarrow> session_storage" where
  "setKey key st = (if key \<noteq> '''' then Some key else None)"

text \<open>\<open>response.json()\<close> throws when the body is not an envelope; that is the second error.\<close>

datatype api_failure = ApiError string string int | SyntaxError

text \<open>The headers of a request: the caller's come last and win.\<close>

definition api_headers :: "session_storage \<Rightarrow> (string \<times> string) list \<Rightarrow> string \<Rightarrow> string" where
  "api_headers st extra h =
     (case map_of extra h of
        Some v \<Rightarrow> v
      | None \<Rightarrow>
          if h = ''Content-Type'' then ''application/json''
          else if h = ''X-API-Key'' then getKey st else '''')"

definition js_or :: "string option \<Rightarrow> string \<Rightarrow> string" where
  "js_or x fallback = (case x of None \<Rightarrow> fallback | Some v \<Rightarrow> if v = '''' then fallback else v)"

definition api :: "http_response \<Rightarrow> api_failure + api_data option" where
  "api response =
     (case hr_Body response of
        None \<Rightarrow> Inl SyntaxError
      | Some body \<Rightarrow>
          if \<not> (200 \<le> hr_Status response \<and> hr_Status response \<le> 299) \<or> \<not> en_Success body
          then Inl (ApiError (js_or (map_option fst (en_Error body)) ''REQUEST_FAILED'')
                      (js_or (map_option snd (en_Error body)) ''Request failed'') (hr_Status response))
          else Inr (en_Data body))"

text \<open>\<open>submit\<close> of the login form: the key is kept only if whoami accepts it.\<close>

definition login_submit :: "string \<Rightarrow> (session_storage \<Rightarrow> http_response) \<Rightarrow> session_storage \<Rightarrow> session_storage" where
  "login_submit key whoami st =
     (let st' = setKey key st in
      case api (whoami st') of Inr _ \<Rightarrow> st' | Inl _ \<Rightarrow> setKey '''' st')"

section \<open>The job page\<close>

text \<open>The buttons for a job of a status, by the action they post.\<close>

definition job_actions :: "string \<Rightarrow> string list" where
  "job_actions st =
     (if st \<in> {''PENDING'', ''SCHEDULED'', ''RETRY_SCHEDULED'', ''RUNNING''} then [''cancel''] else []) @
     (if st \<in> {''PENDING'', ''SCHEDULED''} then [''pause''] else []) @
     (if st = ''PAUSED'' then [''resume''] else []) @
     (if st \<in> {''FAILED'', ''DEAD_LETTERED''} then [''retry''] else [])"

text \<open>The paging buttons of the list, with 20 jobs a page; a disabled one is \<open>None\<close>.\<close>

definition previous_page :: "int \<Rightarrow> int option" where
  "previous_page page = (if page \<le> 1 then None else Some (page - 1))"

definition next_page :: "int \<Rightarrow> nat \<Rightarrow> int option" where
  "next_page page items = (if items < 20 then None else Some (page + 1))"

text \<open>What the server runs for an action.\<close>

definition run_action :: "string \<Rightarrow> ctx \<Rightarrow> uuid \<Rightarrow> (db, unit) tx" where
  "run_action name =
     (if name = ''cancel'' then Cancel id else if name = ''pause'' then Pause id
      else if name = ''resume'' then Resume id else Retry id)"

section \<open>Answers\<close>

lemma api_typed:
  assumes "typed_answer T q resp"
  shows "(\<exists>x. api resp = Inr (Some x) \<and> T x) \<or>
    (\<exists>c m. api resp = Inl (ApiError c m (hr_Status resp)) \<and> error_code (hr_Status resp) c)"
proof -
  from assms obtain e where e: "hr_Body resp = Some e" by (auto simp: typed_answer_def split: option.splits)
  show ?thesis
  proof (cases "en_Success e")
    case True
    with assms e obtain x where "en_Data e = Some x" "T x" "hr_Status resp = 200 \<or> hr_Status resp = 201"
      by (auto simp: typed_answer_def split: option.splits)
    with True e show ?thesis by (auto simp: api_def)
  next
    case False
    with assms e obtain c m where "en_Error e = Some (c, m)" "error_code (hr_Status resp) c"
      by (auto simp: typed_answer_def split: option.splits)
    moreover from this(2) have "c \<noteq> ''''" by (auto simp: error_code_def)
    ultimately show ?thesis using False e by (auto simp: api_def js_or_def)
  qed
qed

text \<open>
  The dashboard understands every answer of the server.  For each request of a registered route, with
  any input and any failing dependency, the client unwraps either data of the type of that route or an
  error with the server's status and one of its error codes; it meets neither a body it cannot parse nor
  its own fallback code.
\<close>

theorem client_understands_server:
  assumes "registered env s opts r" and "server_New env s opts generated r w = (resp, w')"
  shows "(\<exists>x. api resp = Inr (Some x) \<and> route_type (rq_Method r, rq_Route r) x) \<or>
    (\<exists>c m. api resp = Inl (ApiError c m (hr_Status resp)) \<and> error_code (hr_Status resp) c)"
  using api_typed [OF server_typed [OF assms(1), of generated w]] assms(2) by simp


theorem client_understands_server_witness:
  "\<exists>resp w' x. server_New sample_http_env sample_service sample_server ''q''
       (sample_http_request ''GET'' ''/health'') (sample_world sample_db) = (resp, w') \<and>
     api resp = Inr (Some x) \<and> route_type (''GET'', ''/health'') x"
proof -
  let ?r = "sample_http_request ''GET'' ''/health''"
  obtain resp w' where S: "server_New sample_http_env sample_service sample_server ''q'' ?r
      (sample_world sample_db) = (resp, w')" by fastforce
  then have "hr_Status resp = 200" using sample_health(2) [of "sample_world sample_db"] by simp
  then have "\<not> error_code (hr_Status resp) c" for c by (simp add: error_code_def)
  with client_understands_server [OF sample_health(1) S] S show ?thesis
    by (auto simp: sample_http_request_def)
qed
section \<open>Buttons\<close>

lemma transition_accepts:
  assumes "no_faults w" and "next_id w \<notin> event_ids (w_db w)"
    and "find (\<lambda>r. j_TenantID r = p_TenantID (PrincipalOrDefault ctx) \<and> j_ID r = i) (jobs (w_db w)) = Some r"
    and "\<And>st. st \<in> set from \<Longrightarrow> CanTransition (status_string st) (status_string to)"
  shows "\<not> isl (fst (transition id ctx i to from w)) \<longleftrightarrow> j_Status r \<in> set from"
proof -
  from assms(3) have "r \<in> set (jobs (w_db w))" "j_TenantID r = p_TenantID (PrincipalOrDefault ctx)" "j_ID r = i"
    by (auto simp: find_Some_iff elim: nth_mem)
  with assms show ?thesis
    by (auto simp: transition_def GetByID_def pool_stmt_def new_tx_def interfere_def TransitionJob_def run_simps
        statement_defs rows_affected_iff jval_ok_def Let_def)
qed

text \<open>
  The buttons for cancel, pause and resume are shown exactly for the statuses in which the server accepts
  the action.  The retry button is never useful: it is shown for dead-lettered jobs and the server refuses
  it for every job of a well-formed database.
\<close>

theorem offered_actions:
  assumes "no_faults w" and "next_id w \<notin> event_ids (w_db w)" and "db_ok (w_db w)"
    and "find (\<lambda>r. j_TenantID r = p_TenantID (PrincipalOrDefault ctx) \<and> j_ID r = i) (jobs (w_db w)) = Some r"
  shows "name \<in> {''cancel'', ''pause'', ''resume''} \<Longrightarrow>
      name \<in> set (job_actions (status_string (j_Status r))) \<longleftrightarrow> \<not> isl (fst (run_action name ctx i w))"
    and "''retry'' \<in> set (job_actions (status_string (j_Status r))) \<longleftrightarrow> j_Status r = StatusDeadLettered"
    and "isl (fst (run_action ''retry'' ctx i w))"
proof -
  have c: "CanTransition (status_string st) (status_string to)"
    if "(from, to) \<in> set service_moves" "st \<in> set from" for "from" to st
    using that service_moves_ok [of "from" to] by (auto simp: can_move_def)
  have accepts:
    "\<not> isl (fst (Cancel id ctx i w)) \<longleftrightarrow>
       j_Status r \<in> set [StatusPending, StatusScheduled, StatusRetryScheduled, StatusRunning]"
    "\<not> isl (fst (Pause id ctx i w)) \<longleftrightarrow> j_Status r \<in> set [StatusPending, StatusScheduled]"
    "\<not> isl (fst (Resume id ctx i w)) \<longleftrightarrow> j_Status r \<in> set [StatusPaused]"
    unfolding Cancel_def Pause_def Resume_def
    by (rule transition_accepts [OF assms(1,2,4)], rule c, simp add: service_moves_def, assumption)+
  show "name \<in> set (job_actions (status_string (j_Status r))) \<longleftrightarrow> \<not> isl (fst (run_action name ctx i w))"
    if "name \<in> {''cancel'', ''pause'', ''resume''}"
    using that accepts by (cases "j_Status r") (auto simp: run_action_def job_actions_def)
  have "j_Status r \<noteq> StatusFailed"
    using assms(3,4) by (auto simp: find_Some_iff db_ok_def rows_ok_def job_ok_def)
  then show "''retry'' \<in> set (job_actions (status_string (j_Status r))) \<longleftrightarrow> j_Status r = StatusDeadLettered"
    by (cases "j_Status r") (simp_all add: job_actions_def)
  show "isl (fst (run_action ''retry'' ctx i w))"
    using retry_never_applies [OF assms(3)] by (simp add: run_action_def)
qed

text \<open>A key stays in the session only if the server accepted it.\<close>

lemma login_keeps_valid_key:
  "getKey (login_submit key whoami st) = (if isl (api (whoami (setKey key st))) then '''' else key)"
  by (auto simp: login_submit_def getKey_def setKey_def Let_def split: sum.splits)

end
