(* ===== verification/Router.thy ===== *)
theory Router
  imports Http_Typing
begin

text \<open>
  From a URL path to a registered route.  The router is a library (go-chi); the locale \<open>http_router\<close> has what
  its documentation promises about patterns and leaves open which of several matching patterns wins.  The
  routes that internal/server/server.go and internal/job/handler.go register never overlap, so nothing
  depends on that.
\<close>

section \<open>Patterns\<close>

fun segments :: "string \<Rightarrow> string list" where
  "segments [] = [[]]"
| "segments (c # cs) =
     (if c = CHR ''/'' then [] # segments cs
      else (case segments cs of [] \<Rightarrow> [[c]] | x # xs \<Rightarrow> (c # x) # xs))"

datatype seg = Lit string | Param string

definition pattern_seg :: "string \<Rightarrow> seg" where
  "pattern_seg s =
     (if s \<noteq> [] \<and> hd s = CHR ''{'' \<and> last s = CHR ''}'' then Param (butlast (tl s)) else Lit s)"

text \<open>A placeholder matches one segment that is not empty, and names it.\<close>

fun match_segs :: "seg list \<Rightarrow> string list \<Rightarrow> (string \<times> string) list option" where
  "match_segs [] [] = Some []"
| "match_segs (Lit a # ps) (x # xs) = (if a = x then match_segs ps xs else None)"
| "match_segs (Param n # ps) (x # xs) =
     (if x = [] then None else map_option (Cons (n, x)) (match_segs ps xs))"
| "match_segs _ _ = None"

text \<open>The root of a mounted router is registered with and without its slash.\<close>

definition variants :: "string \<Rightarrow> seg list list" where
  "variants pattern =
     (let ps = map pattern_seg (segments pattern) in
      if last ps = Lit [] then [ps, butlast ps] else [ps])"

primrec first_some :: "('a \<Rightarrow> 'b option) \<Rightarrow> 'a list \<Rightarrow> 'b option" where
  "first_some f [] = None"
| "first_some f (x # xs) = (case f x of None \<Rightarrow> first_some f xs | Some y \<Rightarrow> Some y)"

definition matches :: "string \<Rightarrow> string \<Rightarrow> (string \<times> string) list option" where
  "matches pattern path = first_some (\<lambda>ps. match_segs ps (segments path)) (variants pattern)"

text \<open>Paths without empty segments inside; the promises are about these.\<close>

definition clean_path :: "string \<Rightarrow> bool" where
  "clean_path path \<longleftrightarrow> list_all (\<lambda>x. x \<noteq> []) (butlast (tl (segments path)))"

section \<open>The promise of the router\<close>

locale http_router =
  fixes find_route :: "(string \<times> string) list \<Rightarrow> string \<Rightarrow> string \<Rightarrow>
    ((string \<times> string) \<times> (string \<times> string) list) option"
  assumes found: "clean_path path \<Longrightarrow> find_route keys m path = Some (k, ps) \<Longrightarrow>
      k \<in> set keys \<and> fst k = m \<and> matches (snd k) path = Some ps"
    and finds: "clean_path path \<Longrightarrow> k \<in> set keys \<Longrightarrow> fst k = m \<Longrightarrow> matches (snd k) path \<noteq> None \<Longrightarrow>
      find_route keys m path \<noteq> None"
begin

lemma found_unique:
  assumes "clean_path path"
    and "\<And>k k'. k \<in> set keys \<Longrightarrow> k' \<in> set keys \<Longrightarrow> fst k = m \<Longrightarrow> fst k' = m \<Longrightarrow>
      matches (snd k) path \<noteq> None \<Longrightarrow> matches (snd k') path \<noteq> None \<Longrightarrow> k = k'"
  shows "find_route keys m path = Some (k, ps) \<longleftrightarrow>
    k \<in> set keys \<and> fst k = m \<and> matches (snd k) path = Some ps"
proof
  assume k: "k \<in> set keys \<and> fst k = m \<and> matches (snd k) path = Some ps"
  then have "find_route keys m path \<noteq> None" using finds [OF assms(1), of k keys m] by auto
  then obtain k' ps' where f: "find_route keys m path = Some (k', ps')" by auto
  from found [OF assms(1) f] have "k' \<in> set keys \<and> fst k' = m \<and> matches (snd k') path = Some ps'" .
  moreover from this k have "k' = k" by (intro assms(2)) auto
  ultimately show "find_route keys m path = Some (k, ps)" using f k by simp
qed (use found [OF assms(1)] in blast)

end

text \<open>A router that takes the first pattern that matches.\<close>

definition first_match :: "(string \<times> string) list \<Rightarrow> string \<Rightarrow> string \<Rightarrow>
    ((string \<times> string) \<times> (string \<times> string) list) option" where
  "first_match keys m path =
     first_some (\<lambda>k. if fst k = m then map_option (Pair k) (matches (snd k) path) else None) keys"

lemma first_some_Some: "first_some f xs = Some y \<Longrightarrow> \<exists>x\<in>set xs. f x = Some y"
  by (induction xs) (auto split: option.splits)

lemma first_some_None: "first_some f xs = None \<longleftrightarrow> (\<forall>x\<in>set xs. f x = None)"
  by (induction xs) (auto split: option.splits)

interpretation first: http_router first_match
proof unfold_locales
  fix path keys m k ps
  assume "first_match keys m path = Some (k, ps)"
  then show "k \<in> set keys \<and> fst k = m \<and> matches (snd k) path = Some ps"
    unfolding first_match_def by (auto dest!: first_some_Some split: if_splits)
next
  fix path keys m and k :: "string \<times> string"
  assume "k \<in> set keys" "fst k = m" "matches (snd k) path \<noteq> None"
  then show "first_match keys m path \<noteq> None"
    unfolding first_match_def by (auto simp: first_some_None)
qed

section \<open>Patterns that never overlap\<close>

fun clash :: "seg \<Rightarrow> seg \<Rightarrow> bool" where
  "clash (Lit a) (Lit b) \<longleftrightarrow> a \<noteq> b"
| "clash (Lit a) (Param _) \<longleftrightarrow> a = []"
| "clash (Param _) (Lit b) \<longleftrightarrow> b = []"
| "clash (Param _) (Param _) \<longleftrightarrow> False"

fun apart :: "seg list \<Rightarrow> seg list \<Rightarrow> bool" where
  "apart [] [] \<longleftrightarrow> False"
| "apart (a # as) (b # bs) \<longleftrightarrow> clash a b \<or> apart as bs"
| "apart _ _ \<longleftrightarrow> True"

lemma match_segs_shape [simp]:
  "match_segs (p # ps) [] = None"
  "match_segs [] (x # xs) = None"
  by (cases p; simp)+

lemma apart_shape [simp]: "apart [] ps \<longleftrightarrow> ps \<noteq> []" "apart ps [] \<longleftrightarrow> ps \<noteq> []"
  by (cases ps; simp)+

lemma apart_sound: "apart ps qs \<Longrightarrow> match_segs ps xs \<noteq> None \<Longrightarrow> match_segs qs xs = None"
proof (induction xs arbitrary: ps qs)
  case Nil
  then show ?case by (cases ps; cases qs) auto
next
  case (Cons x xs)
  then obtain a as where ps: "ps = a # as" by (cases ps) auto
  show ?case
  proof (cases qs)
    case (Cons b bs)
    with Cons.prems Cons.IH [of as bs] ps show ?thesis by (cases a; cases b) (auto split: if_splits)
  qed simp
qed

definition patterns_apart :: "string \<times> string \<Rightarrow> string \<times> string \<Rightarrow> bool" where
  "patterns_apart k k' \<longleftrightarrow>
     fst k \<noteq> fst k' \<or> list_all (\<lambda>ps. list_all (apart ps) (variants (snd k'))) (variants (snd k))"

lemma matches_variant: "matches p path \<noteq> None \<Longrightarrow> \<exists>ps\<in>set (variants p). match_segs ps (segments path) \<noteq> None"
  unfolding matches_def by (auto dest!: first_some_Some)

lemma patterns_apart_sound:
  assumes "patterns_apart k k'" and "fst k = fst k'" and "matches (snd k) path \<noteq> None"
  shows "matches (snd k') path = None"
proof (rule ccontr)
  assume "matches (snd k') path \<noteq> None"
  then obtain qs where q: "qs \<in> set (variants (snd k'))" "match_segs qs (segments path) \<noteq> None"
    using matches_variant by blast
  obtain ps where p: "ps \<in> set (variants (snd k))" "match_segs ps (segments path) \<noteq> None"
    using matches_variant assms(3) by blast
  have "apart ps qs" using assms(1,2) p(1) q(1) by (auto simp: patterns_apart_def list_all_iff)
  from apart_sound [OF this p(2)] q(2) show False by simp
qed

lemma sorted_apart_unique:
  assumes "sorted_wrt patterns_apart keys" and "k \<in> set keys" and "k' \<in> set keys" and "fst k = fst k'"
    and "matches (snd k) path \<noteq> None" and "matches (snd k') path \<noteq> None"
  shows "k = k'"
  using assms
proof (induction keys)
  case (Cons x xs)
  then show ?case using patterns_apart_sound [of x k path] patterns_apart_sound [of x k' path] by fastforce
qed simp

section \<open>The registered routes\<close>

definition route_keys :: "(string \<times> string) list" where
  "route_keys =
     [(''GET'', ''/health''), (''GET'', ''/ready''),
      (''POST'', ''/api/v1/jobs/''), (''GET'', ''/api/v1/jobs/''), (''GET'', ''/api/v1/jobs/{jobID}''),
      (''GET'', ''/api/v1/jobs/{jobID}/attempts''), (''GET'', ''/api/v1/jobs/{jobID}/events''),
      (''POST'', ''/api/v1/jobs/{jobID}/cancel''), (''POST'', ''/api/v1/jobs/{jobID}/pause''),
      (''POST'', ''/api/v1/jobs/{jobID}/resume''), (''POST'', ''/api/v1/jobs/{jobID}/retry''),
      (''GET'', ''/api/v1/dead-letter-jobs/''), (''POST'', ''/api/v1/dead-letter-jobs/{deadLetterID}/requeue''),
      (''GET'', ''/api/v1/workers''), (''GET'', ''/api/v1/auth/whoami''), (''GET'', ''/api/v1/dashboard/summary''),
      (''POST'', ''/api/v1/events/{eventID}/replay'')]"

lemma server_keys: "map fst (public_routes opts @ api_routes env s opts) = route_keys"
  by (simp add: public_routes_def api_routes_def mount_def Routes_def DeadLetterRoutes_def route_keys_def)

lemma registered_keys: "registered env s opts r \<longleftrightarrow> (rq_Method r, rq_Route r) \<in> set route_keys"
  unfolding registered_def server_keys [of opts env s, symmetric] by (auto simp: image_iff)

lemma route_keys_apart: "sorted_wrt patterns_apart route_keys"
  by code_simp


text \<open>
  Routing is determined: whichever matching pattern a router prefers, a request for a path reaches a route
  exactly when the route is registered for its method and its pattern matches.
\<close>

lemma routing_unambiguous:
  assumes "http_router find_route" and "clean_path path"
  shows "find_route route_keys m path = Some (k, ps) \<longleftrightarrow>
    k \<in> set route_keys \<and> fst k = m \<and> matches (snd k) path = Some ps"
  by (rule http_router.found_unique [OF assms])
     (use sorted_apart_unique [OF route_keys_apart] in simp)

section \<open>Segments\<close>

lemma segments_not_Nil [simp]: "segments s \<noteq> []"
  by (cases s) (auto split: list.splits)

lemma segments_slash: "segments (a @ CHR ''/'' # b) = segments a @ segments b"
proof (induction a)
  case (Cons c a)
  then show ?case by (cases "segments a") auto
qed simp

lemma segments_plain: "CHR ''/'' \<notin> set s \<Longrightarrow> segments s = [s]"
  by (induction s) auto

end
