(* ===== verification/Dashboard_Requests.thy ===== *)
theory Dashboard_Requests
  imports Dashboard Router
begin

text \<open>
  The requests of the pages of web/src/App.tsx: what each query and each button sends, the state of the jobs
  page and the form for new jobs, and that the server answers every one of them with what the page
  expects.
\<close>

section \<open>Requests\<close>

text \<open>One constructor per call of \<open>api\<close> in the pages, with the values it interpolates.\<close>

datatype dash_call =
    FetchWhoami
  | FetchSummary
  | FetchJobs string int
  | PostJob string string
  | FetchJob string
  | FetchAttempts string
  | FetchEvents string
  | PostAction string string
  | FetchWorkers
  | FetchDeadLetters
  | PostRequeue string

primrec call_method :: "dash_call \<Rightarrow> string" where
  "call_method FetchWhoami = ''GET''"
| "call_method FetchSummary = ''GET''"
| "call_method (FetchJobs st page) = ''GET''"
| "call_method (PostJob key body) = ''POST''"
| "call_method (FetchJob i) = ''GET''"
| "call_method (FetchAttempts i) = ''GET''"
| "call_method (FetchEvents i) = ''GET''"
| "call_method (PostAction i name) = ''POST''"
| "call_method FetchWorkers = ''GET''"
| "call_method FetchDeadLetters = ''GET''"
| "call_method (PostRequeue i) = ''POST''"

primrec call_path :: "dash_call \<Rightarrow> string" where
  "call_path FetchWhoami = ''/api/v1/auth/whoami''"
| "call_path FetchSummary = ''/api/v1/dashboard/summary''"
| "call_path (FetchJobs st page) = ''/api/v1/jobs''"
| "call_path (PostJob key body) = ''/api/v1/jobs''"
| "call_path (FetchJob i) = ''/api/v1/jobs/'' @ i"
| "call_path (FetchAttempts i) = ''/api/v1/jobs/'' @ i @ ''/attempts''"
| "call_path (FetchEvents i) = ''/api/v1/jobs/'' @ i @ ''/events''"
| "call_path (PostAction i name) = ''/api/v1/jobs/'' @ i @ ''/'' @ name"
| "call_path FetchWorkers = ''/api/v1/workers''"
| "call_path FetchDeadLetters = ''/api/v1/dead-letter-jobs''"
| "call_path (PostRequeue i) = ''/api/v1/dead-letter-jobs/'' @ i @ ''/requeue''"

definition call_query :: "dash_call \<Rightarrow> (string \<times> string) list" where
  "call_query c =
     (case c of
        FetchJobs st page \<Rightarrow> [(''status'', st), (''page'', Itoa page), (''page_size'', ''20'')]
      | _ \<Rightarrow> [])"

definition call_headers :: "dash_call \<Rightarrow> (string \<times> string) list" where
  "call_headers c = (case c of PostJob key body \<Rightarrow> [(''Idempotency-Key'', key)] | _ \<Rightarrow> [])"

definition call_body :: "dash_call \<Rightarrow> string" where
  "call_body c = (case c of PostJob key body \<Rightarrow> body | _ \<Rightarrow> '''')"

definition or_empty :: "string option \<Rightarrow> string" where
  "or_empty x = (case x of None \<Rightarrow> '''' | Some v \<Rightarrow> v)"

text \<open>The request as it reaches the server, through a router.\<close>

definition sent ::
  "((string \<times> string) list \<Rightarrow> string \<Rightarrow> string \<Rightarrow> ((string \<times> string) \<times> (string \<times> string) list) option) \<Rightarrow>
   session_storage \<Rightarrow> dash_call \<Rightarrow> http_request" where
  "sent find_route st c =
     (let found = find_route route_keys (call_method c) (call_path c) in
      \<lparr>rq_Method = call_method c,
       rq_Route = (case found of None \<Rightarrow> '''' | Some ((_, pattern), _) \<Rightarrow> pattern),
       rq_Header = api_headers st (call_headers c),
       rq_Query = (\<lambda>q. or_empty (map_of (call_query c) q)),
       rq_Param = (\<lambda>p. case found of None \<Rightarrow> '''' | Some (_, ps) \<Rightarrow> or_empty (map_of ps p)),
       rq_Body = call_body c, rq_ctx = None, rq_RequestID = ''''\<rparr>)"

text \<open>What a page does with the data: its type argument of \<open>api\<close>.\<close>

definition expected :: "dash_call \<Rightarrow> api_data \<Rightarrow> bool" where
  "expected c x \<longleftrightarrow>
     (case c of
        FetchWhoami \<Rightarrow> (\<exists>p. x = DPrincipal p)
      | FetchSummary \<Rightarrow> (\<exists>y. x = DSummary y)
      | FetchJobs _ _ \<Rightarrow> (\<exists>y. x = DPage y)
      | PostJob _ _ \<Rightarrow> (\<exists>y. x = DCreate y)
      | FetchJob _ \<Rightarrow> (\<exists>y. x = DJob y)
      | FetchAttempts _ \<Rightarrow> (\<exists>y. x = DAttempts y)
      | FetchEvents _ \<Rightarrow> (\<exists>y. x = DEvents y)
      | PostAction _ _ \<Rightarrow> (\<exists>y. x = DJobID y)
      | FetchWorkers \<Rightarrow> (\<exists>y. x = DWorkers y)
      | FetchDeadLetters \<Rightarrow> (\<exists>y. x = DDeadLetters y)
      | PostRequeue _ \<Rightarrow> (\<exists>y. x = DJob y))"

text \<open>
  Identifiers come from the server and are one segment; the statuses are those of the selection and the actions
  those of the buttons.
\<close>

definition plain_id :: "string \<Rightarrow> bool" where
  "plain_id i \<longleftrightarrow> i \<noteq> '''' \<and> CHR ''/'' \<notin> set i"

definition call_ok :: "dash_call \<Rightarrow> bool" where
  "call_ok c \<longleftrightarrow>
     (case c of
        FetchJobs st page \<Rightarrow> st = '''' \<or> isKnownStatus st
      | FetchJob i \<Rightarrow> plain_id i
      | FetchAttempts i \<Rightarrow> plain_id i
      | FetchEvents i \<Rightarrow> plain_id i
      | PostAction i name \<Rightarrow> plain_id i \<and> name \<in> {''cancel'', ''pause'', ''resume'', ''retry''}
      | PostRequeue i \<Rightarrow> plain_id i
      | _ \<Rightarrow> True)"

text \<open>The route that each call is meant for, with the parameters of the path.\<close>

definition meant_route :: "dash_call \<Rightarrow> string \<times> (string \<times> string) list" where
  "meant_route c =
     (case c of
        FetchWhoami \<Rightarrow> (''/api/v1/auth/whoami'', [])
      | FetchSummary \<Rightarrow> (''/api/v1/dashboard/summary'', [])
      | FetchJobs _ _ \<Rightarrow> (''/api/v1/jobs/'', [])
      | PostJob _ _ \<Rightarrow> (''/api/v1/jobs/'', [])
      | FetchJob i \<Rightarrow> (''/api/v1/jobs/{jobID}'', [(''jobID'', i)])
      | FetchAttempts i \<Rightarrow> (''/api/v1/jobs/{jobID}/attempts'', [(''jobID'', i)])
      | FetchEvents i \<Rightarrow> (''/api/v1/jobs/{jobID}/events'', [(''jobID'', i)])
      | PostAction i name \<Rightarrow> (''/api/v1/jobs/{jobID}/'' @ name, [(''jobID'', i)])
      | FetchWorkers \<Rightarrow> (''/api/v1/workers'', [])
      | FetchDeadLetters \<Rightarrow> (''/api/v1/dead-letter-jobs/'', [])
      | PostRequeue i \<Rightarrow> (''/api/v1/dead-letter-jobs/{deadLetterID}/requeue'', [(''deadLetterID'', i)]))"

section \<open>Routing of the requests\<close>

lemma id_path:
  assumes "plain_id i"
  shows "segments (''/api/v1/jobs/'' @ i) = ['''', ''api'', ''v1'', ''jobs'', i]"
    and "CHR ''/'' \<notin> set name \<Longrightarrow> segments (''/api/v1/jobs/'' @ i @ ''/'' @ name) = ['''', ''api'', ''v1'', ''jobs'', i, name]"
    and "segments (''/api/v1/dead-letter-jobs/'' @ i @ ''/requeue'') =
      ['''', ''api'', ''v1'', ''dead-letter-jobs'', i, ''requeue'']"
proof -
  have i: "segments i = [i]" using assms by (simp add: plain_id_def segments_plain)
  have k: "segments (i @ CHR ''/'' # b) = i # segments b" for b by (simp add: segments_slash i)
  show "segments (''/api/v1/jobs/'' @ i) = ['''', ''api'', ''v1'', ''jobs'', i]" by (simp add: i)
  show "segments (''/api/v1/jobs/'' @ i @ ''/'' @ name) = ['''', ''api'', ''v1'', ''jobs'', i, name]"
    if "CHR ''/'' \<notin> set name"
    using that by (simp add: k segments_plain)
  show "segments (''/api/v1/dead-letter-jobs/'' @ i @ ''/requeue'') =
      ['''', ''api'', ''v1'', ''dead-letter-jobs'', i, ''requeue'']" by (simp add: k)
qed


lemma meant_matches:
  assumes "call_ok c"
  shows "matches (fst (meant_route c)) (call_path c) = Some (snd (meant_route c))"
    and "clean_path (call_path c)"
    and "(call_method c, fst (meant_route c)) \<in> set route_keys"
proof -
  note D = matches_def variants_def pattern_seg_def meant_route_def clean_path_def route_keys_def
  have n: "CHR ''/'' \<notin> set ''attempts''" "CHR ''/'' \<notin> set ''events''" "CHR ''/'' \<notin> set ''cancel''"
    "CHR ''/'' \<notin> set ''pause''" "CHR ''/'' \<notin> set ''resume''" "CHR ''/'' \<notin> set ''retry''"
    by simp_all
  have P: "matches (fst (meant_route c)) (call_path c) = Some (snd (meant_route c)) \<and> clean_path (call_path c) \<and>
      (call_method c, fst (meant_route c)) \<in> set route_keys"
  proof (cases c)
    case (FetchJob i)
    with assms id_path(1) [of i] show ?thesis by (simp add: D call_ok_def plain_id_def Let_def)
  next
    case (FetchAttempts i)
    with assms id_path(2) [of i, OF _ n(1)] show ?thesis by (simp add: D call_ok_def plain_id_def Let_def)
  next
    case (FetchEvents i)
    with assms id_path(2) [of i, OF _ n(2)] show ?thesis by (simp add: D call_ok_def plain_id_def Let_def)
  next
    case (PostAction i name)
    then have i: "plain_id i" and "name \<in> {''cancel'', ''pause'', ''resume'', ''retry''}"
      using assms by (simp_all add: call_ok_def)
    then consider "name = ''cancel''" | "name = ''pause''" | "name = ''resume''" | "name = ''retry''" by blast
    then show ?thesis
      using PostAction i id_path(2) [OF i n(3)] id_path(2) [OF i n(4)] id_path(2) [OF i n(5)] id_path(2) [OF i n(6)]
      by cases (simp_all add: D plain_id_def Let_def)
  next
    case (PostRequeue i)
    with assms id_path(3) [of i] show ?thesis by (simp add: D call_ok_def plain_id_def Let_def)
  qed (simp_all add: D Let_def)
  then show "matches (fst (meant_route c)) (call_path c) = Some (snd (meant_route c))"
    "clean_path (call_path c)" "(call_method c, fst (meant_route c)) \<in> set route_keys" by simp_all
qed

lemma sent_routed:
  assumes "http_router find_route" and "call_ok c"
  shows "find_route route_keys (call_method c) (call_path c) =
      Some ((call_method c, fst (meant_route c)), snd (meant_route c))"
  using routing_unambiguous [OF assms(1) meant_matches(2) [OF assms(2)]] meant_matches(1,3) [OF assms(2)] by simp

lemma expected_type:
  "route_type (call_method c, fst (meant_route c)) x \<Longrightarrow> call_ok c \<Longrightarrow> expected c x"
  by (cases c; cases x) (auto simp: route_type_def meant_route_def expected_def call_ok_def)




section \<open>Pages\<close>

text \<open>\<open>App\<close> shows the login without a key and the pages with one; logging out drops the key.\<close>

datatype view = Login | Shell

definition App :: "session_storage \<Rightarrow> view" where
  "App st = (if getKey st \<noteq> '''' then Shell else Login)"

definition logout :: "session_storage \<Rightarrow> session_storage" where
  "logout st = setKey '''' st"

lemma logged_in_or_out:
  "App (logout st) = Login"
  "App (login_submit key whoami st) = Shell \<longleftrightarrow> key \<noteq> '''' \<and> \<not> isl (api (whoami (setKey key st)))"
  by (auto simp: App_def logout_def getKey_def setKey_def login_submit_def Let_def split: sum.splits)

text \<open>The status with spaces for its underscores.\<close>

definition status_label :: "string \<Rightarrow> string" where
  "status_label value = map (\<lambda>c. if c = CHR ''_'' then CHR '' '' else c) value"

text \<open>The number of jobs in the overview: the sum of the counts that the summary has.\<close>

definition all_statuses :: "Status list" where
  "all_statuses =
     [StatusPending, StatusScheduled, StatusRunning, StatusSucceeded, StatusFailed, StatusRetryScheduled,
      StatusDeadLettered, StatusCancelled, StatusPaused]"

definition overview_total :: "DashboardSummary \<Rightarrow> int" where
  "overview_total summary = sum_list (map snd (List.map_filter
     (\<lambda>st. map_option (Pair (status_string st)) (ds_StatusCounts summary st)) all_statuses))"

text \<open>It is the number of jobs of the tenant.\<close>

lemma overview_total_exact:
  assumes "ds_StatusCounts summary = status_counts t rs"
  shows "overview_total summary = int (length (filter (\<lambda>r. j_TenantID r = t) rs))"
proof -
  let ?n = "\<lambda>st. length (filter (\<lambda>r. j_TenantID r = t \<and> j_Status r = st) rs)"
  have "overview_total summary = sum_list (map (\<lambda>st. int (?n st)) all_statuses)"
    by (simp add: overview_total_def assms status_counts_def all_statuses_def List.map_filter_def Let_def)
  also have "\<dots> = int (length (filter (\<lambda>r. j_TenantID r = t) rs))"
  proof (induction rs)
    case (Cons r rs)
    then show ?case by (cases "j_Status r") (auto simp: all_statuses_def)
  qed (simp add: all_statuses_def)
  finally show ?thesis .
qed

text \<open>The jobs page: the filter and page of its URL, and whether the form for a new job is open.\<close>

record jobs_page =
  jp_status :: string
  jp_page :: int
  jp_create :: bool
  jp_error :: string

definition jobs_query :: "jobs_page \<Rightarrow> dash_call" where
  "jobs_query p = FetchJobs (jp_status p) (jp_page p)"

definition select_status :: "string \<Rightarrow> jobs_page \<Rightarrow> jobs_page" where
  "select_status st p = p\<lparr>jp_status := st, jp_page := 1\<rparr>"

definition go_previous :: "jobs_page \<Rightarrow> jobs_page" where
  "go_previous p = (case previous_page (jp_page p) of None \<Rightarrow> p | Some n \<Rightarrow> p\<lparr>jp_page := n\<rparr>)"

definition go_next :: "nat \<Rightarrow> jobs_page \<Rightarrow> jobs_page" where
  "go_next items p = (case next_page (jp_page p) items of None \<Rightarrow> p | Some n \<Rightarrow> p\<lparr>jp_page := n\<rparr>)"

definition open_create :: "jobs_page \<Rightarrow> jobs_page" where
  "open_create p = p\<lparr>jp_create := True, jp_error := ''''\<rparr>"

definition close_create :: "jobs_page \<Rightarrow> jobs_page" where
  "close_create p = p\<lparr>jp_create := False\<rparr>"

text \<open>The answer to the form: success closes it, a failure shows its message.\<close>

definition create_answer :: "(api_failure \<Rightarrow> string) \<Rightarrow> api_failure + api_data option \<Rightarrow> jobs_page \<Rightarrow> jobs_page" where
  "create_answer syntax_message res p =
     (case res of
        Inr _ \<Rightarrow> close_create p
      | Inl (ApiError code m status) \<Rightarrow> p\<lparr>jp_error := m\<rparr>
      | Inl SyntaxError \<Rightarrow> p\<lparr>jp_error := syntax_message SyntaxError\<rparr>)"

text \<open>The page number stays at 1 or more whatever is clicked, so the list query is never out of range.\<close>

lemma page_stays_positive:
  assumes "1 \<le> jp_page p"
  shows "1 \<le> jp_page (select_status st p)" and "1 \<le> jp_page (go_previous p)" and "1 \<le> jp_page (go_next n p)"
    and "1 \<le> jp_page (open_create p)" and "1 \<le> jp_page (create_answer f res p)"
  using assms
  by (auto simp: select_status_def go_previous_def go_next_def previous_page_def next_page_def open_create_def
      create_answer_def close_create_def split: sum.splits api_failure.splits)

text \<open>The form for a new job: the request that its body decodes to, with the text of its payload.\<close>

definition create_form :: "string \<Rightarrow> json \<Rightarrow> time \<Rightarrow> CreateRequest" where
  "create_form name payload now =
     \<lparr>cr_Name = name, cr_JobType = ''CALL_WEBHOOK'', cr_Payload = payload, cr_RunAt = now, cr_Priority = 5,
      cr_MaxRetries = 3, cr_RetryBackoffSeconds = 5, cr_TimeoutSeconds = 20, cr_IdempotencyKey = ''''\<rparr>"

text \<open>The validator refuses the form only for a blank name.\<close>

lemma create_form_valid:
  assumes "valid payload" and "payload \<noteq> ''''" and "payload \<noteq> ''null''" and "now \<noteq> 0"
  shows "validateCreate valid (withDefaults s ((create_form name payload now)\<lparr>cr_IdempotencyKey := key\<rparr>)) =
    (if TrimSpace name = '''' then Some ''name is required'' else None)"
  using assms by (simp add: validateCreate_def withDefaults_def create_form_def isSupportedJobType_def)

end
