(* ===== verification/Schema.thy ===== *)
theory Schema
  imports Job_Model
begin

text \<open>
  The migrations of migrations/: every statement of the five files in both directions, over a catalogue of
  tables with their rows and of indexes.  The statements are the few kinds of PostgreSQL's data definition
  language the files use, with what they check: undefined tables and columns, constraints on the rows that
  are already there, and objects that depend on a dropped one.  The migration tool sends a file as one
  query, which PostgreSQL runs as one transaction: an error leaves the catalogue as it was.
\<close>

section \<open>Tables and indexes\<close>

datatype sql_type = UUID | TEXT | JSONB | INTEGER | BIGINT | BOOLEAN | TIMESTAMPTZ

datatype sql_value =
    VUuid uuid
  | VText string
  | VJson json
  | VObject event_payload
  | VInt int
  | VBool bool
  | VTime time

datatype col_default = NoDefault | DefaultValue sql_value | DefaultNow

text \<open>
  A reference is to the \<open>id\<close> of the named table.  \<open>PRIMARY KEY\<close> is unique and not null; the check lists the
  values that \<open>CHECK (... IN ...)\<close> allows.
\<close>

record column =
  cn_Name :: string
  cn_Type :: sql_type
  cn_NotNull :: bool
  cn_Default :: col_default
  cn_Unique :: bool
  cn_References :: "string option"
  cn_Check :: "sql_value list option"

type_synonym sql_row = "(string \<times> sql_value option) list"

record table =
  tb_Columns :: "column list"
  tb_Rows :: "sql_row list"

datatype index_where = IsNull string | IsNotNull string

text \<open>The columns of an index carry whether they are \<open>DESC\<close>.\<close>

record index =
  ix_Name :: string
  ix_Table :: string
  ix_Columns :: "(string \<times> bool) list"
  ix_Unique :: bool
  ix_Where :: "index_where option"

record catalog =
  ct_Tables :: "(string \<times> table) list"
  ct_Indexes :: "index list"

section \<open>Constraints\<close>

definition cell :: "string \<Rightarrow> sql_row \<Rightarrow> sql_value option" where
  "cell n r = (case map_of r n of None \<Rightarrow> None | Some v \<Rightarrow> v)"

fun has_type :: "sql_type \<Rightarrow> sql_value \<Rightarrow> bool" where
  "has_type UUID (VUuid _) = True"
| "has_type TEXT (VText _) = True"
| "has_type JSONB (VJson _) = True"
| "has_type JSONB (VObject _) = True"
| "has_type INTEGER (VInt _) = True"
| "has_type BIGINT (VInt _) = True"
| "has_type BOOLEAN (VBool _) = True"
| "has_type TIMESTAMPTZ (VTime _) = True"
| "has_type _ _ = False"

definition value_ok :: "column \<Rightarrow> sql_value option \<Rightarrow> bool" where
  "value_ok c v =
     (case v of
        None \<Rightarrow> \<not> cn_NotNull c
      | Some x \<Rightarrow> has_type (cn_Type c) x \<and>
          (case cn_Check c of None \<Rightarrow> True | Some xs \<Rightarrow> x \<in> set xs))"

definition keys_of :: "catalog \<Rightarrow> string \<Rightarrow> sql_value option list" where
  "keys_of cat n =
     (case map_of (ct_Tables cat) n of None \<Rightarrow> [] | Some t \<Rightarrow> map (cell ''id'') (tb_Rows t))"

definition reference_ok :: "catalog \<Rightarrow> column \<Rightarrow> sql_value option \<Rightarrow> bool" where
  "reference_ok cat c v =
     (case cn_References c of
        None \<Rightarrow> True
      | Some n \<Rightarrow> v = None \<or> v \<in> set (keys_of cat n))"

text \<open>A unique column or index does not compare rows with a NULL in it.\<close>

definition unique_column :: "sql_row list \<Rightarrow> string \<Rightarrow> bool" where
  "unique_column rs n = distinct (filter (\<lambda>v. v \<noteq> None) (map (cell n) rs))"

definition where_holds :: "index_where option \<Rightarrow> sql_row \<Rightarrow> bool" where
  "where_holds p r =
     (case p of
        None \<Rightarrow> True
      | Some (IsNull n) \<Rightarrow> cell n r = None
      | Some (IsNotNull n) \<Rightarrow> cell n r \<noteq> None)"

definition unique_index :: "sql_row list \<Rightarrow> index \<Rightarrow> bool" where
  "unique_index rs ix =
     (let keys = map (\<lambda>r. map (\<lambda>(n, _). cell n r) (ix_Columns ix)) (filter (where_holds (ix_Where ix)) rs)
      in distinct (filter (\<lambda>k. None \<notin> set k) keys))"

definition row_ok :: "catalog \<Rightarrow> column list \<Rightarrow> sql_row \<Rightarrow> bool" where
  "row_ok cat cs r \<longleftrightarrow>
     map fst r = map cn_Name cs \<and>
     list_all (\<lambda>c. value_ok c (cell (cn_Name c) r) \<and> reference_ok cat c (cell (cn_Name c) r)) cs"

definition table_ok :: "catalog \<Rightarrow> table \<Rightarrow> bool" where
  "table_ok cat t \<longleftrightarrow>
     distinct (map cn_Name (tb_Columns t)) \<and>
     list_all (\<lambda>c. cn_Unique c \<longrightarrow> unique_column (tb_Rows t) (cn_Name c)) (tb_Columns t) \<and>
     list_all (row_ok cat (tb_Columns t)) (tb_Rows t)"

text \<open>The columns an index depends on.\<close>

definition index_columns :: "index \<Rightarrow> string list" where
  "index_columns ix =
     map fst (ix_Columns ix) @
     (case ix_Where ix of None \<Rightarrow> [] | Some (IsNull n) \<Rightarrow> [n] | Some (IsNotNull n) \<Rightarrow> [n])"

definition index_ok :: "catalog \<Rightarrow> index \<Rightarrow> bool" where
  "index_ok cat ix \<longleftrightarrow>
     (case map_of (ct_Tables cat) (ix_Table ix) of
        None \<Rightarrow> False
      | Some t \<Rightarrow>
          set (index_columns ix) \<subseteq> set (map cn_Name (tb_Columns t)) \<and>
          (ix_Unique ix \<longrightarrow> unique_index (tb_Rows t) ix))"

definition catalog_ok :: "catalog \<Rightarrow> bool" where
  "catalog_ok cat \<longleftrightarrow>
     distinct (map fst (ct_Tables cat)) \<and>
     list_all (\<lambda>(n, t). table_ok cat t) (ct_Tables cat) \<and>
     list_all (index_ok cat) (ct_Indexes cat)"

section \<open>Statements\<close>

datatype ddl =
    CreateTable string "column list"
  | CreateIndex index
  | AddColumns string "column list"
  | DropColumns string "string list"
  | DropTable string
  | DropIndex string
  | InsertNew string "(string \<times> sql_value) list"

datatype ddl_error =
    UndefinedTable string
  | UndefinedColumn string
  | DuplicateColumn string
  | DependentObjects string
  | InvalidValue string
  | UniqueViolation string
  | ForeignKeyViolation string

fun each :: "('a \<Rightarrow> 's \<Rightarrow> 'e + 's) \<Rightarrow> 'a list \<Rightarrow> 's \<Rightarrow> 'e + 's" where
  "each f [] s = Inr s"
| "each f (x # xs) s = (case f x s of Inl e \<Rightarrow> Inl e | Inr s' \<Rightarrow> each f xs s')"

definition has_relation :: "catalog \<Rightarrow> string \<Rightarrow> bool" where
  "has_relation cat n \<longleftrightarrow> n \<in> set (map fst (ct_Tables cat)) \<or> n \<in> set (map ix_Name (ct_Indexes cat))"

definition default_value :: "time \<Rightarrow> column \<Rightarrow> sql_value option" where
  "default_value now c =
     (case cn_Default c of NoDefault \<Rightarrow> None | DefaultValue v \<Rightarrow> Some v | DefaultNow \<Rightarrow> Some (VTime now))"

definition put_table :: "string \<Rightarrow> table \<Rightarrow> catalog \<Rightarrow> catalog" where
  "put_table n t cat =
     cat\<lparr>ct_Tables := map (\<lambda>(m, u). if m = n then (m, t) else (m, u)) (ct_Tables cat)\<rparr>"

definition undefined_reference :: "catalog \<Rightarrow> column \<Rightarrow> bool" where
  "undefined_reference cat c =
     (case cn_References c of None \<Rightarrow> False | Some n \<Rightarrow> n \<notin> set (map fst (ct_Tables cat)))"

definition create_table :: "string \<Rightarrow> column list \<Rightarrow> catalog \<Rightarrow> ddl_error + catalog" where
  "create_table n cs cat =
     (if has_relation cat n then Inr cat
      else if \<not> distinct (map cn_Name cs) then Inl (DuplicateColumn n)
      else if list_ex (undefined_reference cat) cs then Inl (UndefinedTable n)
      else Inr (cat\<lparr>ct_Tables := ct_Tables cat @ [(n, \<lparr>tb_Columns = cs, tb_Rows = []\<rparr>)]\<rparr>))"

definition create_index :: "index \<Rightarrow> catalog \<Rightarrow> ddl_error + catalog" where
  "create_index ix cat =
     (if has_relation cat (ix_Name ix) then Inr cat
      else
        case map_of (ct_Tables cat) (ix_Table ix) of
          None \<Rightarrow> Inl (UndefinedTable (ix_Table ix))
        | Some t \<Rightarrow>
            if \<not> set (index_columns ix) \<subseteq> set (map cn_Name (tb_Columns t))
            then Inl (UndefinedColumn (ix_Name ix))
            else if ix_Unique ix \<and> \<not> unique_index (tb_Rows t) ix then Inl (UniqueViolation (ix_Name ix))
            else Inr (cat\<lparr>ct_Indexes := ct_Indexes cat @ [ix]\<rparr>))"

text \<open>\<open>ADD COLUMN IF NOT EXISTS\<close>: the rows that are there get the default, and have to satisfy the column.\<close>

definition add_column :: "time \<Rightarrow> string \<Rightarrow> column \<Rightarrow> catalog \<Rightarrow> ddl_error + catalog" where
  "add_column now n c cat =
     (case map_of (ct_Tables cat) n of
        None \<Rightarrow> Inl (UndefinedTable n)
      | Some t \<Rightarrow>
          if cn_Name c \<in> set (map cn_Name (tb_Columns t)) then Inr cat
          else if undefined_reference cat c then Inl (UndefinedTable (cn_Name c))
          else if tb_Rows t \<noteq> [] \<and> \<not> value_ok c (default_value now c) then Inl (InvalidValue (cn_Name c))
          else if tb_Rows t \<noteq> [] \<and> \<not> reference_ok cat c (default_value now c)
          then Inl (ForeignKeyViolation (cn_Name c))
          else if cn_Unique c \<and> default_value now c \<noteq> None \<and> length (tb_Rows t) > 1
          then Inl (UniqueViolation (cn_Name c))
          else Inr (put_table n \<lparr>tb_Columns = tb_Columns t @ [c],
                  tb_Rows = map (\<lambda>r. r @ [(cn_Name c, default_value now c)]) (tb_Rows t)\<rparr> cat))"

definition references_table :: "string \<Rightarrow> table \<Rightarrow> bool" where
  "references_table n t \<longleftrightarrow> list_ex (\<lambda>c. cn_References c = Some n) (tb_Columns t)"

text \<open>\<open>DROP COLUMN IF EXISTS\<close>: the indexes on the column go with it.\<close>

definition drop_column :: "string \<Rightarrow> string \<Rightarrow> catalog \<Rightarrow> ddl_error + catalog" where
  "drop_column n c cat =
     (case map_of (ct_Tables cat) n of
        None \<Rightarrow> Inl (UndefinedTable n)
      | Some t \<Rightarrow>
          if c \<notin> set (map cn_Name (tb_Columns t)) then Inr cat
          else if c = ''id'' \<and> list_ex (\<lambda>(m, u). references_table n u) (ct_Tables cat)
          then Inl (DependentObjects c)
          else Inr (put_table n \<lparr>tb_Columns = filter (\<lambda>d. cn_Name d \<noteq> c) (tb_Columns t),
                  tb_Rows = map (filter (\<lambda>(m, v). m \<noteq> c)) (tb_Rows t)\<rparr>
                (cat\<lparr>ct_Indexes := filter (\<lambda>ix. \<not> (ix_Table ix = n \<and> c \<in> set (index_columns ix)))
                       (ct_Indexes cat)\<rparr>)))"

definition drop_table :: "string \<Rightarrow> catalog \<Rightarrow> ddl_error + catalog" where
  "drop_table n cat =
     (if n \<notin> set (map fst (ct_Tables cat)) then Inr cat
      else if list_ex (\<lambda>(m, u). m \<noteq> n \<and> references_table n u) (ct_Tables cat)
      then Inl (DependentObjects n)
      else Inr \<lparr>ct_Tables = filter (\<lambda>(m, u). m \<noteq> n) (ct_Tables cat),
                ct_Indexes = filter (\<lambda>ix. ix_Table ix \<noteq> n) (ct_Indexes cat)\<rparr>)"

definition drop_index :: "string \<Rightarrow> catalog \<Rightarrow> ddl_error + catalog" where
  "drop_index n cat = Inr (cat\<lparr>ct_Indexes := filter (\<lambda>ix. ix_Name ix \<noteq> n) (ct_Indexes cat)\<rparr>)"

text \<open>\<open>INSERT ... ON CONFLICT (id) DO NOTHING\<close>: columns that are not named get their default.\<close>

definition insert_new :: "time \<Rightarrow> string \<Rightarrow> (string \<times> sql_value) list \<Rightarrow> catalog \<Rightarrow> ddl_error + catalog" where
  "insert_new now n vs cat =
     (case map_of (ct_Tables cat) n of
        None \<Rightarrow> Inl (UndefinedTable n)
      | Some t \<Rightarrow>
          let r = map (\<lambda>c. (cn_Name c,
                case map_of vs (cn_Name c) of None \<Rightarrow> default_value now c | Some v \<Rightarrow> Some v)) (tb_Columns t)
          in
          if \<not> set (map fst vs) \<subseteq> set (map cn_Name (tb_Columns t)) then Inl (UndefinedColumn n)
          else if \<not> list_all (\<lambda>c. value_ok c (cell (cn_Name c) r)) (tb_Columns t) then Inl (InvalidValue n)
          else if cell ''id'' r \<in> set (map (cell ''id'') (tb_Rows t)) then Inr cat
          else if \<not> list_all (\<lambda>c. cn_Unique c \<longrightarrow> unique_column (tb_Rows t @ [r]) (cn_Name c)) (tb_Columns t) \<or>
                  \<not> list_all (\<lambda>ix. ix_Table ix = n \<longrightarrow> ix_Unique ix \<longrightarrow> unique_index (tb_Rows t @ [r]) ix)
                      (ct_Indexes cat)
          then Inl (UniqueViolation n)
          else if \<not> list_all (\<lambda>c. reference_ok cat c (cell (cn_Name c) r)) (tb_Columns t)
          then Inl (ForeignKeyViolation n)
          else Inr (put_table n (t\<lparr>tb_Rows := tb_Rows t @ [r]\<rparr>) cat))"

primrec exec_ddl :: "time \<Rightarrow> ddl \<Rightarrow> catalog \<Rightarrow> ddl_error + catalog" where
  "exec_ddl now (CreateTable n cs) cat = create_table n cs cat"
| "exec_ddl now (CreateIndex ix) cat = create_index ix cat"
| "exec_ddl now (AddColumns n cs) cat = each (add_column now n) cs cat"
| "exec_ddl now (DropColumns n cs) cat = each (drop_column n) cs cat"
| "exec_ddl now (DropTable n) cat = drop_table n cat"
| "exec_ddl now (DropIndex n) cat = drop_index n cat"
| "exec_ddl now (InsertNew n vs) cat = insert_new now n vs cat"

definition run_file :: "time \<Rightarrow> ddl list \<Rightarrow> catalog \<Rightarrow> ddl_error + catalog" where
  "run_file now stmts cat = each (exec_ddl now) stmts cat"


section \<open>The files\<close>

abbreviation nullable :: "string \<Rightarrow> sql_type \<Rightarrow> column" where
  "nullable n ty \<equiv> \<lparr>cn_Name = n, cn_Type = ty, cn_NotNull = False, cn_Default = NoDefault, cn_Unique = False,
     cn_References = None, cn_Check = None\<rparr>"

abbreviation not_null :: "string \<Rightarrow> sql_type \<Rightarrow> column" where
  "not_null n ty \<equiv> (nullable n ty)\<lparr>cn_NotNull := True\<rparr>"

abbreviation primary_key :: column where
  "primary_key \<equiv> (not_null ''id'' UUID)\<lparr>cn_Unique := True\<rparr>"

abbreviation with_default :: "string \<Rightarrow> sql_type \<Rightarrow> col_default \<Rightarrow> column" where
  "with_default n ty v \<equiv> (not_null n ty)\<lparr>cn_Default := v\<rparr>"

definition jobs_columns :: "column list" where
  "jobs_columns =
     [primary_key,
      not_null ''name'' TEXT,
      not_null ''job_type'' TEXT,
      not_null ''payload'' JSONB,
      not_null ''status'' TEXT,
      with_default ''priority'' INTEGER (DefaultValue (VInt 5)),
      not_null ''run_at'' TIMESTAMPTZ,
      nullable ''locked_until'' TIMESTAMPTZ,
      nullable ''locked_by'' TEXT,
      with_default ''retry_count'' INTEGER (DefaultValue (VInt 0)),
      with_default ''max_retries'' INTEGER (DefaultValue (VInt 3)),
      with_default ''retry_backoff_seconds'' INTEGER (DefaultValue (VInt 30)),
      with_default ''timeout_seconds'' INTEGER (DefaultValue (VInt 300)),
      nullable ''last_error'' TEXT,
      nullable ''created_by'' TEXT,
      with_default ''created_at'' TIMESTAMPTZ DefaultNow,
      with_default ''updated_at'' TIMESTAMPTZ DefaultNow,
      nullable ''completed_at'' TIMESTAMPTZ,
      nullable ''failed_at'' TIMESTAMPTZ,
      nullable ''cancelled_at'' TIMESTAMPTZ]"

definition create_jobs_up :: "ddl list" where
  "create_jobs_up =
     [CreateTable ''jobs'' jobs_columns,
      CreateIndex \<lparr>ix_Name = ''idx_jobs_status_run_at'', ix_Table = ''jobs'',
        ix_Columns = [(''status'', False), (''run_at'', False)], ix_Unique = False, ix_Where = None\<rparr>,
      CreateIndex \<lparr>ix_Name = ''idx_jobs_priority_run_at'', ix_Table = ''jobs'',
        ix_Columns = [(''priority'', True), (''run_at'', False)], ix_Unique = False, ix_Where = None\<rparr>,
      CreateIndex \<lparr>ix_Name = ''idx_jobs_locked_until'', ix_Table = ''jobs'',
        ix_Columns = [(''locked_until'', False)], ix_Unique = False, ix_Where = None\<rparr>,
      CreateIndex \<lparr>ix_Name = ''idx_jobs_job_type'', ix_Table = ''jobs'',
        ix_Columns = [(''job_type'', False)], ix_Unique = False, ix_Where = None\<rparr>]"

definition create_jobs_down :: "ddl list" where
  "create_jobs_down = [DropTable ''jobs'']"

definition job_attempts_columns :: "column list" where
  "job_attempts_columns =
     [primary_key,
      (not_null ''job_id'' UUID)\<lparr>cn_References := Some ''jobs''\<rparr>,
      not_null ''worker_id'' TEXT,
      not_null ''attempt_number'' INTEGER,
      not_null ''status'' TEXT,
      not_null ''started_at'' TIMESTAMPTZ,
      nullable ''completed_at'' TIMESTAMPTZ,
      nullable ''failed_at'' TIMESTAMPTZ,
      nullable ''error_message'' TEXT,
      nullable ''execution_duration_ms'' BIGINT,
      with_default ''created_at'' TIMESTAMPTZ DefaultNow]"

definition create_job_attempts_up :: "ddl list" where
  "create_job_attempts_up =
     [CreateTable ''job_attempts'' job_attempts_columns,
      CreateIndex \<lparr>ix_Name = ''idx_job_attempts_job_id'', ix_Table = ''job_attempts'',
        ix_Columns = [(''job_id'', False)], ix_Unique = False, ix_Where = None\<rparr>]"

definition create_job_attempts_down :: "ddl list" where
  "create_job_attempts_down = [DropTable ''job_attempts'']"

definition dead_letter_jobs_columns :: "column list" where
  "dead_letter_jobs_columns =
     [primary_key,
      not_null ''original_job_id'' UUID,
      not_null ''name'' TEXT,
      not_null ''job_type'' TEXT,
      not_null ''payload'' JSONB,
      not_null ''final_error'' TEXT,
      not_null ''retry_count'' INTEGER,
      not_null ''failed_at'' TIMESTAMPTZ,
      with_default ''created_at'' TIMESTAMPTZ DefaultNow]"

definition create_dead_letter_jobs_up :: "ddl list" where
  "create_dead_letter_jobs_up =
     [CreateTable ''dead_letter_jobs'' dead_letter_jobs_columns,
      CreateIndex \<lparr>ix_Name = ''idx_dead_letter_jobs_original_job_id'', ix_Table = ''dead_letter_jobs'',
        ix_Columns = [(''original_job_id'', False)], ix_Unique = False, ix_Where = None\<rparr>]"

definition create_dead_letter_jobs_down :: "ddl list" where
  "create_dead_letter_jobs_down = [DropTable ''dead_letter_jobs'']"

definition job_events_columns :: "column list" where
  "job_events_columns =
     [primary_key,
      not_null ''job_id'' UUID,
      not_null ''event_type'' TEXT,
      not_null ''source'' TEXT,
      not_null ''payload'' JSONB,
      with_default ''created_at'' TIMESTAMPTZ DefaultNow]"

definition create_job_events_up :: "ddl list" where
  "create_job_events_up = [CreateTable ''job_events'' job_events_columns]"

definition create_job_events_down :: "ddl list" where
  "create_job_events_down = [DropTable ''job_events'']"

text \<open>000005: the literal of the default tenant is \<open>auth.DefaultTenantID\<close>.\<close>

abbreviation default_tenant :: sql_value where
  "default_tenant \<equiv> VUuid 1"

abbreviation tenant_column :: column where
  "tenant_column \<equiv> (with_default ''tenant_id'' UUID (DefaultValue default_tenant))
     \<lparr>cn_References := Some ''tenants''\<rparr>"

definition tenants_columns :: "column list" where
  "tenants_columns =
     [primary_key,
      (not_null ''slug'' TEXT)\<lparr>cn_Unique := True\<rparr>,
      not_null ''name'' TEXT,
      with_default ''created_at'' TIMESTAMPTZ DefaultNow]"

definition api_clients_columns :: "column list" where
  "api_clients_columns =
     [primary_key,
      (not_null ''tenant_id'' UUID)\<lparr>cn_References := Some ''tenants''\<rparr>,
      not_null ''name'' TEXT,
      not_null ''key_prefix'' TEXT,
      (not_null ''key_hash'' TEXT)\<lparr>cn_Unique := True\<rparr>,
      (not_null ''role'' TEXT)\<lparr>cn_Check := Some [VText ''viewer'', VText ''operator'', VText ''admin'']\<rparr>,
      with_default ''enabled'' BOOLEAN (DefaultValue (VBool True)),
      with_default ''created_at'' TIMESTAMPTZ DefaultNow,
      nullable ''last_used_at'' TIMESTAMPTZ,
      nullable ''revoked_at'' TIMESTAMPTZ]"

definition jobs_added :: "column list" where
  "jobs_added =
     [tenant_column, nullable ''idempotency_key'' TEXT, nullable ''request_hash'' TEXT,
      nullable ''source_dead_letter_id'' UUID]"

definition job_attempts_added :: "column list" where
  "job_attempts_added =
     [tenant_column, nullable ''result'' JSONB, nullable ''error_code'' TEXT, nullable ''retryable'' BOOLEAN]"

definition dead_letter_jobs_added :: "column list" where
  "dead_letter_jobs_added =
     [tenant_column, nullable ''requeued_at'' TIMESTAMPTZ,
      (nullable ''requeued_job_id'' UUID)\<lparr>cn_References := Some ''jobs''\<rparr>]"

definition job_events_added :: "column list" where
  "job_events_added =
     [tenant_column,
      with_default ''schema_version'' INTEGER (DefaultValue (VInt 1)),
      nullable ''correlation_id'' TEXT,
      nullable ''causation_id'' UUID,
      nullable ''published_at'' TIMESTAMPTZ,
      with_default ''publish_attempts'' INTEGER (DefaultValue (VInt 0)),
      with_default ''next_publish_at'' TIMESTAMPTZ DefaultNow,
      nullable ''last_publish_error'' TEXT,
      nullable ''claimed_by'' TEXT,
      nullable ''claimed_until'' TIMESTAMPTZ]"

definition add_tenancy_up :: "ddl list" where
  "add_tenancy_up =
     [CreateTable ''tenants'' tenants_columns,
      InsertNew ''tenants'' [(''id'', default_tenant), (''slug'', VText ''default''), (''name'', VText ''Default Tenant'')],
      CreateTable ''api_clients'' api_clients_columns,
      CreateIndex \<lparr>ix_Name = ''idx_api_clients_tenant'', ix_Table = ''api_clients'',
        ix_Columns = [(''tenant_id'', False), (''enabled'', False)], ix_Unique = False, ix_Where = None\<rparr>,
      AddColumns ''jobs'' jobs_added,
      CreateIndex \<lparr>ix_Name = ''uq_jobs_tenant_idempotency'', ix_Table = ''jobs'',
        ix_Columns = [(''tenant_id'', False), (''idempotency_key'', False)], ix_Unique = True,
        ix_Where = Some (IsNotNull ''idempotency_key'')\<rparr>,
      CreateIndex \<lparr>ix_Name = ''idx_jobs_tenant_status_run_at'', ix_Table = ''jobs'',
        ix_Columns = [(''tenant_id'', False), (''status'', False), (''run_at'', False), (''priority'', True)],
        ix_Unique = False, ix_Where = None\<rparr>,
      AddColumns ''job_attempts'' job_attempts_added,
      AddColumns ''dead_letter_jobs'' dead_letter_jobs_added,
      AddColumns ''job_events'' job_events_added,
      CreateIndex \<lparr>ix_Name = ''idx_job_events_outbox'', ix_Table = ''job_events'',
        ix_Columns = [(''next_publish_at'', False), (''created_at'', False)], ix_Unique = False,
        ix_Where = Some (IsNull ''published_at'')\<rparr>,
      CreateIndex \<lparr>ix_Name = ''idx_job_events_tenant_job'', ix_Table = ''job_events'',
        ix_Columns = [(''tenant_id'', False), (''job_id'', False), (''created_at'', False), (''id'', False)],
        ix_Unique = False, ix_Where = None\<rparr>]"

definition add_tenancy_down :: "ddl list" where
  "add_tenancy_down =
     [DropIndex ''idx_job_events_tenant_job'',
      DropIndex ''idx_job_events_outbox'',
      DropColumns ''job_events''
        [''claimed_until'', ''claimed_by'', ''last_publish_error'', ''next_publish_at'', ''publish_attempts'',
         ''published_at'', ''causation_id'', ''correlation_id'', ''schema_version'', ''tenant_id''],
      DropColumns ''dead_letter_jobs'' [''requeued_job_id'', ''requeued_at'', ''tenant_id''],
      DropColumns ''job_attempts'' [''retryable'', ''error_code'', ''result'', ''tenant_id''],
      DropIndex ''idx_jobs_tenant_status_run_at'',
      DropIndex ''uq_jobs_tenant_idempotency'',
      DropColumns ''jobs'' [''source_dead_letter_id'', ''request_hash'', ''idempotency_key'', ''tenant_id''],
      DropTable ''api_clients'',
      DropTable ''tenants'']"

text \<open>The files of the directory by version: \<open>migrate up\<close> runs the first of each pair in this order, \<open>migrate
  down\<close> the second in the opposite order.\<close>

definition migrations :: "(ddl list \<times> ddl list) list" where
  "migrations =
     [(create_jobs_up, create_jobs_down),
      (create_job_attempts_up, create_job_attempts_down),
      (create_dead_letter_jobs_up, create_dead_letter_jobs_down),
      (create_job_events_up, create_job_events_down),
      (add_tenancy_up, add_tenancy_down)]"

definition migrate_up :: "time \<Rightarrow> catalog \<Rightarrow> ddl_error + catalog" where
  "migrate_up now cat = each (run_file now) (map fst migrations) cat"

definition migrate_down :: "time \<Rightarrow> catalog \<Rightarrow> ddl_error + catalog" where
  "migrate_down now cat = each (run_file now) (map snd (rev migrations)) cat"

definition no_catalog :: catalog where
  "no_catalog = \<lparr>ct_Tables = [], ct_Indexes = []\<rparr>"

end
