(* ===== verification/Schema_Migration.thy ===== *)
theory Schema_Migration
  imports Schema Repository
begin

text \<open>
  What the migrations do to the rows that are there: every statement keeps the constraints of the catalogue;
  the last file moves old rows to the default tenant and can be run twice and undone.
\<close>

section \<open>Cells and tables\<close>

lemma map_of_put:
  "map_of (map (\<lambda>(m, u). if m = n then (m, t) else (m, u)) ts) k =
     (if k = n \<and> n \<in> fst ` set ts then Some t else map_of ts k)"
proof (induction ts)
  case (Cons x ts)
  obtain m u where "x = (m, u)" by (cases x)
  with Cons show ?case by (cases "m = n"; cases "k = n") simp_all
qed simp

lemma put_table_sel [simp]:
  "map_of (ct_Tables (put_table n t cat)) k =
     (if k = n \<and> n \<in> fst ` set (ct_Tables cat) then Some t else map_of (ct_Tables cat) k)"
  "ct_Indexes (put_table n t cat) = ct_Indexes cat"
  by (simp_all add: put_table_def map_of_put)

lemma put_table_names [simp]: "map fst (ct_Tables (put_table n t cat)) = map fst (ct_Tables cat)"
  by (simp add: put_table_def comp_def case_prod_beta if_distrib [of fst] cong: if_cong)

lemma in_put_table:
  "(m, u) \<in> set (ct_Tables (put_table n t cat)) \<Longrightarrow> m = n \<and> u = t \<or> m \<noteq> n \<and> (m, u) \<in> set (ct_Tables cat)"
  by (auto simp: put_table_def split: if_splits)

lemma map_of_name: "map_of ts n = Some t \<Longrightarrow> n \<in> fst ` set ts"
  by (metis map_of_eq_None_iff option.distinct(1))

lemma map_of_append_if: "map_of (xs @ ys) k = (if k \<in> fst ` set xs then map_of xs k else map_of ys k)"
  by (induction xs) auto

lemma cell_append:
  "cell n (r @ s) = (if n \<in> fst ` set r then cell n r else cell n s)"
  by (simp add: cell_def map_of_append_if del: map_of_append)

lemma cell_snoc: "n \<notin> fst ` set r \<Longrightarrow> cell m (r @ [(n, v)]) = (if m = n then v else cell m r)"
  by (auto simp: cell_append) (auto simp: cell_def map_of_eq_None_iff [symmetric] split: option.splits)

lemma cell_filter: "n \<noteq> c \<Longrightarrow> cell n (filter (\<lambda>(m, v). m \<noteq> c) r) = cell n r"
  by (induction r) (auto simp: cell_def)

text \<open>Indexes and unique columns only look at their cells.\<close>

lemma unique_column_map:
  "(\<And>r. r \<in> set rs \<Longrightarrow> cell n (f r) = cell n r) \<Longrightarrow> unique_column (map f rs) n = unique_column rs n"
  by (simp add: unique_column_def comp_def cong: map_cong)

lemma unique_index_map:
  assumes "\<And>m r. m \<in> set (index_columns ix) \<Longrightarrow> r \<in> set rs \<Longrightarrow> cell m (f r) = cell m r"
  shows "unique_index (map f rs) ix = unique_index rs ix"
proof -
  let ?key = "\<lambda>r. map (\<lambda>(n, _). cell n r) (ix_Columns ix)"
  have "filter (where_holds (ix_Where ix)) (map f rs) = map f (filter (where_holds (ix_Where ix)) rs)"
    using assms unfolding filter_map
    by (intro arg_cong [of _ _ "map f"] filter_cong)
       (auto simp: where_holds_def index_columns_def split: option.splits index_where.splits)
  moreover have "?key (f r) = ?key r" if "r \<in> set rs" for r
    using assms that by (force simp: index_columns_def)
  ultimately have "map ?key (filter (where_holds (ix_Where ix)) (map f rs)) =
      map ?key (filter (where_holds (ix_Where ix)) rs)"
    by simp
  then show ?thesis by (simp only: unique_index_def Let_def)
qed

section \<open>Constraints are kept\<close>

lemma catalog_okD:
  assumes "catalog_ok cat"
  shows "distinct (map fst (ct_Tables cat))"
    and "map_of (ct_Tables cat) n = Some t \<Longrightarrow> table_ok cat t"
    and "(n, t) \<in> set (ct_Tables cat) \<Longrightarrow> table_ok cat t"
    and "ix \<in> set (ct_Indexes cat) \<Longrightarrow> index_ok cat ix"
  using assms by (auto simp: catalog_ok_def list_all_iff dest!: map_of_SomeD)

lemma catalog_okI:
  assumes "distinct (map fst (ct_Tables cat))"
    and "\<And>n t. (n, t) \<in> set (ct_Tables cat) \<Longrightarrow> table_ok cat t"
    and "\<And>ix. ix \<in> set (ct_Indexes cat) \<Longrightarrow> index_ok cat ix"
  shows "catalog_ok cat"
  using assms by (auto simp: catalog_ok_def list_all_iff)

lemma index_on:
  assumes "catalog_ok cat" and "ix \<in> set (ct_Indexes cat)" and "map_of (ct_Tables cat) n = Some t" and "ix_Table ix = n"
  shows "set (index_columns ix) \<subseteq> set (map cn_Name (tb_Columns t))"
    and "ix_Unique ix \<Longrightarrow> unique_index (tb_Rows t) ix"
  using catalog_okD(4) [OF assms(1,2)] assms(3,4) by (simp_all add: index_ok_def)

text \<open>Rows stay well-formed as long as the keys they refer to do.\<close>

lemma row_ok_mono:
  assumes "row_ok cat cs r"
    and "\<And>c n. c \<in> set cs \<Longrightarrow> cn_References c = Some n \<Longrightarrow> set (keys_of cat n) - {None} \<subseteq> set (keys_of cat' n)"
  shows "row_ok cat' cs r"
  using assms unfolding row_ok_def list_all_iff reference_ok_def by (fastforce split: option.splits)

lemma table_ok_mono:
  assumes "table_ok cat t"
    and "\<And>c n. c \<in> set (tb_Columns t) \<Longrightarrow> cn_References c = Some n \<Longrightarrow>
      set (keys_of cat n) - {None} \<subseteq> set (keys_of cat' n)"
  shows "table_ok cat' t"
  using assms row_ok_mono [of cat "tb_Columns t" _ cat'] unfolding table_ok_def list_all_iff by blast

lemma create_table_ok:
  assumes "catalog_ok cat" and "create_table n cs cat = Inr cat'"
  shows "catalog_ok cat'"
proof (cases "has_relation cat n")
  case True
  with assms show ?thesis by (simp add: create_table_def)
next
  case False
  let ?t = "\<lparr>tb_Columns = cs, tb_Rows = []\<rparr>"
  from False assms(2) have cat': "cat' = cat\<lparr>ct_Tables := ct_Tables cat @ [(n, ?t)]\<rparr>"
    and d: "distinct (map cn_Name cs)"
    by (auto simp: create_table_def split: if_splits)
  from False have n: "n \<notin> fst ` set (ct_Tables cat)" by (simp add: has_relation_def)
  have m: "map_of (ct_Tables cat') k = (if k = n then Some ?t else map_of (ct_Tables cat) k)" for k
    using n map_of_name [of "ct_Tables cat" k] by (cases "map_of (ct_Tables cat) k")
      (auto simp: cat' map_of_append_if simp del: map_of_append)
  have keys: "keys_of cat' k = keys_of cat k" for k
    using n map_of_name [of "ct_Tables cat" k] by (auto simp: keys_of_def m split: option.splits)
  show ?thesis
  proof (rule catalog_okI)
    show "distinct (map fst (ct_Tables cat'))" using catalog_okD(1) [OF assms(1)] n by (simp add: cat')
    fix k t
    assume "(k, t) \<in> set (ct_Tables cat')"
    then have "t = ?t \<or> table_ok cat t" using catalog_okD(3) [OF assms(1)] by (auto simp: cat')
    then show "table_ok cat' t"
      using d table_ok_mono [of cat t cat'] keys by (auto simp: table_ok_def list_all_iff unique_column_def)
  next
    fix ix
    assume "ix \<in> set (ct_Indexes cat')"
    then have "index_ok cat ix" using catalog_okD(4) [OF assms(1)] by (simp add: cat')
    moreover have "ix_Table ix \<noteq> n" if "map_of (ct_Tables cat) (ix_Table ix) = Some t" for t
      using that n by (metis map_of_name)
    ultimately show "index_ok cat' ix" by (auto simp: index_ok_def m split: option.splits)
  qed
qed

lemma same_tables:
  assumes "ct_Tables cat' = ct_Tables cat"
  shows "table_ok cat' t = table_ok cat t" and "index_ok cat' ix = index_ok cat ix"
proof -
  have "keys_of cat' = keys_of cat" by (intro ext) (simp add: keys_of_def assms)
  then have "reference_ok cat' = reference_ok cat" by (simp add: reference_ok_def [abs_def] cong: option.case_cong)
  then have "row_ok cat' = row_ok cat" by (simp add: row_ok_def [abs_def])
  then show "table_ok cat' t = table_ok cat t" by (simp add: table_ok_def)
  show "index_ok cat' ix = index_ok cat ix" by (simp add: index_ok_def assms)
qed

lemma create_index_ok:
  assumes "catalog_ok cat" and "create_index ix cat = Inr cat'"
  shows "catalog_ok cat'"
proof (cases "has_relation cat (ix_Name ix)")
  case True
  with assms show ?thesis by (simp add: create_index_def)
next
  case False
  with assms(2) obtain t where t: "map_of (ct_Tables cat) (ix_Table ix) = Some t"
      "set (index_columns ix) \<subseteq> set (map cn_Name (tb_Columns t))" "ix_Unique ix \<longrightarrow> unique_index (tb_Rows t) ix"
    and cat': "cat' = cat\<lparr>ct_Indexes := ct_Indexes cat @ [ix]\<rparr>"
    by (auto simp: create_index_def split: option.splits if_splits)
  have same: "table_ok cat' u = table_ok cat u" "index_ok cat' jx = index_ok cat jx" for u jx
    by (rule same_tables, simp add: cat')+
  have "index_ok cat ix" using t by (simp add: index_ok_def)
  then show ?thesis
    by (intro catalog_okI) (use catalog_okD [OF assms(1)] same in \<open>auto simp: cat'\<close>)
qed

text \<open>One table changes; the others keep their rows.\<close>

lemma put_table_ok:
  assumes ok: "catalog_ok cat" and t: "map_of (ct_Tables cat) n = Some t"
    and cat': "ct_Tables cat' = ct_Tables (put_table n t' cat)"
    and keys: "set (keys_of cat n) - {None} \<subseteq> set (keys_of cat' n) \<or>
      \<not> list_ex (\<lambda>(m, u). references_table n u) (ct_Tables cat)"
    and t': "table_ok cat' t'"
    and ixs: "\<And>ix. ix \<in> set (ct_Indexes cat') \<Longrightarrow> ix \<in> set (ct_Indexes cat) \<and> (ix_Table ix = n \<longrightarrow>
      set (index_columns ix) \<subseteq> set (map cn_Name (tb_Columns t')) \<and>
      (ix_Unique ix \<longrightarrow> unique_index (tb_Rows t') ix))"
  shows "catalog_ok cat'"
proof (rule catalog_okI)
  have n: "n \<in> fst ` set (ct_Tables cat)" using map_of_name [OF t] .
  have m: "map_of (ct_Tables cat') k = (if k = n then Some t' else map_of (ct_Tables cat) k)" for k
    using n by (simp add: cat')
  show "distinct (map fst (ct_Tables cat'))" using catalog_okD(1) [OF ok] by (simp add: cat')
  fix k u
  assume "(k, u) \<in> set (ct_Tables cat')"
  then consider "u = t'" | "k \<noteq> n" "(k, u) \<in> set (ct_Tables cat)"
    unfolding cat' using in_put_table by blast
  then show "table_ok cat' u"
  proof cases
    case 2
    show ?thesis
    proof (rule table_ok_mono [OF catalog_okD(3) [OF ok 2(2)]])
      fix c k'
      assume c: "c \<in> set (tb_Columns u)" "cn_References c = Some k'"
      show "set (keys_of cat k') - {None} \<subseteq> set (keys_of cat' k')"
      proof (cases "k' = n")
        case True
        with c have "references_table n u" by (auto simp: references_table_def list_ex_iff)
        with 2(2) have "list_ex (\<lambda>(m, u). references_table n u) (ct_Tables cat)" by (auto simp: list_ex_iff)
        with keys True show ?thesis by simp
      next
        case False
        then show ?thesis by (simp add: keys_of_def m)
      qed
    qed
  qed (use t' in simp)
next
  fix ix
  assume ix: "ix \<in> set (ct_Indexes cat')"
  show "index_ok cat' ix"
    using ixs [OF ix] catalog_okD(4) [OF ok, of ix] map_of_name [OF t]
    by (cases "ix_Table ix = n") (auto simp: index_ok_def cat')
qed


lemma add_column_ok:
  assumes ok: "catalog_ok cat" and A: "add_column now n c cat = Inr cat'"
  shows "catalog_ok cat'"
proof (cases "cat' = cat")
  case False
  let ?v = "default_value now c"
  let ?row = "\<lambda>r. r @ [(cn_Name c, ?v)]"
  from False A obtain t where t: "map_of (ct_Tables cat) n = Some t" "cn_Name c \<notin> set (map cn_Name (tb_Columns t))"
    and v: "tb_Rows t \<noteq> [] \<Longrightarrow> value_ok c ?v \<and> reference_ok cat c ?v"
      "cn_Unique c \<Longrightarrow> ?v = None \<or> length (tb_Rows t) \<le> 1"
    and cat': "cat' = put_table n \<lparr>tb_Columns = tb_Columns t @ [c], tb_Rows = map ?row (tb_Rows t)\<rparr> cat"
    by (auto simp: add_column_def split: option.splits if_splits)
  note T = catalog_okD(2) [OF ok t(1)]
  have names: "fst ` set r = cn_Name ` set (tb_Columns t)" if "r \<in> set (tb_Rows t)" for r
    using T that unfolding table_ok_def list_all_iff row_ok_def by (metis list.set_map)
  have cells: "cell m (?row r) = (if m = cn_Name c then ?v else cell m r)" if "r \<in> set (tb_Rows t)" for m r
    using names [OF that] t(2) by (auto simp: cell_snoc)
  have keys: "keys_of cat' k = keys_of cat k" if "k \<noteq> n \<or> ''id'' \<noteq> cn_Name c" for k
    using that t(1) map_of_name [OF t(1)] cells
    by (cases "k = n") (auto simp: keys_of_def cat')
  have sub: "set (keys_of cat k) - {None} \<subseteq> set (keys_of cat' k)" for k
  proof (cases "k = n \<and> ''id'' = cn_Name c")
    case True
    then have "cell ''id'' r = None" if "r \<in> set (tb_Rows t)" for r
      using names [OF that] t(2) by (auto simp: cell_def map_of_eq_None_iff [symmetric] split: option.splits)
    with True t(1) show ?thesis by (auto simp: keys_of_def)
  qed (use keys in auto)
  have fresh: "cn_Name d \<noteq> cn_Name c" if "d \<in> set (tb_Columns t)" for d
    using that t(2) by (metis image_eqI list.set_map)
  let ?t = "\<lparr>tb_Columns = tb_Columns t @ [c], tb_Rows = map ?row (tb_Rows t)\<rparr>"
  have old: "row_ok cat (tb_Columns t) r" if "r \<in> set (tb_Rows t)" for r
    using T that by (simp add: table_ok_def list_all_iff)
  have "row_ok cat (tb_Columns t @ [c]) (?row r)" if r: "r \<in> set (tb_Rows t)" for r
  proof -
    have "tb_Rows t \<noteq> []" using r by auto
    note v(1) [OF this]
    then show ?thesis using old [OF r] cells [OF r] fresh by (auto simp: row_ok_def list_all_iff)
  qed
  then have rows: "row_ok cat' (tb_Columns t @ [c]) (?row r)" if "r \<in> set (tb_Rows t)" for r
    using row_ok_mono [OF _ sub] that by blast
  have uniq: "unique_column (map ?row (tb_Rows t)) m = unique_column (tb_Rows t) m" if "m \<noteq> cn_Name c" for m
    using that cells by (intro unique_column_map) simp
  have "unique_column (map ?row (tb_Rows t)) (cn_Name c)" if "cn_Unique c"
    using v(2) [OF that] cells
    by (cases "tb_Rows t") (auto simp: unique_column_def comp_def filter_empty_conv cong: map_cong)
  then have new: "table_ok cat' ?t"
    using T t(2) fresh uniq rows by (auto simp: table_ok_def list_all_iff)
  have uix: "unique_index (map ?row (tb_Rows t)) ix = unique_index (tb_Rows t) ix"
    if "set (index_columns ix) \<subseteq> set (map cn_Name (tb_Columns t))" for ix
    using that t(2) cells by (intro unique_index_map) auto
  show ?thesis
  proof (rule put_table_ok [OF ok t(1) _ _ new])
    fix ix
    assume "ix \<in> set (ct_Indexes cat')"
    then show "ix \<in> set (ct_Indexes cat) \<and> (ix_Table ix = n \<longrightarrow> set (index_columns ix) \<subseteq> set (map cn_Name (tb_Columns ?t)) \<and>
        (ix_Unique ix \<longrightarrow> unique_index (tb_Rows ?t) ix))"
      using index_on [OF ok _ t(1), of ix] uix [of ix] by (auto simp: cat')
  qed (use sub in \<open>simp_all add: cat'\<close>)
qed (use ok in simp)


lemma drop_column_ok:
  assumes ok: "catalog_ok cat" and D: "drop_column n c cat = Inr cat'"
  shows "catalog_ok cat'"
proof (cases "cat' = cat")
  case False
  let ?row = "filter (\<lambda>(m, v). m \<noteq> c)"
  from False D obtain t where t: "map_of (ct_Tables cat) n = Some t"
    and id: "c = ''id'' \<Longrightarrow> \<not> list_ex (\<lambda>(m, u). references_table n u) (ct_Tables cat)"
    and cat': "cat' = put_table n \<lparr>tb_Columns = filter (\<lambda>d. cn_Name d \<noteq> c) (tb_Columns t),
        tb_Rows = map ?row (tb_Rows t)\<rparr>
        (cat\<lparr>ct_Indexes := filter (\<lambda>ix. \<not> (ix_Table ix = n \<and> c \<in> set (index_columns ix))) (ct_Indexes cat)\<rparr>)"
    by (auto simp: drop_column_def split: option.splits if_splits)
  let ?t = "\<lparr>tb_Columns = filter (\<lambda>d. cn_Name d \<noteq> c) (tb_Columns t), tb_Rows = map ?row (tb_Rows t)\<rparr>"
  note T = catalog_okD(2) [OF ok t]
  have keys: "keys_of cat' k = keys_of cat k" if "k \<noteq> n \<or> c \<noteq> ''id''" for k
    using that t map_of_name [OF t] by (cases "k = n") (auto simp: keys_of_def cat' cell_filter)
  have ref: "keys_of cat' k = keys_of cat k" if "d \<in> set (tb_Columns t)" "cn_References d = Some k" for d k
  proof (cases "k = n \<and> c = ''id''")
    case True
    with that have "references_table n t" by (auto simp: references_table_def list_ex_iff)
    with True id map_of_SomeD [OF t] show ?thesis by (auto simp: list_ex_iff)
  qed (use keys in blast)
  have "row_ok cat' (tb_Columns ?t) (?row r)" if r: "r \<in> set (tb_Rows t)" for r
  proof -
    have R: "row_ok cat (tb_Columns t) r" using T r by (simp add: table_ok_def list_all_iff)
    then have "map fst (?row r) = filter (\<lambda>m. m \<noteq> c) (map cn_Name (tb_Columns t))"
      by (simp add: row_ok_def filter_map comp_def case_prod_beta' flip: R [unfolded row_ok_def, THEN conjunct1])
    moreover have "reference_ok cat' d v = reference_ok cat d v" if "d \<in> set (tb_Columns t)" for d v
      using ref [OF that] by (auto simp: reference_ok_def split: option.splits)
    ultimately show ?thesis using R by (auto simp: row_ok_def list_all_iff cell_filter filter_map comp_def)
  qed
  moreover have "unique_column (map ?row (tb_Rows t)) m = unique_column (tb_Rows t) m" if "m \<noteq> c" for m
    using that by (intro unique_column_map) (simp add: cell_filter)
  ultimately have new: "table_ok cat' ?t"
    using T by (auto simp: table_ok_def list_all_iff distinct_map_filter)
  have uix: "unique_index (map ?row (tb_Rows t)) ix = unique_index (tb_Rows t) ix"
    if "c \<notin> set (index_columns ix)" for ix
    using that by (intro unique_index_map) (metis cell_filter)
  show ?thesis
  proof (rule put_table_ok [OF ok t _ _ new])
    fix ix
    assume "ix \<in> set (ct_Indexes cat')"
    then have "ix \<in> set (ct_Indexes cat)" "ix_Table ix = n \<Longrightarrow> c \<notin> set (index_columns ix)" by (auto simp: cat')
    then show "ix \<in> set (ct_Indexes cat) \<and> (ix_Table ix = n \<longrightarrow> set (index_columns ix) \<subseteq> set (map cn_Name (tb_Columns ?t)) \<and>
        (ix_Unique ix \<longrightarrow> unique_index (tb_Rows ?t) ix))"
      using index_on [OF ok _ t, of ix] uix [of ix] by auto
  next
    show "set (keys_of cat n) - {None} \<subseteq> set (keys_of cat' n) \<or>
        \<not> list_ex (\<lambda>(m, u). references_table n u) (ct_Tables cat)"
      using keys [of n] id by (cases "c = ''id''") auto
  qed (simp add: cat' put_table_def)
qed (use ok in simp)

lemma drop_table_ok:
  assumes ok: "catalog_ok cat" and D: "drop_table n cat = Inr cat'"
  shows "catalog_ok cat'"
proof (cases "cat' = cat")
  case False
  with D have cat': "cat' = \<lparr>ct_Tables = filter (\<lambda>(m, u). m \<noteq> n) (ct_Tables cat),
      ct_Indexes = filter (\<lambda>ix. ix_Table ix \<noteq> n) (ct_Indexes cat)\<rparr>"
    and dep: "\<And>m u. (m, u) \<in> set (ct_Tables cat) \<Longrightarrow> m \<noteq> n \<Longrightarrow> \<not> references_table n u"
    by (auto simp: drop_table_def list_ex_iff split: if_splits)
  have m: "map_of (ct_Tables cat') k = (if k = n then None else map_of (ct_Tables cat) k)" for k
  proof -
    have "map_of (filter (\<lambda>(m, u). m \<noteq> n) ts) k = (if k = n then None else map_of ts k)" for ts :: "(string \<times> table) list"
      by (induction ts) auto
    then show ?thesis by (simp add: cat')
  qed
  show ?thesis
  proof (rule catalog_okI)
    show "distinct (map fst (ct_Tables cat'))"
      using catalog_okD(1) [OF ok] by (simp add: cat' distinct_map_filter)
    fix k u
    assume "(k, u) \<in> set (ct_Tables cat')"
    then have k: "k \<noteq> n" "(k, u) \<in> set (ct_Tables cat)" by (auto simp: cat')
    show "table_ok cat' u"
    proof (rule table_ok_mono [OF catalog_okD(3) [OF ok k(2)]])
      fix c k'
      assume "c \<in> set (tb_Columns u)" "cn_References c = Some k'"
      then have "k' \<noteq> n" using dep [OF k(2,1)] by (auto simp: references_table_def list_ex_iff)
      then show "set (keys_of cat k') - {None} \<subseteq> set (keys_of cat' k')" by (auto simp: keys_of_def m)
    qed
  next
    fix ix
    assume "ix \<in> set (ct_Indexes cat')"
    then show "index_ok cat' ix" using catalog_okD(4) [OF ok, of ix] by (auto simp: cat' index_ok_def m [unfolded cat', simplified])
  qed
qed (use ok in simp)


lemma insert_new_ok:
  assumes ok: "catalog_ok cat" and I: "insert_new now n vs cat = Inr cat'"
  shows "catalog_ok cat'"
proof (cases "cat' = cat")
  case False
  from I obtain t where t: "map_of (ct_Tables cat) n = Some t"
    by (simp add: insert_new_def split: option.splits)
  define r where "r = map (\<lambda>c. (cn_Name c,
      case map_of vs (cn_Name c) of None \<Rightarrow> default_value now c | Some v \<Rightarrow> Some v)) (tb_Columns t)"
  have "map fst r = map cn_Name (tb_Columns t)" by (simp add: r_def)
  moreover from I False t have
      "list_all (\<lambda>c. value_ok c (cell (cn_Name c) r)) (tb_Columns t)"
      "list_all (\<lambda>c. cn_Unique c \<longrightarrow> unique_column (tb_Rows t @ [r]) (cn_Name c)) (tb_Columns t)"
      "list_all (\<lambda>ix. ix_Table ix = n \<longrightarrow> ix_Unique ix \<longrightarrow> unique_index (tb_Rows t @ [r]) ix) (ct_Indexes cat)"
      "list_all (\<lambda>c. reference_ok cat c (cell (cn_Name c) r)) (tb_Columns t)"
    and cat': "cat' = put_table n (t\<lparr>tb_Rows := tb_Rows t @ [r]\<rparr>) cat"
    by (simp_all add: insert_new_def Let_def split: if_splits flip: r_def)
  ultimately have r: "map fst r = map cn_Name (tb_Columns t)"
      "list_all (\<lambda>c. value_ok c (cell (cn_Name c) r)) (tb_Columns t)"
      "list_all (\<lambda>c. cn_Unique c \<longrightarrow> unique_column (tb_Rows t @ [r]) (cn_Name c)) (tb_Columns t)"
      "list_all (\<lambda>ix. ix_Table ix = n \<longrightarrow> ix_Unique ix \<longrightarrow> unique_index (tb_Rows t @ [r]) ix) (ct_Indexes cat)"
      "list_all (\<lambda>c. reference_ok cat c (cell (cn_Name c) r)) (tb_Columns t)"
    by blast+
  note T = catalog_okD(2) [OF ok t]
  have keys: "set (keys_of cat k) \<subseteq> set (keys_of cat' k)" for k
    using t map_of_name [OF t] by (auto simp: keys_of_def cat')
  have "row_ok cat (tb_Columns t) s" if "s \<in> set (tb_Rows t @ [r])" for s
    using T r(1,2,5) that by (auto simp: table_ok_def row_ok_def list_all_iff)
  then have "row_ok cat' (tb_Columns t) s" if "s \<in> set (tb_Rows t @ [r])" for s
    using row_ok_mono that keys by (metis Diff_subset subset_trans)
  with T r(3) have new: "table_ok cat' (t\<lparr>tb_Rows := tb_Rows t @ [r]\<rparr>)"
    by (simp add: table_ok_def list_all_iff)
  show ?thesis
    by (rule put_table_ok [OF ok t _ _ new])
       (use keys [of n] index_on [OF ok _ t] r(4) in \<open>auto simp: cat' list_all_iff\<close>)
qed (use ok in simp)

lemma drop_index_ok:
  assumes "catalog_ok cat" and "drop_index n cat = Inr cat'"
  shows "catalog_ok cat'"
proof -
  have cat': "cat' = cat\<lparr>ct_Indexes := filter (\<lambda>ix. ix_Name ix \<noteq> n) (ct_Indexes cat)\<rparr>"
    using assms(2) by (simp add: drop_index_def)
  have "table_ok cat' t = table_ok cat t" "index_ok cat' ix = index_ok cat ix" for t ix
    by (rule same_tables, simp add: cat')+
  with catalog_okD [OF assms(1)] show ?thesis by (intro catalog_okI) (auto simp: cat')
qed

lemma each_ok:
  assumes "\<And>x s s'. P s \<Longrightarrow> f x s = Inr s' \<Longrightarrow> P s'" and "P s" and "each f xs s = Inr s'"
  shows "P s'"
  using assms(2,3) by (induction xs arbitrary: s) (auto split: sum.splits intro: assms(1))

text \<open>Whatever the statements of a file do, the rows satisfy all constraints afterwards.\<close>

lemma exec_ddl_ok:
  assumes "catalog_ok cat" and "exec_ddl now q cat = Inr cat'"
  shows "catalog_ok cat'"
proof (cases q)
  case (AddColumns n cs)
  with assms have "each (add_column now n) cs cat = Inr cat'" by simp
  with add_column_ok [of _ now n] assms(1) show ?thesis by (rule each_ok [where P = catalog_ok])
next
  case (DropColumns n cs)
  with assms have "each (drop_column n) cs cat = Inr cat'" by simp
  with drop_column_ok [of _ n] assms(1) show ?thesis by (rule each_ok [where P = catalog_ok])
next
  case (CreateTable n cs)
  with assms show ?thesis by (auto intro: create_table_ok)
next
  case (CreateIndex ix)
  with assms show ?thesis by (auto intro: create_index_ok)
next
  case (DropTable n)
  with assms show ?thesis by (auto intro: drop_table_ok)
next
  case (DropIndex n)
  with assms show ?thesis by (auto intro: drop_index_ok)
next
  case (InsertNew n vs)
  with assms show ?thesis by (auto intro: insert_new_ok)
qed

lemma run_file_ok: "catalog_ok cat \<Longrightarrow> run_file now stmts cat = Inr cat' \<Longrightarrow> catalog_ok cat'"
  unfolding run_file_def using exec_ddl_ok by (rule each_ok [where P = catalog_ok])


section \<open>The last migration\<close>

text \<open>The catalogue of the first four files and of all five, with any rows.\<close>

abbreviation plain_index :: "string \<Rightarrow> string \<Rightarrow> (string \<times> bool) list \<Rightarrow> index" where
  "plain_index n t cs \<equiv> \<lparr>ix_Name = n, ix_Table = t, ix_Columns = cs, ix_Unique = False, ix_Where = None\<rparr>"

definition old_indexes :: "index list" where
  "old_indexes =
     [plain_index ''idx_jobs_status_run_at'' ''jobs'' [(''status'', False), (''run_at'', False)],
      plain_index ''idx_jobs_priority_run_at'' ''jobs'' [(''priority'', True), (''run_at'', False)],
      plain_index ''idx_jobs_locked_until'' ''jobs'' [(''locked_until'', False)],
      plain_index ''idx_jobs_job_type'' ''jobs'' [(''job_type'', False)],
      plain_index ''idx_job_attempts_job_id'' ''job_attempts'' [(''job_id'', False)],
      plain_index ''idx_dead_letter_jobs_original_job_id'' ''dead_letter_jobs'' [(''original_job_id'', False)]]"

definition new_indexes :: "index list" where
  "new_indexes =
     [plain_index ''idx_api_clients_tenant'' ''api_clients'' [(''tenant_id'', False), (''enabled'', False)],
      \<lparr>ix_Name = ''uq_jobs_tenant_idempotency'', ix_Table = ''jobs'',
        ix_Columns = [(''tenant_id'', False), (''idempotency_key'', False)], ix_Unique = True,
        ix_Where = Some (IsNotNull ''idempotency_key'')\<rparr>,
      plain_index ''idx_jobs_tenant_status_run_at'' ''jobs''
        [(''tenant_id'', False), (''status'', False), (''run_at'', False), (''priority'', True)],
      \<lparr>ix_Name = ''idx_job_events_outbox'', ix_Table = ''job_events'',
        ix_Columns = [(''next_publish_at'', False), (''created_at'', False)], ix_Unique = False,
        ix_Where = Some (IsNull ''published_at'')\<rparr>,
      plain_index ''idx_job_events_tenant_job'' ''job_events''
        [(''tenant_id'', False), (''job_id'', False), (''created_at'', False), (''id'', False)]]"

definition old_catalog :: "sql_row list \<Rightarrow> sql_row list \<Rightarrow> sql_row list \<Rightarrow> sql_row list \<Rightarrow> catalog" where
  "old_catalog js as ds es =
     \<lparr>ct_Tables =
        [(''jobs'', \<lparr>tb_Columns = jobs_columns, tb_Rows = js\<rparr>),
         (''job_attempts'', \<lparr>tb_Columns = job_attempts_columns, tb_Rows = as\<rparr>),
         (''dead_letter_jobs'', \<lparr>tb_Columns = dead_letter_jobs_columns, tb_Rows = ds\<rparr>),
         (''job_events'', \<lparr>tb_Columns = job_events_columns, tb_Rows = es\<rparr>)],
      ct_Indexes = old_indexes\<rparr>"

definition new_catalog ::
  "sql_row list \<Rightarrow> sql_row list \<Rightarrow> sql_row list \<Rightarrow> sql_row list \<Rightarrow> sql_row list \<Rightarrow> sql_row list \<Rightarrow> catalog" where
  "new_catalog js as ds es ts cs =
     \<lparr>ct_Tables =
        [(''jobs'', \<lparr>tb_Columns = jobs_columns @ jobs_added, tb_Rows = js\<rparr>),
         (''job_attempts'', \<lparr>tb_Columns = job_attempts_columns @ job_attempts_added, tb_Rows = as\<rparr>),
         (''dead_letter_jobs'', \<lparr>tb_Columns = dead_letter_jobs_columns @ dead_letter_jobs_added, tb_Rows = ds\<rparr>),
         (''job_events'', \<lparr>tb_Columns = job_events_columns @ job_events_added, tb_Rows = es\<rparr>),
         (''tenants'', \<lparr>tb_Columns = tenants_columns, tb_Rows = ts\<rparr>),
         (''api_clients'', \<lparr>tb_Columns = api_clients_columns, tb_Rows = cs\<rparr>)],
      ct_Indexes = old_indexes @ new_indexes\<rparr>"

lemmas column_defs = jobs_columns_def job_attempts_columns_def dead_letter_jobs_columns_def job_events_columns_def
  tenants_columns_def api_clients_columns_def jobs_added_def job_attempts_added_def dead_letter_jobs_added_def
  job_events_added_def

lemma fresh_migration:
  "migrate_up now no_catalog =
     Inr (new_catalog [] [] [] [] [[(''id'', Some default_tenant), (''slug'', Some (VText ''default'')),
       (''name'', Some (VText ''Default Tenant'')), (''created_at'', Some (VTime now))]] [])"
  by code_simp

lemma first_files:
  "each (run_file now) (map fst (take 4 migrations)) no_catalog = Inr (old_catalog [] [] [] [])"
  by code_simp


text \<open>Adding columns to a table with rows, and dropping them again.\<close>

definition added :: "time \<Rightarrow> column list \<Rightarrow> sql_row" where
  "added now cs = map (\<lambda>c. (cn_Name c, default_value now c)) cs"

lemma put_table_twice: "put_table n t (put_table n u cat) = put_table n t cat"
  by (simp add: put_table_def comp_def case_prod_beta if_distrib cong: if_cong)

lemma put_table_id:
  assumes "map_of (ct_Tables cat) n = Some t" and "distinct (map fst (ct_Tables cat))"
  shows "put_table n t cat = cat"
proof -
  have "u = t" if "(n, u) \<in> set (ct_Tables cat)" for u using that assms by (simp add: map_of_eq_Some_iff)
  then have "map (\<lambda>(m, u). if m = n then (m, t) else (m, u)) (ct_Tables cat) = ct_Tables cat"
    by (intro map_idI) auto
  then show ?thesis by (simp add: put_table_def)
qed

lemma add_columns:
  assumes "map_of (ct_Tables cat) n = Some t" and "distinct (map fst (ct_Tables cat))"
    and "distinct (map cn_Name (tb_Columns t @ cs))"
    and "\<And>c. c \<in> set cs \<Longrightarrow> value_ok c (default_value now c) \<and> \<not> cn_Unique c \<and> cn_References c \<noteq> Some n \<and>
      \<not> undefined_reference cat c \<and> reference_ok cat c (default_value now c)"
  shows "each (add_column now n) cs cat =
    Inr (put_table n \<lparr>tb_Columns = tb_Columns t @ cs, tb_Rows = map (\<lambda>r. r @ added now cs) (tb_Rows t)\<rparr> cat)"
  using assms
proof (induction cs arbitrary: cat t)
  case Nil
  then show ?case by (simp add: added_def put_table_id)
next
  case (Cons c cs)
  let ?t = "\<lparr>tb_Columns = tb_Columns t @ [c], tb_Rows = map (\<lambda>r. r @ [(cn_Name c, default_value now c)]) (tb_Rows t)\<rparr>"
  let ?cat = "put_table n ?t cat"
  have one: "add_column now n c cat = Inr ?cat"
    using Cons.prems(3) Cons.prems(4) [of c] by (auto simp: add_column_def Cons.prems(1))
  have keys: "keys_of ?cat k = keys_of cat k" if "k \<noteq> n" for k using that by (simp add: keys_of_def)
  have "each (add_column now n) cs ?cat =
      Inr (put_table n \<lparr>tb_Columns = tb_Columns ?t @ cs, tb_Rows = map (\<lambda>r. r @ added now cs) (tb_Rows ?t)\<rparr> ?cat)"
  proof (rule Cons.IH)
    show "map_of (ct_Tables ?cat) n = Some ?t" using map_of_name [OF Cons.prems(1)] by simp
    show "distinct (map fst (ct_Tables ?cat))" using Cons.prems(2) by simp
    show "distinct (map cn_Name (tb_Columns ?t @ cs))" using Cons.prems(3) by simp
    fix d
    assume "d \<in> set cs"
    with Cons.prems(4) [of d] keys show "value_ok d (default_value now d) \<and> \<not> cn_Unique d \<and> cn_References d \<noteq> Some n \<and>
      \<not> undefined_reference ?cat d \<and> reference_ok ?cat d (default_value now d)"
      by (auto simp: undefined_reference_def reference_ok_def split: option.splits)
  qed
  then show ?case by (simp add: one put_table_twice added_def comp_def)
qed

text \<open>Without an index on them the columns go as they came, whatever the rows hold in them by now.\<close>

lemma drop_columns:
  assumes "map_of (ct_Tables cat) n = Some t" and "distinct (map fst (ct_Tables cat))" and "''id'' \<notin> set ns"
    and "set ns \<subseteq> set (map cn_Name (tb_Columns t))" and "distinct ns"
    and "\<And>ix. ix \<in> set (ct_Indexes cat) \<Longrightarrow> ix_Table ix = n \<Longrightarrow> set (index_columns ix) \<inter> set ns = {}"
  shows "each (drop_column n) ns cat =
    Inr (put_table n \<lparr>tb_Columns = filter (\<lambda>d. cn_Name d \<notin> set ns) (tb_Columns t),
      tb_Rows = map (filter (\<lambda>(m, v). m \<notin> set ns)) (tb_Rows t)\<rparr> cat)"
  using assms
proof (induction ns arbitrary: cat t)
  case Nil
  then show ?case by (simp add: put_table_id case_prod_unfold)
next
  case (Cons c ns)
  let ?t = "\<lparr>tb_Columns = filter (\<lambda>d. cn_Name d \<noteq> c) (tb_Columns t),
    tb_Rows = map (filter (\<lambda>(m, v). m \<noteq> c)) (tb_Rows t)\<rparr>"
  have "filter (\<lambda>ix. \<not> (ix_Table ix = n \<and> c \<in> set (index_columns ix))) (ct_Indexes cat) = ct_Indexes cat"
    using Cons.prems(6) by (intro filter_True) auto
  then have one: "drop_column n c cat = Inr (put_table n ?t cat)"
    using Cons.prems(3,4) by (auto simp: drop_column_def Cons.prems(1))
  have "m \<in> set (map cn_Name (tb_Columns ?t))" if "m \<in> set ns" for m
  proof -
    from that Cons.prems(4) obtain d where "d \<in> set (tb_Columns t)" "cn_Name d = m" by auto
    moreover have "m \<noteq> c" using that Cons.prems(5) by auto
    ultimately show ?thesis by auto
  qed
  note left = this
  have "each (drop_column n) ns (put_table n ?t cat) =
      Inr (put_table n \<lparr>tb_Columns = filter (\<lambda>d. cn_Name d \<notin> set ns) (tb_Columns ?t),
        tb_Rows = map (filter (\<lambda>(m, v). m \<notin> set ns)) (tb_Rows ?t)\<rparr> (put_table n ?t cat))"
    by (rule Cons.IH) (use Cons.prems left map_of_name [OF Cons.prems(1)] in auto)
  moreover have "(\<lambda>(m, v). m \<noteq> c \<and> m \<notin> set ns) = (\<lambda>(m, v). m \<notin> set (c # ns))" by auto
  ultimately show ?case
    by (simp add: one put_table_twice comp_def case_prod_unfold conj_commute)
qed


definition default_tenant_row :: "time \<Rightarrow> sql_row" where
  "default_tenant_row now =
     [(''id'', Some default_tenant), (''slug'', Some (VText ''default'')),
      (''name'', Some (VText ''Default Tenant'')), (''created_at'', Some (VTime now))]"

lemma no_old_key:
  assumes "list_all (\<lambda>r. map fst r = map cn_Name jobs_columns) js"
  shows "unique_index (map (\<lambda>r. r @ added now jobs_added) js)
    \<lparr>ix_Name = n, ix_Table = t, ix_Columns = cs, ix_Unique = u, ix_Where = Some (IsNotNull ''idempotency_key'')\<rparr>"
proof -
  have "cell ''idempotency_key'' (r @ added now jobs_added) = None" if "r \<in> set js" for r
  proof -
    have "''idempotency_key'' \<notin> set (map fst r)"
      using assms that by (simp add: list_all_iff jobs_columns_def)
    then show ?thesis by (simp add: cell_append added_def jobs_added_def default_value_def) (simp add: cell_def)
  qed
  then have "filter (where_holds (Some (IsNotNull ''idempotency_key''))) (map (\<lambda>r. r @ added now jobs_added) js) = []"
    by (auto simp: filter_empty_conv where_holds_def)
  then show ?thesis by (simp add: unique_index_def)
qed

lemma tenancy_tables:
  "each (exec_ddl now) (take 4 add_tenancy_up) (old_catalog js as ds es) =
     Inr \<lparr>ct_Tables = ct_Tables (old_catalog js as ds es) @
           [(''tenants'', \<lparr>tb_Columns = tenants_columns, tb_Rows = [default_tenant_row now]\<rparr>),
            (''api_clients'', \<lparr>tb_Columns = api_clients_columns, tb_Rows = []\<rparr>)],
          ct_Indexes = old_indexes @ take 1 new_indexes\<rparr>"
  by code_simp


text \<open>The catalogue between the statements of the last file.\<close>

definition mid_catalog ::
  "table \<Rightarrow> table \<Rightarrow> table \<Rightarrow> table \<Rightarrow> sql_row list \<Rightarrow> sql_row list \<Rightarrow> index list \<Rightarrow> catalog" where
  "mid_catalog j a d e ts cs ixs =
     \<lparr>ct_Tables =
        [(''jobs'', j), (''job_attempts'', a), (''dead_letter_jobs'', d), (''job_events'', e),
         (''tenants'', \<lparr>tb_Columns = tenants_columns, tb_Rows = ts\<rparr>),
         (''api_clients'', \<lparr>tb_Columns = api_clients_columns, tb_Rows = cs\<rparr>)],
      ct_Indexes = ixs\<rparr>"

abbreviation grown :: "time \<Rightarrow> column list \<Rightarrow> column list \<Rightarrow> sql_row list \<Rightarrow> table" where
  "grown now old new rs \<equiv> \<lparr>tb_Columns = old @ new, tb_Rows = map (\<lambda>r. r @ added now new) rs\<rparr>"

lemma mid_tables [simp]:
  "map_of (ct_Tables (mid_catalog j a d e ts cs ixs)) ''jobs'' = Some j"
  "map_of (ct_Tables (mid_catalog j a d e ts cs ixs)) ''job_attempts'' = Some a"
  "map_of (ct_Tables (mid_catalog j a d e ts cs ixs)) ''dead_letter_jobs'' = Some d"
  "map_of (ct_Tables (mid_catalog j a d e ts cs ixs)) ''job_events'' = Some e"
  "map_of (ct_Tables (mid_catalog j a d e ts cs ixs)) ''tenants'' = Some \<lparr>tb_Columns = tenants_columns, tb_Rows = ts\<rparr>"
  "distinct (map fst (ct_Tables (mid_catalog j a d e ts cs ixs)))"
  "ct_Indexes (mid_catalog j a d e ts cs ixs) = ixs"
  by (simp_all add: mid_catalog_def)

lemma mid_put [simp]:
  "put_table ''jobs'' t (mid_catalog j a d e ts cs ixs) = mid_catalog t a d e ts cs ixs"
  "put_table ''job_attempts'' t (mid_catalog j a d e ts cs ixs) = mid_catalog j t d e ts cs ixs"
  "put_table ''dead_letter_jobs'' t (mid_catalog j a d e ts cs ixs) = mid_catalog j a t e ts cs ixs"
  "put_table ''job_events'' t (mid_catalog j a d e ts cs ixs) = mid_catalog j a d t ts cs ixs"
  by (simp_all add: mid_catalog_def put_table_def)

lemma mid_references [simp]:
  "cn_References c \<in> {None, Some ''tenants'', Some ''jobs''} \<Longrightarrow> \<not> undefined_reference (mid_catalog j a d e ts cs ixs) c"
  "cn_References c = Some ''tenants'' \<Longrightarrow>
     reference_ok (mid_catalog j a d e [default_tenant_row now] cs ixs) c (Some default_tenant)"
  "cn_References c = None \<Longrightarrow> reference_ok cat c v"
  "reference_ok cat c None"
  by (auto simp: undefined_reference_def reference_ok_def keys_of_def default_tenant_row_def cell_def
      mid_catalog_def split: option.splits)

lemma distinct_columns:
  "distinct (map cn_Name (jobs_columns @ jobs_added))"
  "distinct (map cn_Name (job_attempts_columns @ job_attempts_added))"
  "distinct (map cn_Name (dead_letter_jobs_columns @ dead_letter_jobs_added))"
  "distinct (map cn_Name (job_events_columns @ job_events_added))"
  by code_simp+

lemma added_columns_ok:
  fixes now cs ixs
  defines "mid \<equiv> \<lambda>j a d e. mid_catalog j a d e [default_tenant_row now] cs ixs"
  assumes "(n, new) \<in> {(''jobs'', jobs_added), (''job_attempts'', job_attempts_added),
      (''dead_letter_jobs'', dead_letter_jobs_added), (''job_events'', job_events_added)}" and "c \<in> set new"
  shows "value_ok c (default_value now c) \<and> \<not> cn_Unique c \<and> cn_References c \<noteq> Some n \<and>
    \<not> undefined_reference (mid j a d e) c \<and> reference_ok (mid j a d e) c (default_value now c)"
  using assms(2,3)
  by (auto simp: mid_def jobs_added_def job_attempts_added_def dead_letter_jobs_added_def job_events_added_def
      value_ok_def default_value_def)

lemma grow_table:
  fixes now cs ixs
  defines "mid \<equiv> \<lambda>j a d e. mid_catalog j a d e [default_tenant_row now] cs ixs"
  assumes "(n, new) \<in> {(''jobs'', jobs_added), (''job_attempts'', job_attempts_added),
      (''dead_letter_jobs'', dead_letter_jobs_added), (''job_events'', job_events_added)}"
    and "map_of (ct_Tables (mid j a d e)) n = Some \<lparr>tb_Columns = old, tb_Rows = rs\<rparr>"
    and "distinct (map cn_Name (old @ new))"
  shows "each (add_column now n) new (mid j a d e) = Inr (put_table n (grown now old new rs) (mid j a d e))"
  using add_columns [OF assms(3), of new now] assms(2,4) added_columns_ok [of n new _ now j a d e cs ixs]
  by (simp add: mid_def)

lemma tenancy_columns:
  fixes now cs ixs
  defines "mid \<equiv> \<lambda>j a d e. mid_catalog j a d e [default_tenant_row now] cs ixs"
  shows
  "each (add_column now ''jobs'') jobs_added (mid \<lparr>tb_Columns = jobs_columns, tb_Rows = js\<rparr> a d e) =
     Inr (mid (grown now jobs_columns jobs_added js) a d e)"
  "each (add_column now ''job_attempts'') job_attempts_added
       (mid j \<lparr>tb_Columns = job_attempts_columns, tb_Rows = as\<rparr> d e) =
     Inr (mid j (grown now job_attempts_columns job_attempts_added as) d e)"
  "each (add_column now ''dead_letter_jobs'') dead_letter_jobs_added
       (mid j a \<lparr>tb_Columns = dead_letter_jobs_columns, tb_Rows = ds\<rparr> e) =
     Inr (mid j a (grown now dead_letter_jobs_columns dead_letter_jobs_added ds) e)"
  "each (add_column now ''job_events'') job_events_added
       (mid j a d \<lparr>tb_Columns = job_events_columns, tb_Rows = es\<rparr>) =
     Inr (mid j a d (grown now job_events_columns job_events_added es))"
  unfolding mid_def using distinct_columns by (subst grow_table; auto)+


lemma each_append: "each f (xs @ ys) s = (case each f xs s of Inl e \<Rightarrow> Inl e | Inr s' \<Rightarrow> each f ys s')"
  by (induction xs arbitrary: s) (auto split: sum.splits)

lemma mid_index:
  assumes "map_of (ct_Tables (mid_catalog j a d e ts cs ixs)) (ix_Table ix) = Some t"
    and "ix_Name ix \<notin> set (map ix_Name ixs)"
    and "ix_Name ix \<notin> {''jobs'', ''job_attempts'', ''dead_letter_jobs'', ''job_events'', ''tenants'', ''api_clients''}"
    and "set (index_columns ix) \<subseteq> set (map cn_Name (tb_Columns t))" and "ix_Unique ix \<Longrightarrow> unique_index (tb_Rows t) ix"
  shows "create_index ix (mid_catalog j a d e ts cs ixs) = Inr (mid_catalog j a d e ts cs (ixs @ [ix]))"
  using assms by (auto simp: create_index_def has_relation_def mid_catalog_def)

lemma new_catalog_mid:
  "new_catalog js as ds es ts cs =
     mid_catalog \<lparr>tb_Columns = jobs_columns @ jobs_added, tb_Rows = js\<rparr>
       \<lparr>tb_Columns = job_attempts_columns @ job_attempts_added, tb_Rows = as\<rparr>
       \<lparr>tb_Columns = dead_letter_jobs_columns @ dead_letter_jobs_added, tb_Rows = ds\<rparr>
       \<lparr>tb_Columns = job_events_columns @ job_events_added, tb_Rows = es\<rparr> ts cs (old_indexes @ new_indexes)"
  by (simp add: new_catalog_def mid_catalog_def)

lemma tenancy_up:
  assumes "list_all (\<lambda>r. map fst r = map cn_Name jobs_columns) js"
  shows "run_file now add_tenancy_up (old_catalog js as ds es) =
    Inr (new_catalog (map (\<lambda>r. r @ added now jobs_added) js) (map (\<lambda>r. r @ added now job_attempts_added) as)
      (map (\<lambda>r. r @ added now dead_letter_jobs_added) ds) (map (\<lambda>r. r @ added now job_events_added) es)
      [default_tenant_row now] [])"
proof -
  let ?ixs = "\<lambda>n. old_indexes @ take n new_indexes"
  let ?mid = "\<lambda>j a d e n. mid_catalog j a d e [default_tenant_row now] [] (?ixs n)"
  let ?J = "grown now jobs_columns jobs_added js"
  let ?A = "grown now job_attempts_columns job_attempts_added as"
  let ?D = "grown now dead_letter_jobs_columns dead_letter_jobs_added ds"
  let ?E = "grown now job_events_columns job_events_added es"
  have start: "each (exec_ddl now) (take 4 add_tenancy_up) (old_catalog js as ds es) =
      Inr (?mid \<lparr>tb_Columns = jobs_columns, tb_Rows = js\<rparr> \<lparr>tb_Columns = job_attempts_columns, tb_Rows = as\<rparr>
        \<lparr>tb_Columns = dead_letter_jobs_columns, tb_Rows = ds\<rparr> \<lparr>tb_Columns = job_events_columns, tb_Rows = es\<rparr> 1)"
    unfolding tenancy_tables by (simp add: mid_catalog_def old_catalog_def)
  have ix: "create_index (new_indexes ! n) (?mid ?J a d e n) = Inr (?mid ?J a d e m)"
    if "(n, m) \<in> {(1, 2), (2, 3)}" for n m a d e
  proof (rule mid_index [THEN trans])
    show "set (index_columns (new_indexes ! n)) \<subseteq> set (map cn_Name (tb_Columns ?J))"
      using that by (elim insertE emptyE; simp only: table.select_convs prod.inject) code_simp+
  qed (use that no_old_key [OF assms] in \<open>auto simp: new_indexes_def old_indexes_def mid_catalog_def\<close>)
  have ix': "create_index (new_indexes ! n) (?mid ?J ?A ?D ?E n) = Inr (?mid ?J ?A ?D ?E m)"
    if "(n, m) \<in> {(3, 4), (4, 5)}" for n m
  proof (rule mid_index [THEN trans])
    show "set (index_columns (new_indexes ! n)) \<subseteq> set (map cn_Name (tb_Columns ?E))"
      using that by (elim insertE emptyE; simp only: table.select_convs prod.inject) code_simp+
  qed (use that in \<open>auto simp: new_indexes_def old_indexes_def mid_catalog_def\<close>)
  have rest: "drop 4 add_tenancy_up =
      [AddColumns ''jobs'' jobs_added, CreateIndex (new_indexes ! 1), CreateIndex (new_indexes ! 2),
       AddColumns ''job_attempts'' job_attempts_added, AddColumns ''dead_letter_jobs'' dead_letter_jobs_added,
       AddColumns ''job_events'' job_events_added, CreateIndex (new_indexes ! 3), CreateIndex (new_indexes ! 4)]"
    by (simp add: add_tenancy_up_def new_indexes_def)
  have "each (exec_ddl now) (take 4 add_tenancy_up @ drop 4 add_tenancy_up) (old_catalog js as ds es) =
      Inr (?mid ?J ?A ?D ?E 5)"
    unfolding each_append start rest
    by (simp only: each.simps exec_ddl.simps sum.case tenancy_columns ix [of 1 2] ix [of 2 3] ix' [of 3 4]
        ix' [of 4 5] insert_iff simp_thms)
  then show ?thesis by (simp add: run_file_def new_catalog_mid new_indexes_def)
qed


text \<open>Undoing it, with whatever has been written since.\<close>

abbreviation stripped :: "column list \<Rightarrow> sql_row list \<Rightarrow> sql_row list" where
  "stripped new rs \<equiv> map (filter (\<lambda>(m, v). m \<notin> set (map cn_Name new))) rs"

lemma tenancy_down:
  "run_file now add_tenancy_down (new_catalog js as ds es ts cs) =
     Inr (old_catalog (stripped jobs_added js) (stripped job_attempts_added as)
       (stripped dead_letter_jobs_added ds) (stripped job_events_added es))"
proof -
  let ?mid = "\<lambda>j a d e ixs. mid_catalog j a d e ts cs ixs"
  let ?ns = "\<lambda>new. rev (map cn_Name new)"
  have drop: "each (drop_column n) (?ns new) (?mid j a d e ixs) =
      Inr (put_table n \<lparr>tb_Columns = old, tb_Rows = stripped new rs\<rparr> (?mid j a d e ixs))"
    if "map_of (ct_Tables (?mid j a d e ixs)) n = Some \<lparr>tb_Columns = old @ new, tb_Rows = rs\<rparr>"
      "distinct (map cn_Name (old @ new))" "''id'' \<notin> set (map cn_Name new)"
      "\<forall>ix\<in>set ixs. ix_Table ix = n \<longrightarrow> set (index_columns ix) \<inter> set (map cn_Name new) = {}"
    for n new old rs j a d e ixs
  proof -
    have "filter (\<lambda>d. cn_Name d \<notin> set (?ns new)) (old @ new) = old"
      using that(2) by (auto simp: filter_id_conv filter_empty_conv)
    then show ?thesis
      using drop_columns [OF that(1), of "?ns new"] that by auto
  qed
  have stmts: "take 8 add_tenancy_down =
      [DropIndex ''idx_job_events_tenant_job'', DropIndex ''idx_job_events_outbox'',
       DropColumns ''job_events'' (?ns job_events_added), DropColumns ''dead_letter_jobs'' (?ns dead_letter_jobs_added),
       DropColumns ''job_attempts'' (?ns job_attempts_added), DropIndex ''idx_jobs_tenant_status_run_at'',
       DropIndex ''uq_jobs_tenant_idempotency'', DropColumns ''jobs'' (?ns jobs_added)]"
    by (simp add: add_tenancy_down_def column_defs)
  have di: "drop_index n (?mid j a d e ixs) = Inr (?mid j a d e (filter (\<lambda>ix. ix_Name ix \<noteq> n) ixs))" for n j a d e ixs
    by (simp add: drop_index_def mid_catalog_def)
  have ixs:
    "filter (\<lambda>ix. ix_Name ix \<noteq> ''idx_job_events_tenant_job'') (old_indexes @ new_indexes) = old_indexes @ take 4 new_indexes"
    "filter (\<lambda>ix. ix_Name ix \<noteq> ''idx_job_events_outbox'') (old_indexes @ take 4 new_indexes) = old_indexes @ take 3 new_indexes"
    "filter (\<lambda>ix. ix_Name ix \<noteq> ''idx_jobs_tenant_status_run_at'') (old_indexes @ take 3 new_indexes) =
       old_indexes @ take 2 new_indexes"
    "filter (\<lambda>ix. ix_Name ix \<noteq> ''uq_jobs_tenant_idempotency'') (old_indexes @ take 2 new_indexes) =
       old_indexes @ take 1 new_indexes"
    by code_simp+
  have free:
    "\<forall>ix\<in>set (old_indexes @ take 3 new_indexes). ix_Table ix = ''job_events'' \<longrightarrow>
       set (index_columns ix) \<inter> set (map cn_Name job_events_added) = {}"
    "\<forall>ix\<in>set (old_indexes @ take 3 new_indexes). ix_Table ix = ''dead_letter_jobs'' \<longrightarrow>
       set (index_columns ix) \<inter> set (map cn_Name dead_letter_jobs_added) = {}"
    "\<forall>ix\<in>set (old_indexes @ take 3 new_indexes). ix_Table ix = ''job_attempts'' \<longrightarrow>
       set (index_columns ix) \<inter> set (map cn_Name job_attempts_added) = {}"
    "\<forall>ix\<in>set (old_indexes @ take 1 new_indexes). ix_Table ix = ''jobs'' \<longrightarrow>
       set (index_columns ix) \<inter> set (map cn_Name jobs_added) = {}"
    by code_simp+
  have no_id: "''id'' \<notin> set (map cn_Name job_events_added)" "''id'' \<notin> set (map cn_Name dead_letter_jobs_added)"
    "''id'' \<notin> set (map cn_Name job_attempts_added)" "''id'' \<notin> set (map cn_Name jobs_added)"
    by code_simp+
  have cols:
    "each (drop_column ''job_events'') (?ns job_events_added)
       (?mid j a d \<lparr>tb_Columns = job_events_columns @ job_events_added, tb_Rows = es\<rparr> (old_indexes @ take 3 new_indexes)) =
     Inr (?mid j a d \<lparr>tb_Columns = job_events_columns, tb_Rows = stripped job_events_added es\<rparr> (old_indexes @ take 3 new_indexes))"
    "each (drop_column ''dead_letter_jobs'') (?ns dead_letter_jobs_added)
       (?mid j a \<lparr>tb_Columns = dead_letter_jobs_columns @ dead_letter_jobs_added, tb_Rows = ds\<rparr> e
         (old_indexes @ take 3 new_indexes)) =
     Inr (?mid j a \<lparr>tb_Columns = dead_letter_jobs_columns, tb_Rows = stripped dead_letter_jobs_added ds\<rparr> e
         (old_indexes @ take 3 new_indexes))"
    "each (drop_column ''job_attempts'') (?ns job_attempts_added)
       (?mid j \<lparr>tb_Columns = job_attempts_columns @ job_attempts_added, tb_Rows = as\<rparr> d e (old_indexes @ take 3 new_indexes)) =
     Inr (?mid j \<lparr>tb_Columns = job_attempts_columns, tb_Rows = stripped job_attempts_added as\<rparr> d e
       (old_indexes @ take 3 new_indexes))"
    "each (drop_column ''jobs'') (?ns jobs_added)
       (?mid \<lparr>tb_Columns = jobs_columns @ jobs_added, tb_Rows = js\<rparr> a d e (old_indexes @ take 1 new_indexes)) =
     Inr (?mid \<lparr>tb_Columns = jobs_columns, tb_Rows = stripped jobs_added js\<rparr> a d e (old_indexes @ take 1 new_indexes))"
    for j a d e
    using drop [OF _ distinct_columns(4) no_id(1) free(1)] drop [OF _ distinct_columns(3) no_id(2) free(2)]
      drop [OF _ distinct_columns(2) no_id(3) free(3)] drop [OF _ distinct_columns(1) no_id(4) free(4)]
    by simp_all
  have tables: "each (exec_ddl now) [DropTable ''api_clients'', DropTable ''tenants'']
      (?mid \<lparr>tb_Columns = jobs_columns, tb_Rows = js'\<rparr> \<lparr>tb_Columns = job_attempts_columns, tb_Rows = as'\<rparr>
        \<lparr>tb_Columns = dead_letter_jobs_columns, tb_Rows = ds'\<rparr> \<lparr>tb_Columns = job_events_columns, tb_Rows = es'\<rparr>
        (old_indexes @ take 1 new_indexes)) = Inr (old_catalog js' as' ds' es')" for js' as' ds' es'
    by code_simp
  have split: "add_tenancy_down = take 8 add_tenancy_down @ [DropTable ''api_clients'', DropTable ''tenants'']"
    by (simp add: add_tenancy_down_def)
  have eight: "each (exec_ddl now) (take 8 add_tenancy_down) (new_catalog js as ds es ts cs) =
      Inr (?mid \<lparr>tb_Columns = jobs_columns, tb_Rows = stripped jobs_added js\<rparr>
        \<lparr>tb_Columns = job_attempts_columns, tb_Rows = stripped job_attempts_added as\<rparr>
        \<lparr>tb_Columns = dead_letter_jobs_columns, tb_Rows = stripped dead_letter_jobs_added ds\<rparr>
        \<lparr>tb_Columns = job_events_columns, tb_Rows = stripped job_events_added es\<rparr> (old_indexes @ take 1 new_indexes))"
    unfolding stmts new_catalog_mid by (simp only: each.simps exec_ddl.simps sum.case di ixs cols)
  show ?thesis unfolding run_file_def by (subst split) (simp only: each_append eight sum.case tables)
qed


text \<open>Running it again changes nothing.\<close>

lemma add_nothing:
  assumes "map_of (ct_Tables cat) n = Some t" and "set (map cn_Name cs) \<subseteq> set (map cn_Name (tb_Columns t))"
  shows "each (add_column now n) cs cat = Inr cat"
  using assms(2) by (induction cs) (simp_all add: add_column_def assms(1))

lemma tenancy_again:
  assumes "Some default_tenant \<in> set (map (cell ''id'') ts)"
  shows "run_file now add_tenancy_up (new_catalog js as ds es ts cs) = Inr (new_catalog js as ds es ts cs)"
proof -
  let ?cat = "new_catalog js as ds es ts cs"
  have ins: "insert_new now ''tenants'' [(''id'', default_tenant), (''slug'', VText ''default''),
      (''name'', VText ''Default Tenant'')] ?cat = Inr ?cat"
    using assms
    by (simp add: insert_new_def new_catalog_def tenants_columns_def default_value_def cell_def value_ok_def Let_def)
  have tb: "create_table ''tenants'' cl ?cat = Inr ?cat" "create_table ''api_clients'' cl ?cat = Inr ?cat" for cl
    by (simp_all add: create_table_def has_relation_def new_catalog_def)
  have ix: "create_index (new_indexes ! n) ?cat = Inr ?cat" if "n < 5" for n
  proof -
    have "new_indexes ! n \<in> set new_indexes" using that by (intro nth_mem) (simp add: new_indexes_def)
    then have "has_relation ?cat (ix_Name (new_indexes ! n))" by (simp add: has_relation_def new_catalog_def)
    then show ?thesis by (simp add: create_index_def)
  qed
  have ixs: "create_index (new_indexes ! 0) ?cat = Inr ?cat" "create_index (new_indexes ! 1) ?cat = Inr ?cat"
    "create_index (new_indexes ! 2) ?cat = Inr ?cat" "create_index (new_indexes ! 3) ?cat = Inr ?cat"
    "create_index (new_indexes ! 4) ?cat = Inr ?cat"
    by (rule ix, simp)+
  have co: "each (add_column now ''jobs'') jobs_added ?cat = Inr ?cat"
    "each (add_column now ''job_attempts'') job_attempts_added ?cat = Inr ?cat"
    "each (add_column now ''dead_letter_jobs'') dead_letter_jobs_added ?cat = Inr ?cat"
    "each (add_column now ''job_events'') job_events_added ?cat = Inr ?cat"
    using add_nothing [of ?cat "''jobs''" "\<lparr>tb_Columns = jobs_columns @ jobs_added, tb_Rows = js\<rparr>" jobs_added now]
      add_nothing [of ?cat "''job_attempts''" "\<lparr>tb_Columns = job_attempts_columns @ job_attempts_added, tb_Rows = as\<rparr>"
        job_attempts_added now]
      add_nothing [of ?cat "''dead_letter_jobs''"
        "\<lparr>tb_Columns = dead_letter_jobs_columns @ dead_letter_jobs_added, tb_Rows = ds\<rparr>" dead_letter_jobs_added now]
      add_nothing [of ?cat "''job_events''" "\<lparr>tb_Columns = job_events_columns @ job_events_added, tb_Rows = es\<rparr>"
        job_events_added now]
    by (simp_all add: new_catalog_mid)
  have stmts: "add_tenancy_up =
      [CreateTable ''tenants'' tenants_columns,
       InsertNew ''tenants'' [(''id'', default_tenant), (''slug'', VText ''default''), (''name'', VText ''Default Tenant'')],
       CreateTable ''api_clients'' api_clients_columns, CreateIndex (new_indexes ! 0),
       AddColumns ''jobs'' jobs_added, CreateIndex (new_indexes ! 1), CreateIndex (new_indexes ! 2),
       AddColumns ''job_attempts'' job_attempts_added, AddColumns ''dead_letter_jobs'' dead_letter_jobs_added,
       AddColumns ''job_events'' job_events_added, CreateIndex (new_indexes ! 3), CreateIndex (new_indexes ! 4)]"
    by (simp add: add_tenancy_up_def new_indexes_def)
  show ?thesis
    unfolding run_file_def stmts
    by (simp only: each.simps exec_ddl.simps sum.case tb ins co ixs)
qed

lemma stripped_added:
  assumes "list_all (\<lambda>r. map fst r = map cn_Name old) rs" and "distinct (map cn_Name (old @ new))"
  shows "stripped new (map (\<lambda>r. r @ added now new) rs) = rs"
proof -
  have "filter (\<lambda>(m, v). m \<notin> set (map cn_Name new)) (r @ added now new) = r" if "r \<in> set rs" for r
  proof -
    have "set (map fst r) = set (map cn_Name old)" using assms(1) that by (simp add: list_all_iff)
    moreover have "set (map cn_Name old) \<inter> set (map cn_Name new) = {}" using assms(2) by simp
    moreover have "fst x \<in> set (map fst r)" if "x \<in> set r" for x using that by simp
    ultimately have "fst x \<notin> set (map cn_Name new)" if "x \<in> set r" for x using that by blast
    then have "filter (\<lambda>(m, v). m \<notin> set (map cn_Name new)) r = r" by (simp add: filter_id_conv case_prod_beta)
    then show ?thesis by (simp add: filter_empty_conv added_def)
  qed
  then show ?thesis by (simp add: comp_def map_idI)
qed


lemma old_names:
  assumes "catalog_ok (old_catalog js as ds es)"
  shows "list_all (\<lambda>r. map fst r = map cn_Name jobs_columns) js"
    and "list_all (\<lambda>r. map fst r = map cn_Name job_attempts_columns) as"
    and "list_all (\<lambda>r. map fst r = map cn_Name dead_letter_jobs_columns) ds"
    and "list_all (\<lambda>r. map fst r = map cn_Name job_events_columns) es"
  using assms by (simp_all add: catalog_ok_def old_catalog_def table_ok_def row_ok_def list_all_iff)

text \<open>The tenant of every row of a table.\<close>

definition all_in_tenant :: "sql_value \<Rightarrow> catalog \<Rightarrow> string \<Rightarrow> bool" where
  "all_in_tenant v cat n =
     (case map_of (ct_Tables cat) n of
        None \<Rightarrow> False
      | Some t \<Rightarrow> list_all (\<lambda>r. cell ''tenant_id'' r = Some v) (tb_Rows t))"

lemma grown_tenant:
  assumes "list_all (\<lambda>r. map fst r = map cn_Name old) rs" and "''tenant_id'' \<notin> set (map cn_Name old)"
    and "cell ''tenant_id'' (added now new) = Some v"
  shows "list_all (\<lambda>r. cell ''tenant_id'' r = Some v) (map (\<lambda>r. r @ added now new) rs)"
proof -
  have "''tenant_id'' \<notin> fst ` set r" if "r \<in> set rs" for r
  proof -
    have "set (map fst r) = set (map cn_Name old)" using assms(1) that by (simp add: list_all_iff)
    with assms(2) show ?thesis by simp
  qed
  then show ?thesis using assms(3) by (simp add: list_all_iff cell_append)
qed

text \<open>
  C16: the last migration keeps the data of an older installation.  On any rows that satisfy the constraints
  of the first four migrations it succeeds, the rows satisfy all constraints of the new schema and belong to
  the default tenant; running it again changes nothing, and its down file gives back the old database.
\<close>

theorem tenancy_migration:
  assumes "catalog_ok (old_catalog js as ds es)"
  shows "\<exists>cat. run_file now add_tenancy_up (old_catalog js as ds es) = Inr cat \<and> catalog_ok cat \<and>
    list_all (all_in_tenant (VUuid DefaultTenantID) cat) [''jobs'', ''job_attempts'', ''dead_letter_jobs'', ''job_events''] \<and>
    run_file now' add_tenancy_up cat = Inr cat \<and>
    run_file now' add_tenancy_down cat = Inr (old_catalog js as ds es)"
proof -
  note names = old_names [OF assms]
  let ?cat = "new_catalog (map (\<lambda>r. r @ added now jobs_added) js) (map (\<lambda>r. r @ added now job_attempts_added) as)
      (map (\<lambda>r. r @ added now dead_letter_jobs_added) ds) (map (\<lambda>r. r @ added now job_events_added) es)
      [default_tenant_row now] []"
  note up = tenancy_up [OF names(1), of now as ds es]
  have t: "cell ''tenant_id'' (added now new) = Some default_tenant"
    if "new \<in> {jobs_added, job_attempts_added, dead_letter_jobs_added, job_events_added}" for new
    using that by (auto simp: added_def cell_def default_value_def column_defs)
  have n: "''tenant_id'' \<notin> set (map cn_Name old)"
    if "old \<in> {jobs_columns, job_attempts_columns, dead_letter_jobs_columns, job_events_columns}" for old
    using that by (auto simp: column_defs)
  have "list_all (all_in_tenant (VUuid DefaultTenantID) ?cat) [''jobs'', ''job_attempts'', ''dead_letter_jobs'', ''job_events'']"
    using grown_tenant [OF names(1) n t] grown_tenant [OF names(2) n t] grown_tenant [OF names(3) n t]
      grown_tenant [OF names(4) n t]
    by (simp add: all_in_tenant_def new_catalog_mid DefaultTenantID_def)
  moreover have "run_file now' add_tenancy_up ?cat = Inr ?cat"
    by (rule tenancy_again) (simp add: default_tenant_row_def cell_def)
  moreover have "run_file now' add_tenancy_down ?cat = Inr (old_catalog js as ds es)"
    unfolding tenancy_down
    by (simp only: stripped_added [OF names(1) distinct_columns(1)] stripped_added [OF names(2) distinct_columns(2)]
        stripped_added [OF names(3) distinct_columns(3)] stripped_added [OF names(4) distinct_columns(4)])
  ultimately show ?thesis using up run_file_ok [OF assms up] by blast
qed


text \<open>Taking all migrations back drops everything, whatever the tables hold.\<close>

lemma migrations_undone: "migrate_down now (new_catalog js as ds es ts cs) = Inr no_catalog"
proof -
  have rest: "each (run_file now) (map snd (rev (take 4 migrations))) (old_catalog js' as' ds' es') = Inr no_catalog"
    for js' as' ds' es'
    by code_simp
  have "map snd (rev migrations) = add_tenancy_down # map snd (rev (take 4 migrations))"
    by (simp add: migrations_def)
  then show ?thesis by (simp add: migrate_down_def tenancy_down rest)
qed

definition sample_old_job :: sql_row where
  "sample_old_job =
     [(''id'', Some (VUuid 7)), (''name'', Some (VText ''report'')), (''job_type'', Some (VText ''CALL_WEBHOOK'')),
      (''payload'', Some (VJson ''{}'')), (''status'', Some (VText ''RUNNING'')), (''priority'', Some (VInt 5)),
      (''run_at'', Some (VTime 10)), (''locked_until'', Some (VTime 40)), (''locked_by'', Some (VText ''w1'')),
      (''retry_count'', Some (VInt 0)), (''max_retries'', Some (VInt 3)), (''retry_backoff_seconds'', Some (VInt 30)),
      (''timeout_seconds'', Some (VInt 300)), (''last_error'', None), (''created_by'', None),
      (''created_at'', Some (VTime 1)), (''updated_at'', Some (VTime 11)), (''completed_at'', None),
      (''failed_at'', None), (''cancelled_at'', None)]"

definition sample_old_attempt :: sql_row where
  "sample_old_attempt =
     [(''id'', Some (VUuid 8)), (''job_id'', Some (VUuid 7)), (''worker_id'', Some (VText ''w1'')),
      (''attempt_number'', Some (VInt 1)), (''status'', Some (VText ''RUNNING'')), (''started_at'', Some (VTime 11)),
      (''completed_at'', None), (''failed_at'', None), (''error_message'', None), (''execution_duration_ms'', None),
      (''created_at'', Some (VTime 11))]"

lemma sample_old_ok: "catalog_ok (old_catalog [sample_old_job] [sample_old_attempt] [] [])"
  by code_simp

theorem tenancy_migration_witness:
  "\<exists>cat. run_file 50 add_tenancy_up (old_catalog [sample_old_job] [sample_old_attempt] [] []) = Inr cat \<and>
     all_in_tenant (VUuid DefaultTenantID) cat ''jobs'' \<and>
     run_file 60 add_tenancy_down cat = Inr (old_catalog [sample_old_job] [sample_old_attempt] [] [])"
proof -
  from tenancy_migration [OF sample_old_ok, of 50 60] obtain cat where
    "run_file 50 add_tenancy_up (old_catalog [sample_old_job] [sample_old_attempt] [] []) = Inr cat"
    and "list_all (all_in_tenant (VUuid DefaultTenantID) cat) [''jobs'', ''job_attempts'', ''dead_letter_jobs'', ''job_events'']"
    and "run_file 60 add_tenancy_down cat = Inr (old_catalog [sample_old_job] [sample_old_attempt] [] [])"
    by blast
  then show ?thesis by auto
qed

end
