(* ===== verification/Schema_Conformance.thy ===== *)
theory Schema_Conformance
  imports System_Calls Schema_Migration Idempotency_Properties
begin

text \<open>
  The tables of the model as rows of the migrated schema, and that every state the system reaches satisfies
  all constraints the migrations declare: column types, \<open>NOT NULL\<close>, \<open>CHECK\<close>, primary and unique keys, the
  unique index on idempotency keys and every foreign key.
\<close>

section \<open>The rows of the model\<close>

primrec attempt_status_string :: "attempt_status \<Rightarrow> string" where
  "attempt_status_string AttemptRunning = ''RUNNING''"
| "attempt_status_string AttemptSucceeded = ''SUCCEEDED''"
| "attempt_status_string AttemptFailed = ''FAILED''"
| "attempt_status_string AttemptCancelled = ''CANCELLED''"

definition jobs_sql :: "jobs_row \<Rightarrow> sql_row" where
  "jobs_sql r =
     [(''id'', Some (VUuid (j_ID r))),
      (''name'', Some (VText (j_Name r))),
      (''job_type'', Some (VText (j_JobType r))),
      (''payload'', Some (VJson (j_Payload r))),
      (''status'', Some (VText (status_string (j_Status r)))),
      (''priority'', Some (VInt (j_Priority r))),
      (''run_at'', Some (VTime (j_RunAt r))),
      (''locked_until'', map_option VTime (j_LockedUntil r)),
      (''locked_by'', map_option VText (j_LockedBy r)),
      (''retry_count'', Some (VInt (j_RetryCount r))),
      (''max_retries'', Some (VInt (j_MaxRetries r))),
      (''retry_backoff_seconds'', Some (VInt (j_RetryBackoffSeconds r))),
      (''timeout_seconds'', Some (VInt (j_TimeoutSeconds r))),
      (''last_error'', map_option VText (j_LastError r)),
      (''created_by'', map_option VText (j_CreatedBy r)),
      (''created_at'', Some (VTime (j_CreatedAt r))),
      (''updated_at'', Some (VTime (j_UpdatedAt r))),
      (''completed_at'', map_option VTime (j_CompletedAt r)),
      (''failed_at'', map_option VTime (j_FailedAt r)),
      (''cancelled_at'', map_option VTime (j_CancelledAt r)),
      (''tenant_id'', Some (VUuid (j_TenantID r))),
      (''idempotency_key'', map_option VText (j_IdempotencyKey r)),
      (''request_hash'', map_option VText (j_RequestHash r)),
      (''source_dead_letter_id'', map_option VUuid (r_SourceDeadLetterID r))]"

definition job_attempts_sql :: "attempts_row \<Rightarrow> sql_row" where
  "job_attempts_sql a =
     [(''id'', Some (VUuid (a_ID a))),
      (''job_id'', Some (VUuid (a_JobID a))),
      (''worker_id'', Some (VText (a_WorkerID a))),
      (''attempt_number'', Some (VInt (a_AttemptNumber a))),
      (''status'', Some (VText (attempt_status_string (a_Status a)))),
      (''started_at'', Some (VTime (a_StartedAt a))),
      (''completed_at'', map_option VTime (a_CompletedAt a)),
      (''failed_at'', map_option VTime (a_FailedAt a)),
      (''error_message'', map_option VText (a_ErrorMessage a)),
      (''execution_duration_ms'', map_option VInt (a_ExecutionDurationMS a)),
      (''created_at'', Some (VTime (a_CreatedAt a))),
      (''tenant_id'', Some (VUuid (a_TenantID a))),
      (''result'', map_option VJson (a_Result a)),
      (''error_code'', map_option VText (a_ErrorCode a)),
      (''retryable'', map_option VBool (a_Retryable a))]"

definition dead_letter_jobs_sql :: "DeadLetterJob \<Rightarrow> sql_row" where
  "dead_letter_jobs_sql x =
     [(''id'', Some (VUuid (d_ID x))),
      (''original_job_id'', Some (VUuid (d_OriginalJobID x))),
      (''name'', Some (VText (d_Name x))),
      (''job_type'', Some (VText (d_JobType x))),
      (''payload'', Some (VJson (d_Payload x))),
      (''final_error'', Some (VText (d_FinalError x))),
      (''retry_count'', Some (VInt (d_RetryCount x))),
      (''failed_at'', Some (VTime (d_FailedAt x))),
      (''created_at'', Some (VTime (d_CreatedAt x))),
      (''tenant_id'', Some (VUuid (d_TenantID x))),
      (''requeued_at'', map_option VTime (d_RequeuedAt x)),
      (''requeued_job_id'', map_option VUuid (d_RequeuedJobID x))]"

definition job_events_sql :: "events_row \<Rightarrow> sql_row" where
  "job_events_sql e =
     [(''id'', Some (VUuid (e_ID e))),
      (''job_id'', Some (VUuid (e_JobID e))),
      (''event_type'', Some (VText (e_EventType e))),
      (''source'', Some (VText (e_Source e))),
      (''payload'', Some (VObject (e_Payload e))),
      (''created_at'', Some (VTime (e_CreatedAt e))),
      (''tenant_id'', Some (VUuid (e_TenantID e))),
      (''schema_version'', Some (VInt (e_SchemaVersion e))),
      (''correlation_id'', map_option VText (e_CorrelationID e)),
      (''causation_id'', map_option VUuid (e_CausationID e)),
      (''published_at'', map_option VTime (e_PublishedAt e)),
      (''publish_attempts'', Some (VInt (e_PublishAttempts e))),
      (''next_publish_at'', Some (VTime (e_NextPublishAt e))),
      (''last_publish_error'', map_option VText (e_LastPublishError e)),
      (''claimed_by'', map_option VText (e_ClaimedBy e)),
      (''claimed_until'', map_option VTime (e_ClaimedUntil e))]"

definition tenants_sql :: "tenants_row \<Rightarrow> sql_row" where
  "tenants_sql t =
     [(''id'', Some (VUuid (t_ID t))), (''slug'', Some (VText (t_Slug t))), (''name'', Some (VText (t_Name t))),
      (''created_at'', Some (VTime (t_CreatedAt t)))]"

definition api_clients_sql :: "api_clients_row \<Rightarrow> sql_row" where
  "api_clients_sql c =
     [(''id'', Some (VUuid (c_ID c))),
      (''tenant_id'', Some (VUuid (c_TenantID c))),
      (''name'', Some (VText (c_Name c))),
      (''key_prefix'', Some (VText (c_KeyPrefix c))),
      (''key_hash'', Some (VText (c_KeyHash c))),
      (''role'', Some (VText (c_Role c))),
      (''enabled'', Some (VBool (c_Enabled c))),
      (''created_at'', Some (VTime (c_CreatedAt c))),
      (''last_used_at'', map_option VTime (c_LastUsedAt c)),
      (''revoked_at'', map_option VTime (c_RevokedAt c))]"

definition catalog_of :: "db \<Rightarrow> catalog" where
  "catalog_of d =
     new_catalog (map jobs_sql (jobs d)) (map job_attempts_sql (job_attempts d))
       (map dead_letter_jobs_sql (dead_letter_jobs d)) (map job_events_sql (job_events d))
       (map tenants_sql (tenants d)) (map api_clients_sql (api_clients d))"

lemmas sql_defs = jobs_sql_def job_attempts_sql_def dead_letter_jobs_sql_def job_events_sql_def tenants_sql_def
  api_clients_sql_def

section \<open>What the constraints ask of a database\<close>

definition tenancy_ok :: "db \<Rightarrow> bool" where
  "tenancy_ok d \<longleftrightarrow>
     set (map j_TenantID (jobs d)) \<subseteq> set (map t_ID (tenants d)) \<and>
     (\<forall>x\<in>set (dead_letter_jobs d). set_option (d_RequeuedJobID x) \<subseteq> set (map j_ID (jobs d)))"

definition clients_ok :: "db \<Rightarrow> bool" where
  "clients_ok d \<longleftrightarrow>
     distinct (map t_ID (tenants d)) \<and> distinct (map t_Slug (tenants d)) \<and>
     distinct (map c_ID (api_clients d)) \<and> distinct (map c_KeyHash (api_clients d)) \<and>
     set (map c_TenantID (api_clients d)) \<subseteq> set (map t_ID (tenants d)) \<and>
     set (map c_Role (api_clients d)) \<subseteq> {RoleViewer, RoleOperator, RoleAdmin}"

lemma row_okI:
  assumes "distinct (map cn_Name cs)" and "map fst r = map cn_Name cs"
    and "list_all2 (\<lambda>c v. value_ok c v \<and> reference_ok cat c v) cs (map snd r)"
  shows "row_ok cat cs r"
proof -
  have "cell (cn_Name (cs ! i)) r = map snd r ! i" if i: "i < length cs" for i
  proof -
    have l: "length r = length cs" using arg_cong [OF assms(2), of length] by simp
    have "r ! i = (cn_Name (cs ! i), map snd r ! i)"
      using i l arg_cong [OF assms(2), of "\<lambda>xs. xs ! i"] by (simp add: prod_eq_iff)
    then have "(cn_Name (cs ! i), map snd r ! i) \<in> set r" using i l by (metis nth_mem)
    with assms(1,2) show ?thesis by (simp add: cell_def)
  qed
  with assms(2,3) show ?thesis by (auto simp: row_ok_def list_all_length list_all2_conv_all_nth)
qed

lemma keys_of_catalog:
  "keys_of (catalog_of d) ''jobs'' = map (\<lambda>r. Some (VUuid (j_ID r))) (jobs d)"
  "keys_of (catalog_of d) ''tenants'' = map (\<lambda>t. Some (VUuid (t_ID t))) (tenants d)"
  by (simp_all add: keys_of_def catalog_of_def new_catalog_mid sql_defs cell_def comp_def)

lemma reference_simps [simp]:
  "cn_References c = Some ''jobs'' \<Longrightarrow>
     reference_ok (catalog_of d) c (Some (VUuid i)) = (i \<in> set (map j_ID (jobs d)))"
  "cn_References c = Some ''tenants'' \<Longrightarrow>
     reference_ok (catalog_of d) c (Some (VUuid i)) = (i \<in> set (map t_ID (tenants d)))"
  by (auto simp: reference_ok_def keys_of_catalog)

lemma value_simps [simp]:
  "value_ok c None = (\<not> cn_NotNull c)"
  "value_ok c (Some x) = (has_type (cn_Type c) x \<and> (case cn_Check c of None \<Rightarrow> True | Some xs \<Rightarrow> x \<in> set xs))"
  "\<not> cn_NotNull c \<Longrightarrow> cn_Check c = None \<Longrightarrow> value_ok c (map_option f v) = (\<forall>x\<in>set_option v. has_type (cn_Type c) (f x))"
  by (auto simp: value_ok_def split: option.splits)

lemma unique_id:
  assumes "\<And>r. cell n (f r) = Some (g (k r))" and "inj g"
  shows "unique_column (map f rs) n = distinct (map k rs)"
proof -
  have "filter (\<lambda>v. v \<noteq> None) (map (cell n) (map f rs)) = map (Some \<circ> g) (map k rs)"
    by (simp add: assms(1) comp_def)
  moreover have "inj_on (Some \<circ> g) A" for A using assms(2) by (auto simp: inj_on_def)
  ultimately show ?thesis by (simp only: unique_column_def distinct_map [of "Some \<circ> g"]) simp
qed

lemma sql_injs: "inj VUuid" "inj VText"
  by (simp_all add: inj_def)

text \<open>Each table.\<close>

lemma distinct_all_columns:
  "distinct (map cn_Name tenants_columns)" "distinct (map cn_Name api_clients_columns)"
  by code_simp+

lemma jobs_conform:
  assumes "distinct (map j_ID (jobs d))" and "tenancy_ok d"
  shows "table_ok (catalog_of d) \<lparr>tb_Columns = jobs_columns @ jobs_added, tb_Rows = map jobs_sql (jobs d)\<rparr>"
proof -
  have "row_ok (catalog_of d) (jobs_columns @ jobs_added) (jobs_sql r)" if "r \<in> set (jobs d)" for r
    using that assms(2)
    by (intro row_okI distinct_columns) (auto simp: jobs_sql_def jobs_columns_def jobs_added_def tenancy_ok_def)
  moreover have "unique_column (map jobs_sql (jobs d)) ''id''"
    using assms(1) by (subst unique_id [where g = VUuid and k = j_ID]) (simp_all add: sql_injs jobs_sql_def cell_def)
  ultimately show ?thesis
    using distinct_columns(1) by (simp add: table_ok_def list_all_iff) (simp add: jobs_columns_def jobs_added_def)
qed


lemma job_keys:
  assumes "refs_ok d" and "tenancy_ok d"
  shows "a \<in> set (job_attempts d) \<Longrightarrow> a_JobID a \<in> set (map j_ID (jobs d)) \<and> a_TenantID a \<in> set (map t_ID (tenants d))"
    and "x \<in> set (dead_letter_jobs d) \<Longrightarrow> d_TenantID x \<in> set (map t_ID (tenants d))"
    and "e \<in> set (job_events d) \<Longrightarrow> e_TenantID e \<in> set (map t_ID (tenants d))"
proof -
  have ref: "i \<in> set (map j_ID (jobs d)) \<and> t \<in> set (map t_ID (tenants d))"
    if "(i, t) \<in> set (map job_ref_key (jobs d))" for i t
    using that assms(2) by (force simp: job_ref_key_def tenancy_ok_def)
  have "(a_JobID a, a_TenantID a) \<in> set (map job_ref_key (jobs d))" if "a \<in> set (job_attempts d)"
    using assms(1) that by (auto simp: refs_ok_def)
  then show "a \<in> set (job_attempts d) \<Longrightarrow> a_JobID a \<in> set (map j_ID (jobs d)) \<and> a_TenantID a \<in> set (map t_ID (tenants d))"
    using ref by blast
  have "(d_OriginalJobID x, d_TenantID x) \<in> set (map job_ref_key (jobs d))" if "x \<in> set (dead_letter_jobs d)"
    using assms(1) that by (auto simp: refs_ok_def)
  then show "x \<in> set (dead_letter_jobs d) \<Longrightarrow> d_TenantID x \<in> set (map t_ID (tenants d))" using ref by blast
  have "(e_JobID e, e_TenantID e) \<in> set (map job_ref_key (jobs d))" if "e \<in> set (job_events d)"
    using assms(1) that by (auto simp: refs_ok_def)
  then show "e \<in> set (job_events d) \<Longrightarrow> e_TenantID e \<in> set (map t_ID (tenants d))" using ref by blast
qed

lemma attempts_conform:
  assumes "distinct (map a_ID (job_attempts d))" and "refs_ok d" and "tenancy_ok d"
  shows "table_ok (catalog_of d)
    \<lparr>tb_Columns = job_attempts_columns @ job_attempts_added, tb_Rows = map job_attempts_sql (job_attempts d)\<rparr>"
proof -
  have "row_ok (catalog_of d) (job_attempts_columns @ job_attempts_added) (job_attempts_sql a)"
    if "a \<in> set (job_attempts d)" for a
    using job_keys(1) [OF assms(2,3) that]
    by (intro row_okI distinct_columns) (auto simp: job_attempts_sql_def job_attempts_columns_def job_attempts_added_def)
  moreover have "unique_column (map job_attempts_sql (job_attempts d)) ''id''"
    using assms(1)
    by (subst unique_id [where g = VUuid and k = a_ID]) (simp_all add: sql_injs job_attempts_sql_def cell_def)
  ultimately show ?thesis
    using distinct_columns(2)
    by (simp add: table_ok_def list_all_iff) (simp add: job_attempts_columns_def job_attempts_added_def)
qed

lemma dead_letters_conform:
  assumes "distinct (map d_ID (dead_letter_jobs d))" and "refs_ok d" and "tenancy_ok d"
  shows "table_ok (catalog_of d) \<lparr>tb_Columns = dead_letter_jobs_columns @ dead_letter_jobs_added,
    tb_Rows = map dead_letter_jobs_sql (dead_letter_jobs d)\<rparr>"
proof -
  have "row_ok (catalog_of d) (dead_letter_jobs_columns @ dead_letter_jobs_added) (dead_letter_jobs_sql x)"
    if "x \<in> set (dead_letter_jobs d)" for x
    using job_keys(2) [OF assms(2,3) that] assms(3) that
    by (intro row_okI distinct_columns)
       (cases "d_RequeuedJobID x"; auto simp: dead_letter_jobs_sql_def dead_letter_jobs_columns_def
         dead_letter_jobs_added_def tenancy_ok_def)+
  moreover have "unique_column (map dead_letter_jobs_sql (dead_letter_jobs d)) ''id''"
    using assms(1)
    by (subst unique_id [where g = VUuid and k = d_ID]) (simp_all add: sql_injs dead_letter_jobs_sql_def cell_def)
  ultimately show ?thesis
    using distinct_columns(3)
    by (simp add: table_ok_def list_all_iff) (simp add: dead_letter_jobs_columns_def dead_letter_jobs_added_def)
qed

lemma events_conform:
  assumes "distinct (map e_ID (job_events d))" and "refs_ok d" and "tenancy_ok d"
  shows "table_ok (catalog_of d)
    \<lparr>tb_Columns = job_events_columns @ job_events_added, tb_Rows = map job_events_sql (job_events d)\<rparr>"
proof -
  have "row_ok (catalog_of d) (job_events_columns @ job_events_added) (job_events_sql e)"
    if "e \<in> set (job_events d)" for e
    using job_keys(3) [OF assms(2,3) that]
    by (intro row_okI distinct_columns) (auto simp: job_events_sql_def job_events_columns_def job_events_added_def)
  moreover have "unique_column (map job_events_sql (job_events d)) ''id''"
    using assms(1)
    by (subst unique_id [where g = VUuid and k = e_ID]) (simp_all add: sql_injs job_events_sql_def cell_def)
  ultimately show ?thesis
    using distinct_columns(4)
    by (simp add: table_ok_def list_all_iff) (simp add: job_events_columns_def job_events_added_def)
qed

lemma tenants_conform:
  assumes "clients_ok d"
  shows "table_ok (catalog_of d) \<lparr>tb_Columns = tenants_columns, tb_Rows = map tenants_sql (tenants d)\<rparr>"
    and "table_ok (catalog_of d) \<lparr>tb_Columns = api_clients_columns, tb_Rows = map api_clients_sql (api_clients d)\<rparr>"
proof -
  have "row_ok (catalog_of d) tenants_columns (tenants_sql t)" for t
    by (intro row_okI distinct_all_columns) (auto simp: tenants_sql_def tenants_columns_def)
  moreover have "unique_column (map tenants_sql (tenants d)) ''id''" "unique_column (map tenants_sql (tenants d)) ''slug''"
    using assms
    by (subst unique_id [where g = VUuid and k = t_ID], simp_all add: sql_injs tenants_sql_def cell_def clients_ok_def)
       (subst unique_id [where g = VText and k = t_Slug], simp_all add: sql_injs tenants_sql_def cell_def)
  ultimately show "table_ok (catalog_of d) \<lparr>tb_Columns = tenants_columns, tb_Rows = map tenants_sql (tenants d)\<rparr>"
    using distinct_all_columns(1) by (simp add: table_ok_def list_all_iff) (simp add: tenants_columns_def)
  have "row_ok (catalog_of d) api_clients_columns (api_clients_sql c)" if c: "c \<in> set (api_clients d)" for c
  proof -
    have "c_TenantID c \<in> set (map t_ID (tenants d))" "c_Role c \<in> {RoleViewer, RoleOperator, RoleAdmin}"
      using assms c by (auto simp: clients_ok_def)
    then show ?thesis
      by (intro row_okI distinct_all_columns) (auto simp: api_clients_sql_def api_clients_columns_def)
  qed
  moreover have "unique_column (map api_clients_sql (api_clients d)) ''id''"
      "unique_column (map api_clients_sql (api_clients d)) ''key_hash''"
    using assms
    by (subst unique_id [where g = VUuid and k = c_ID], simp_all add: sql_injs api_clients_sql_def cell_def clients_ok_def)
       (subst unique_id [where g = VText and k = c_KeyHash], simp_all add: sql_injs api_clients_sql_def cell_def)
  ultimately show "table_ok (catalog_of d) \<lparr>tb_Columns = api_clients_columns, tb_Rows = map api_clients_sql (api_clients d)\<rparr>"
    using distinct_all_columns(2) by (simp add: table_ok_def list_all_iff) (simp add: api_clients_columns_def)
qed

text \<open>The indexes.\<close>

lemma idempotency_index:
  assumes "distinct (idem_keys (jobs d))"
  shows "unique_index (map jobs_sql (jobs d)) (new_indexes ! 1)"
proof -
  let ?key = "\<lambda>(t, k). [Some (VUuid t), map_option VText k]"
  have "filter (where_holds (Some (IsNotNull ''idempotency_key''))) (map jobs_sql rs) =
      map jobs_sql (filter (\<lambda>r. j_IdempotencyKey r \<noteq> None) rs)" for rs
    by (induction rs) (simp_all add: where_holds_def jobs_sql_def cell_def)
  then have keys: "map (\<lambda>r. map (\<lambda>(n, _). cell n r) [(''tenant_id'', False), (''idempotency_key'', False)])
      (filter (where_holds (Some (IsNotNull ''idempotency_key''))) (map jobs_sql (jobs d))) =
      map ?key (idem_keys (jobs d))"
    by (simp add: idem_keys_def comp_def jobs_sql_def cell_def)
  have "inj ?key" by (intro injI) (auto simp: map_option_case split: option.splits)
  then have "inj_on ?key A" for A by (rule inj_on_subset) simp
  then have "distinct (map ?key (idem_keys (jobs d)))" using assms by (simp add: distinct_map)
  then have "distinct (filter P (map ?key (idem_keys (jobs d))))" for P by (rule distinct_filter)
  moreover have "ix_Where (new_indexes ! 1) = Some (IsNotNull ''idempotency_key'')"
    "ix_Columns (new_indexes ! 1) = [(''tenant_id'', False), (''idempotency_key'', False)]"
    by (simp_all add: new_indexes_def)
  ultimately show ?thesis unfolding unique_index_def Let_def by (simp only: keys)
qed


definition table_columns :: "catalog \<Rightarrow> (string \<times> column list) list" where
  "table_columns cat = map (\<lambda>(n, t). (n, tb_Columns t)) (ct_Tables cat)"

lemma table_columns_of: "table_columns (catalog_of d) = table_columns (new_catalog [] [] [] [] [] [])"
  by (simp add: table_columns_def catalog_of_def new_catalog_def)

lemma index_columns_known:
  "list_all (\<lambda>ix. case map_of (table_columns (new_catalog [] [] [] [] [] [])) (ix_Table ix) of
     None \<Rightarrow> False | Some cs \<Rightarrow> set (index_columns ix) \<subseteq> set (map cn_Name cs)) (old_indexes @ new_indexes)"
  "list_all (\<lambda>ix. ix_Unique ix \<longrightarrow> ix = new_indexes ! 1) (old_indexes @ new_indexes)"
  by code_simp+

lemma index_conforms:
  assumes "ix \<in> set (old_indexes @ new_indexes)" and "distinct (idem_keys (jobs d))"
  shows "index_ok (catalog_of d) ix"
proof -
  have "map_of (table_columns cat) n = map_option tb_Columns (map_of (ct_Tables cat) n)" for cat n
    by (simp add: table_columns_def map_of_map)
  then obtain t where t: "map_of (ct_Tables (catalog_of d)) (ix_Table ix) = Some t"
      "set (index_columns ix) \<subseteq> set (map cn_Name (tb_Columns t))"
    using index_columns_known(1) assms(1) unfolding table_columns_of [of d, symmetric] list_all_iff
    by (fastforce split: option.splits)
  have "unique_index (tb_Rows t) ix" if "ix_Unique ix"
  proof -
    have ix: "ix = new_indexes ! 1" using index_columns_known(2) assms(1) that by (auto simp: list_all_iff)
    with t(1) have "tb_Rows t = map jobs_sql (jobs d)" by (auto simp: catalog_of_def new_catalog_def new_indexes_def)
    with ix idempotency_index [OF assms(2)] show ?thesis by simp
  qed
  with t show ?thesis by (simp add: index_ok_def)
qed

lemma catalog_of_ok:
  assumes "db_ok d" and "tenancy_ok d" and "clients_ok d"
  shows "catalog_ok (catalog_of d)"
proof (rule catalog_okI)
  note k = db_okD(1) [OF assms(1), unfolded keys_ok_def] and refs = db_okD(3) [OF assms(1)]
  show "distinct (map fst (ct_Tables (catalog_of d)))"
    by (simp add: catalog_of_def new_catalog_def)
  fix n t
  assume "(n, t) \<in> set (ct_Tables (catalog_of d))"
  then show "table_ok (catalog_of d) t"
    using jobs_conform [OF _ assms(2)] attempts_conform [OF _ refs assms(2)] dead_letters_conform [OF _ refs assms(2)]
      events_conform [OF _ refs assms(2)] tenants_conform [OF assms(3)] k
    by (auto simp: catalog_of_def [of d] new_catalog_def simp del: reference_simps)
next
  fix ix
  assume "ix \<in> set (ct_Indexes (catalog_of d))"
  then show "index_ok (catalog_of d) ix"
    using index_conforms db_okD(1) [OF assms(1)] by (simp add: catalog_of_def new_catalog_def keys_ok_def)
qed

section \<open>Every step keeps the constraints\<close>

definition tenancy_kept :: "db \<Rightarrow> db \<Rightarrow> bool" where
  "tenancy_kept d d' \<longleftrightarrow>
     tenants d' = tenants d \<and> api_clients d' = api_clients d \<and> (tenancy_ok d \<longrightarrow> tenancy_ok d')"

lemma tenancy_kept_refl [simp]: "tenancy_kept d d"
  by (simp add: tenancy_kept_def)

lemma tenancy_kept_trans: "tenancy_kept d d' \<Longrightarrow> tenancy_kept d' d'' \<Longrightarrow> tenancy_kept d d''"
  by (simp add: tenancy_kept_def)

text \<open>A call that rewrites rows of jobs and adds at most new dead letters.\<close>

lemma tenancy_kept_update:
  assumes "tenants d' = tenants d" and "api_clients d' = api_clients d"
    and "jobs d' = upd_where P f (jobs d)" and "stable_row f"
    and "dead_letter_jobs d' = dead_letter_jobs d @ xs" and "\<And>x. x \<in> set xs \<Longrightarrow> d_RequeuedJobID x = None"
  shows "tenancy_kept d d'"
proof -
  have "map j_ID (jobs d') = map j_ID (jobs d)" "map j_TenantID (jobs d') = map j_TenantID (jobs d)"
    using stable_rowD [OF assms(4)] by (simp_all add: assms(3) map_upd_where)
  then show ?thesis
    using assms(1,2,5,6) unfolding tenancy_kept_def tenancy_ok_def by auto
qed

lemma tenancy_kept_append:
  assumes "tenants d' = tenants d" and "api_clients d' = api_clients d"
    and "jobs d' = jobs d @ [r]" and "j_TenantID r \<in> t_ID ` set (tenants d)"
    and "\<And>x'. x' \<in> set (dead_letter_jobs d') \<Longrightarrow>
      d_RequeuedJobID x' = Some (j_ID r) \<or> (\<exists>x\<in>set (dead_letter_jobs d). d_RequeuedJobID x' = d_RequeuedJobID x)"
  shows "tenancy_kept d d'"
proof -
  have "set_option (d_RequeuedJobID x') \<subseteq> set (map j_ID (jobs d'))"
    if "tenancy_ok d" "x' \<in> set (dead_letter_jobs d')" for x'
    using assms(5) [OF that(2)]
  proof
    assume "\<exists>x\<in>set (dead_letter_jobs d). d_RequeuedJobID x' = d_RequeuedJobID x"
    then obtain x where "x \<in> set (dead_letter_jobs d)" "d_RequeuedJobID x' = d_RequeuedJobID x" ..
    moreover from this that(1) have "set_option (d_RequeuedJobID x) \<subseteq> set (map j_ID (jobs d))"
      unfolding tenancy_ok_def by blast
    ultimately show ?thesis by (auto simp: assms(3))
  qed (simp add: assms(3))
  then show ?thesis using assms(1-4) by (simp add: tenancy_kept_def tenancy_ok_def)
qed

lemma new_dead_letter_fresh [simp]: "d_RequeuedJobID (new_dead_letter now did j t m n) = None"
  by (simp add: new_dead_letter_def)

lemma recover_one_tenancy:
  "recover_one reason j w = (Inr u, w') \<Longrightarrow> tenancy_kept (w_db w) (w_db w')"
  by (erule recover_one_okE)
     (auto simp: recover_retry_def recover_dead_def intro!: tenancy_kept_update [where P = "\<lambda>r. j_ID r = j_ID j \<and> j_Status r = StatusRunning"])

lemma claim_tenancy: "tenancy_kept d (claim_effect wk ttl now eid j d)"
  by (auto simp: claim_effect_def intro!: tenancy_kept_update [where xs = "[]"])

lemma call_tenancy:
  assumes "repo_call a C d d'" and "db_ok d" and "a \<noteq> DoAuth"
  shows "tenancy_kept d d'"
  using assms
proof (induction rule: repo_call.induct)
  case (create j w x w' C)
  from create(2) show ?case
  proof (cases rule: Create_okE)
    case (inserted r eid)
    then show ?thesis by (intro tenancy_kept_append [where r = r]) auto
  qed simp
next
  case (operator "from" to t i w w' C)
  from operator(2) show ?case
    by (rule TransitionJob_okE) (auto simp: transition_effect_def intro!: tenancy_kept_update [where xs = "[]"])
next
  case (requeue t i due w x w' C)
  then show ?case
  proof (cases rule: RequeueDeadLetter_okE)
    case (1 dl newID st eid)
    then show ?thesis
      by (intro tenancy_kept_append [where r = "requeue_row dl newID t st due (tx_now w)"])
         (auto simp: requeue_effect_def in_upd_where split: if_splits)
  qed
next
  case (recover reason w n w' C)
  show ?case
    by (rule recover_rel [where R = tenancy_kept, OF _ _ _ recover(2,1)])
       (auto intro: tenancy_kept_trans recover_one_tenancy)
next
  case (claim wk n ttl w ys w' C)
  show ?case
    by (rule claim_rel [where R = tenancy_kept, OF _ _ _ claim(2,1)])
       (auto intro: tenancy_kept_trans claim_tenancy)
next
  case (extend i wk ttl w b w' C)
  then show ?case
    by (elim ExtendLease_okE) (auto intro!: tenancy_kept_update [where xs = "[]"])
next
  case (attempt i wk n w x w' C)
  then show ?case
    by (auto simp: CreateAttempt_def pool_stmt_def tx_simps tenancy_kept_def tenancy_ok_def Let_def
        split: if_splits option.splits)
next
  case (release wk j C w w')
  from release(2) show ?case
    by (rule ReleaseClaim_okE) (auto intro!: tenancy_kept_update [where xs = "[]"])
next
  case (complete wk j C dur res w w')
  from complete(2) show ?case
    by (rule CompleteExecution_okE) (auto simp: complete_effect_def intro!: tenancy_kept_update [where xs = "[]"])
next
  case (fail wk j C dur out st due w w')
  from fail(2) show ?case
    by (rule FailExecution_okE)
       (auto simp: retry_effect_def dead_effect_def intro!: tenancy_kept_update [where P = "owned_by (j_ID j) wk"])
next
  case (publish a d d' C)
  then obtain es where "d' = d\<lparr>job_events := es\<rparr>" by (auto simp: same_but_published_def)
  then show ?case by (simp add: tenancy_kept_def tenancy_ok_def)
qed simp_all


text \<open>The authentication store keeps its own constraints.\<close>

definition clients_kept :: "(db, 'a) tx \<Rightarrow> bool" where
  "clients_kept m \<longleftrightarrow> (\<forall>w r w'. m w = (r, w') \<longrightarrow> clients_ok (w_db w) \<longrightarrow> clients_ok (w_db w'))"

lemma clients_kept_bind:
  assumes "clients_kept m" and "\<And>x. clients_kept (k x)"
  shows "clients_kept (bind_tx m k)"
  using assms unfolding clients_kept_def by (fastforce simp: bind_tx_def split: prod.splits sum.splits)

lemma clients_kept_try: "clients_kept m \<Longrightarrow> clients_kept (try_tx m)"
  by (auto simp: clients_kept_def try_tx_def split: prod.splits)

lemma clients_kept_basic:
  "clients_kept (return_tx x)" "clients_kept (fail_tx e)" "clients_kept uuid_New" "clients_kept time_Now"
  by (auto simp: clients_kept_def return_tx_def fail_tx_def uuid_New_def time_Now_def)

lemma clients_kept_pool:
  assumes "\<And>w d x d'. f w d = Inr (x, d') \<Longrightarrow> clients_ok d \<Longrightarrow> clients_ok d'"
  shows "clients_kept (pool_stmt f)"
  unfolding clients_kept_def
proof (intro allI impI)
  fix w r w'
  assume p: "pool_stmt f w = (r, w')" and ok: "clients_ok (w_db w)"
  show "clients_ok (w_db w')"
  proof (cases r)
    case (Inl e)
    with p atomic_txD [OF atomic_pool_stmt, of f w e w'] ok show ?thesis by simp
  next
    case (Inr x)
    with p assms ok show ?thesis by (auto simp: pool_stmt_def tx_simps)
  qed
qed

lemma clients_kept_update:
  assumes "\<And>now c. c_ID (f now c) = c_ID c \<and> c_KeyHash (f now c) = c_KeyHash c \<and>
    c_TenantID (f now c) = c_TenantID c \<and> c_Role (f now c) = c_Role c"
  shows "clients_kept (update_clients P f)"
proof -
  have "map c_ID (upd_where P (f now) cs) = map c_ID cs" "map c_KeyHash (upd_where P (f now) cs) = map c_KeyHash cs"
    "map c_TenantID (upd_where P (f now) cs) = map c_TenantID cs" "map c_Role (upd_where P (f now) cs) = map c_Role cs"
    for now cs
    by (simp_all add: map_upd_where assms)
  note same = this
  show ?thesis
    unfolding update_clients_def
  proof (rule clients_kept_pool)
    fix w :: pg_world and d d' and x :: nat
    assume "Inr (rows_affected P (api_clients d), d\<lparr>api_clients := upd_where P (f (w_now w)) (api_clients d)\<rparr>) = Inr (x, d')"
      and ok: "clients_ok d"
    then have "tenants d' = tenants d" "api_clients d' = upd_where P (f (w_now w)) (api_clients d)" by auto
    with ok show "clients_ok d'" by (simp only: clients_ok_def same)
  qed
qed

lemma clients_kept_insert: "clients_kept (insert_client mk)"
  unfolding insert_client_def
  by (rule clients_kept_pool) (simp add: Let_def clients_ok_def split: if_splits; fastforce)

lemmas clients_kept_rules = clients_kept_bind clients_kept_try clients_kept_basic clients_kept_insert

lemma clients_kept_Authenticate: "clients_kept (Authenticate sha key)"
  unfolding Authenticate_def Let_def
  by (rule clients_kept_bind, rule clients_kept_pool)
     (auto intro!: clients_kept_rules clients_kept_update split: list.splits prod.splits)

lemma clients_kept_CreateClient: "clients_kept (CreateClient sha gen t name role supplied)"
proof -
  have look: "clients_kept (pool_stmt (\<lambda>w d. case find P (api_clients d) of
      None \<Rightarrow> Inl PgxErrNoRows | Some c \<Rightarrow> Inr (g c, d)))" for P g
    by (rule clients_kept_pool) (auto split: option.splits)
  show ?thesis
    unfolding CreateClient_def by (auto intro!: clients_kept_rules look split: sum.splits)
qed

lemma clients_kept_RevokeClient: "clients_kept (RevokeClient c)"
  unfolding RevokeClient_def by (auto intro!: clients_kept_rules clients_kept_update)

definition schema_inv :: "db \<Rightarrow> bool" where
  "schema_inv d \<longleftrightarrow> tenancy_ok d \<and> clients_ok d"

lemma step_schema:
  assumes "sys_step a s s'" and "sys_inv s" and "schema_inv (sy_db s)"
  shows "schema_inv (sy_db s')"
proof (cases "a = DoAuth")
  case False
  have "tenancy_kept (sy_db s) (sy_db s')"
    using call_tenancy [OF step_repo_call [OF assms(1)] _ False] assms(2) by (simp add: sys_inv_def)
  with assms(3) show ?thesis by (simp add: schema_inv_def tenancy_kept_def clients_ok_def)
next
  case True
  with assms(1) obtain w w' sha key r11 gen t name role supplied r12 c r13
    where w: "w_db w = sy_db s" "sy_db s' = w_db w'"
      and m: "Authenticate sha key w = (r11, w') \<or> CreateClient sha gen t name role supplied w = (r12, w') \<or>
        RevokeClient c w = (r13, w')"
    by (elim sys_stepE; simp; blast)
  have "clients_ok (w_db w')"
    using m assms(3) w clients_kept_Authenticate clients_kept_CreateClient clients_kept_RevokeClient
    unfolding clients_kept_def schema_inv_def by metis
  moreover have "same_but_clients (w_db w) (w_db w')"
    using m clients_only_Authenticate clients_only_CreateClient clients_only_RevokeClient
    unfolding clients_only_def by blast
  then obtain cs where "w_db w' = (w_db w)\<lparr>api_clients := cs\<rparr>" unfolding same_but_clients_def by blast
  ultimately show ?thesis using assms(3) w by (simp add: schema_inv_def tenancy_ok_def)
qed

lemma steps_schema:
  assumes "any_step\<^sup>*\<^sup>* s s'" and "sys_inv s" and "schema_inv (sy_db s)"
  shows "schema_inv (sy_db s')"
  using assms
proof (induction rule: rtranclp_induct)
  case (step s1 s2)
  then have "sys_inv s1" using steps_inv by blast
  with step show ?case using step_schema by (auto simp: any_step_def)
qed simp

text \<open>For a new installation the constraints are those of its tenants and API clients.\<close>

lemma clients_ok_of_catalog:
  assumes "catalog_ok (catalog_of d)"
  shows "clients_ok d"
proof -
  have T: "table_ok (catalog_of d) \<lparr>tb_Columns = tenants_columns, tb_Rows = map tenants_sql (tenants d)\<rparr>"
    and C: "table_ok (catalog_of d) \<lparr>tb_Columns = api_clients_columns, tb_Rows = map api_clients_sql (api_clients d)\<rparr>"
    using catalog_okD(2) [OF assms, of "''tenants''"] catalog_okD(2) [OF assms, of "''api_clients''"]
    by (simp_all add: catalog_of_def [of d] new_catalog_def)
  have "distinct (map t_ID (tenants d))" "distinct (map t_Slug (tenants d))"
    using T unique_id [where n = "''id''" and f = tenants_sql and g = VUuid and k = t_ID]
      unique_id [where n = "''slug''" and f = tenants_sql and g = VText and k = t_Slug]
    by (simp_all add: table_ok_def tenants_columns_def tenants_sql_def cell_def sql_injs)
  moreover have "distinct (map c_ID (api_clients d))" "distinct (map c_KeyHash (api_clients d))"
    using C unique_id [where n = "''id''" and f = api_clients_sql and g = VUuid and k = c_ID]
      unique_id [where n = "''key_hash''" and f = api_clients_sql and g = VText and k = c_KeyHash]
    by (simp_all add: table_ok_def api_clients_columns_def api_clients_sql_def cell_def sql_injs)
  moreover have "c_TenantID c \<in> set (map t_ID (tenants d))" "c_Role c \<in> {RoleViewer, RoleOperator, RoleAdmin}"
    if "c \<in> set (api_clients d)" for c
  proof -
    have "row_ok (catalog_of d) api_clients_columns (api_clients_sql c)"
      using C that by (simp add: table_ok_def list_all_iff)
    then show "c_TenantID c \<in> set (map t_ID (tenants d))" "c_Role c \<in> {RoleViewer, RoleOperator, RoleAdmin}"
      by (simp_all add: row_ok_def api_clients_columns_def api_clients_sql_def cell_def)
  qed
  ultimately show ?thesis unfolding clients_ok_def by fastforce
qed

lemma initial_schema:
  assumes "initial s" and "catalog_ok (catalog_of (sy_db s))"
  shows "schema_inv (sy_db s)"
  using assms clients_ok_of_catalog by (auto simp: schema_inv_def initial_def empty_db_def tenancy_ok_def)


text \<open>The installation that the migrations create is one.\<close>

definition migrated_system :: "time \<Rightarrow> system" where
  "migrated_system now =
     \<lparr>sy_db = empty_db [\<lparr>t_ID = DefaultTenantID, t_Slug = ''default'', t_Name = ''Default Tenant'', t_CreatedAt = now\<rparr>] [],
      sy_claims = {}\<rparr>"

lemma migrated_system: "migrate_up now no_catalog = Inr (catalog_of (sy_db (migrated_system now)))"
  unfolding fresh_migration
  by (simp add: migrated_system_def catalog_of_def empty_db_def tenants_sql_def DefaultTenantID_def)

lemma migrated_ok: "catalog_ok (catalog_of (sy_db (migrated_system now)))"
  by (rule catalog_of_ok)
     (simp_all add: migrated_system_def empty_db_ok tenancy_ok_def clients_ok_def, simp_all add: empty_db_def)


end
