(* ===== verification/Job_Types.thy ===== *)
theory Job_Types
  imports System_Calls
begin

text \<open>
  The job types of pkg/types/job.go against what the API accepts and the executor runs, and the
  invariant that joins validation, storage, requeueing and execution: whatever is stored or handed to a
  worker is a request that the validator accepts.
\<close>

section \<open>Job types\<close>

datatype JobType =
    JobTypeSendEmail
  | JobTypeCallWebhook
  | JobTypeGenerateReport
  | JobTypeProcessPaymentRetry
  | JobTypeSyncCustomerData
  | JobTypeCleanupSessions

primrec job_type_string :: "JobType \<Rightarrow> string" where
  "job_type_string JobTypeSendEmail = ''SEND_EMAIL''"
| "job_type_string JobTypeCallWebhook = ''CALL_WEBHOOK''"
| "job_type_string JobTypeGenerateReport = ''GENERATE_REPORT''"
| "job_type_string JobTypeProcessPaymentRetry = ''PROCESS_PAYMENT_RETRY''"
| "job_type_string JobTypeSyncCustomerData = ''SYNC_CUSTOMER_DATA''"
| "job_type_string JobTypeCleanupSessions = ''CLEANUP_EXPIRED_SESSIONS''"

lemma job_type_string_inj: "inj job_type_string"
proof (rule injI)
  fix t u
  assume "job_type_string t = job_type_string u"
  then show "t = u" by (cases t; cases u) simp_all
qed

text \<open>Of the listed types the API accepts webhooks only, and the executor has a handler for them only.\<close>

lemma only_webhooks_accepted: "isSupportedJobType (job_type_string t) \<longleftrightarrow> t = JobTypeCallWebhook"
  by (cases t) (simp_all add: isSupportedJobType_def)

lemma planned_types_refused:
  assumes "cr_JobType req = job_type_string t" and "t \<noteq> JobTypeCallWebhook"
  shows "\<exists>m. validateCreate valid req = Some m"
  using assms only_webhooks_accepted [of t] by (simp add: validateCreate_def)

lemma supported_executes:
  "isSupportedJobType (j_JobType j) \<Longrightarrow> Executor_Execute env opts j = WebhookHandler_Execute env opts j"
  by (simp add: isSupportedJobType_def Executor_Execute_def)

section \<open>Stored requests stay acceptable\<close>

definition acceptable_letter :: "DeadLetterJob \<Rightarrow> bool" where
  "acceptable_letter x \<longleftrightarrow>
     TrimSpace (d_Name x) \<noteq> '''' \<and> isSupportedJobType (d_JobType x) \<and> d_Payload x \<noteq> '''' \<and>
     d_Payload x \<noteq> ''null''"

definition all_acceptable :: "db \<Rightarrow> bool" where
  "all_acceptable d \<longleftrightarrow> (\<forall>r\<in>set (jobs d). acceptable r) \<and> (\<forall>x\<in>set (dead_letter_jobs d). acceptable_letter x)"

definition acceptable_kept :: "db \<Rightarrow> db \<Rightarrow> bool" where
  "acceptable_kept d d' \<longleftrightarrow> (all_acceptable d \<longrightarrow> all_acceptable d')"

lemma acceptable_kept_refl [simp]: "acceptable_kept d d"
  by (simp add: acceptable_kept_def)

lemma acceptable_kept_trans: "acceptable_kept d d' \<Longrightarrow> acceptable_kept d' d'' \<Longrightarrow> acceptable_kept d d''"
  by (simp add: acceptable_kept_def)

lemma acceptable_const: "job_const r = job_const s \<Longrightarrow> acceptable r \<longleftrightarrow> acceptable s"
  by (simp add: acceptable_def job_const_def)

lemma acceptable_new_letter [simp]: "acceptable j \<Longrightarrow> acceptable_letter (new_dead_letter now did j t m n)"
  by (simp add: acceptable_def acceptable_letter_def new_dead_letter_def)

lemma acceptable_scan [simp]: "acceptable (scanJob r) = acceptable r"
  by (simp add: acceptable_def scanJob_def job_cols.defs Job.defs)

text \<open>A claim is a request of a stored job.\<close>

lemma acceptable_claim:
  assumes "all_acceptable d" and "claim_ok d j"
  shows "acceptable j"
proof -
  from assms(2) obtain r where "r \<in> set (jobs d)" "job_const j = job_const r"
    by (auto simp: claim_ok_def)
  with assms(1) acceptable_const [of j r] show ?thesis by (simp add: all_acceptable_def)
qed

lemma acceptable_update:
  assumes "jobs d' = upd_where P f (jobs d)" and "stable_row f"
    and "dead_letter_jobs d' = dead_letter_jobs d @ xs"
    and "\<And>x. all_acceptable d \<Longrightarrow> x \<in> set xs \<Longrightarrow> acceptable_letter x"
  shows "acceptable_kept d d'"
proof -
  have "acceptable (f r) = acceptable r" for r using acceptable_const stable_rowD(5) [OF assms(2)] by blast
  with assms(1,3,4) show ?thesis by (auto simp: acceptable_kept_def all_acceptable_def in_upd_where)
qed

lemma recover_one_acceptable:
  assumes "recover_one reason (scanJob r) w = (Inr u, w')" and "r \<in> set (jobs (w_db w))"
  shows "acceptable_kept (w_db w) (w_db w')"
  using assms
  by (elim recover_one_okE)
     (auto simp: recover_retry_def recover_dead_def all_acceptable_def
       intro!: acceptable_update [where P = "\<lambda>s. j_ID s = j_ID (scanJob r) \<and> j_Status s = StatusRunning"])

lemma claim_acceptable: "acceptable_kept d (claim_effect wk ttl now eid j d)"
  by (auto simp: claim_effect_def intro!: acceptable_update [where xs = "[]"])

lemma call_acceptable:
  assumes "repo_call a C d d'" and "db_ok d" and "\<forall>(wk, j)\<in>C. claim_ok d j"
  shows "acceptable_kept d d'"
  using assms
proof (induction rule: repo_call.induct)
  case (create j w x w' C)
  from create(2) show ?case
  proof (cases rule: Create_okE)
    case (inserted r eid)
    have "acceptable r" using create(3) by (simp add: inserted(2) acceptable_def create_row_def)
    with inserted(1) show ?thesis by (simp add: acceptable_kept_def all_acceptable_def)
  qed simp
next
  case (operator "from" to t i w w' C)
  from operator(2) show ?case
    by (rule TransitionJob_okE) (auto simp: transition_effect_def intro!: acceptable_update [where xs = "[]"])
next
  case (requeue t i due w x w' C)
  then show ?case
  proof (cases rule: RequeueDeadLetter_okE)
    case (1 dl newID st eid)
    have "acceptable_letter dl \<Longrightarrow> acceptable (requeue_row dl newID t st due (tx_now w))"
      by (simp add: acceptable_def acceptable_letter_def requeue_row_def)
    with 1 show ?thesis
      by (auto simp: acceptable_kept_def all_acceptable_def requeue_effect_def in_upd_where acceptable_letter_def
          split: if_splits)
  qed
next
  case (recover reason w n w' C)
  show ?case
    by (rule recover_rel [where R = acceptable_kept, OF _ _ _ recover(2,1)])
       (auto intro: acceptable_kept_trans recover_one_acceptable)
next
  case (claim wk n ttl w ys w' C)
  show ?case
    by (rule claim_rel [where R = acceptable_kept, OF _ _ _ claim(2,1)])
       (auto intro: acceptable_kept_trans claim_acceptable)
next
  case (extend i wk ttl w b w' C)
  then show ?case
    by (elim ExtendLease_okE) (auto intro!: acceptable_update [where xs = "[]"])
next
  case (attempt i wk n w x w' C)
  then show ?case
    by (auto simp: CreateAttempt_def pool_stmt_def tx_simps acceptable_kept_def all_acceptable_def Let_def
        split: if_splits option.splits)
next
  case (release wk j C w w')
  from release(2) show ?case
    by (rule ReleaseClaim_okE) (auto intro!: acceptable_update [where xs = "[]"])
next
  case (complete wk j C dur res w w')
  from complete(2) show ?case
    by (rule CompleteExecution_okE) (auto simp: complete_effect_def intro!: acceptable_update [where xs = "[]"])
next
  case (fail wk j C dur out st due w w')
  then have "all_acceptable (w_db w) \<Longrightarrow> acceptable j" using acceptable_claim by blast
  with fail(2) show ?case
    by (elim FailExecution_okE)
       (auto simp: retry_effect_def dead_effect_def intro!: acceptable_update [where P = "owned_by (j_ID j) wk"])
next
  case (publish a d d' C)
  then obtain es where "d' = d\<lparr>job_events := es\<rparr>" by (auto simp: same_but_published_def)
  then show ?case by (simp add: acceptable_kept_def all_acceptable_def)
next
  case (clients d d' C)
  then show ?case by (auto simp: same_but_clients_def acceptable_kept_def all_acceptable_def)
qed simp

lemma steps_acceptable:
  assumes "any_step\<^sup>*\<^sup>* s0 s" and "sys_inv s0" and "all_acceptable (sy_db s0)"
  shows "all_acceptable (sy_db s)"
  using assms
proof (induction rule: rtranclp_induct)
  case (step s s')
  then obtain a where "sys_step a s s'" by (auto simp: any_step_def)
  from step_repo_call [OF this] steps_inv [OF step(1) step(4)] step show ?case
    using call_acceptable by (auto simp: sys_inv_def acceptable_kept_def)
qed


end
