(* ===== verification/Job_Spec.thy ===== *)
theory Job_Spec
  imports Retry_Budget
begin

text \<open>
  What the scheduler promises about jobs, without tables, leases, attempts or clocks: an abstract machine in
  which a job waits, is suspended, is held by one worker or is done, and counts its failures against a
  limit.  Every step of the system is a sequence of steps of this machine that its action allows.
\<close>

section \<open>The abstract machine\<close>

datatype phase = Waiting | Suspended | Held string | Done Status

record spec_job =
  sj_phase :: phase
  sj_failures :: int
  sj_limit :: int

type_synonym spec_state = "uuid \<Rightarrow> spec_job option"

datatype spec_act = Submit | Take string | Succeed string | Fail string | Expire | Withdraw | Suspend | Continue

abbreviation spec_row :: "phase \<Rightarrow> int \<Rightarrow> int \<Rightarrow> spec_job" where
  "spec_row p n l \<equiv> \<lparr>sj_phase = p, sj_failures = n, sj_limit = l\<rparr>"

text \<open>
  Another failure: a retry while the limit is not reached, or the end.  An expired lease ends a job only at the
  limit, an execution also when its error is permanent.
\<close>

inductive failed_job :: "int \<Rightarrow> int \<Rightarrow> spec_job \<Rightarrow> bool" where
  again: "n < l \<Longrightarrow> failed_job n l (spec_row Waiting (n + 1) l)"
| over: "n \<le> l \<Longrightarrow> failed_job n l (spec_row (Done StatusDeadLettered) (n + 1) l)"

inductive spec_step :: "spec_act \<Rightarrow> spec_state \<Rightarrow> spec_state \<Rightarrow> bool" where
  submit: "m i = None \<Longrightarrow> 0 \<le> l \<Longrightarrow> spec_step Submit m (m(i \<mapsto> spec_row Waiting 0 l))"
| take_job: "m i = Some (spec_row Waiting n l) \<Longrightarrow> spec_step (Take wk) m (m(i \<mapsto> spec_row (Held wk) n l))"
| succeed: "m i = Some (spec_row (Held wk) n l) \<Longrightarrow>
    spec_step (Succeed wk) m (m(i \<mapsto> spec_row (Done StatusSucceeded) n l))"
| fail: "m i = Some (spec_row (Held wk) n l) \<Longrightarrow> failed_job n l x \<Longrightarrow> spec_step (Fail wk) m (m(i \<mapsto> x))"
| expire: "m i = Some (spec_row (Held wk) n l) \<Longrightarrow> failed_job n l x \<Longrightarrow> sj_phase x = Waiting \<or> n = l \<Longrightarrow>
    spec_step Expire m (m(i \<mapsto> x))"
| withdraw: "m i = Some (spec_row p n l) \<Longrightarrow> p = Waiting \<or> p = Held wk \<Longrightarrow>
    spec_step Withdraw m (m(i \<mapsto> spec_row (Done StatusCancelled) n l))"
| suspend: "m i = Some (spec_row Waiting n l) \<Longrightarrow> spec_step Suspend m (m(i \<mapsto> spec_row Suspended n l))"
| continue: "m i = Some (spec_row Suspended n l) \<Longrightarrow> spec_step Continue m (m(i \<mapsto> spec_row Waiting n l))"

section \<open>The abstraction of the jobs table\<close>

definition phase_of :: "jobs_row \<Rightarrow> phase" where
  "phase_of r =
     (if j_Status r \<in> {StatusPending, StatusScheduled, StatusRetryScheduled} then Waiting
      else if j_Status r = StatusPaused then Suspended
      else if j_Status r = StatusRunning then Held (the (j_LockedBy r))
      else Done (j_Status r))"

definition spec_of :: "jobs_row \<Rightarrow> spec_job" where
  "spec_of r = spec_row (phase_of r) (j_RetryCount r) (j_MaxRetries r)"

definition spec_view :: "db \<Rightarrow> spec_state" where
  "spec_view d i = map_option spec_of (find (\<lambda>r. j_ID r = i) (jobs d))"

text \<open>Which abstract steps an action of the system may stand for; workers finish only what was claimed.\<close>

definition allowed :: "action \<Rightarrow> (string \<times> Job) set \<Rightarrow> spec_act \<Rightarrow> bool" where
  "allowed a C x \<longleftrightarrow>
     (case x of
        Submit \<Rightarrow> a \<in> {DoCreate, DoRequeue}
      | Take wk \<Rightarrow> a = DoClaim
      | Succeed wk \<Rightarrow> a = DoFinalize \<and> wk \<in> fst ` C
      | Fail wk \<Rightarrow> a = DoFinalize \<and> wk \<in> fst ` C
      | Expire \<Rightarrow> a = DoRecover
      | Withdraw \<Rightarrow> a = DoOperator
      | Suspend \<Rightarrow> a = DoOperator
      | Continue \<Rightarrow> a = DoOperator)"

definition spec_by :: "action \<Rightarrow> (string \<times> Job) set \<Rightarrow> spec_state \<Rightarrow> spec_state \<Rightarrow> bool" where
  "spec_by a C m m' \<longleftrightarrow> (\<exists>x. allowed a C x \<and> spec_step x m m')"

section \<open>Views after an update\<close>

lemma spec_view_in:
  assumes "keys_ok d" and "r \<in> set (jobs d)"
  shows "spec_view d (j_ID r) = Some (spec_of r)"
proof -
  obtain s where s: "find (\<lambda>s. j_ID s = j_ID r) (jobs d) = Some s"
    using assms(2) by (cases "find (\<lambda>s. j_ID s = j_ID r) (jobs d)") (auto simp: find_None_iff)
  then have "s \<in> set (jobs d)" "j_ID s = j_ID r" by (auto simp: find_Some_iff)
  with job_key_unique [OF assms(1) this(1) assms(2)] s show ?thesis by (simp add: spec_view_def)
qed

lemma spec_view_None: "spec_view d i = None \<longleftrightarrow> i \<notin> j_ID ` set (jobs d)"
  by (auto simp: spec_view_def find_None_iff)

lemma find_upd_where:
  assumes "\<And>s. j_ID (f s) = j_ID s"
  shows "find (\<lambda>s. j_ID s = i) (upd_where P f rs) =
    map_option (\<lambda>s. if P s then f s else s) (find (\<lambda>s. j_ID s = i) rs)"
  by (induction rs) (auto simp: assms)

lemma spec_view_unchanged:
  assumes "\<And>r. j_ID (f r) = j_ID r" and "\<And>r. spec_of (f r) = spec_of r" and "jobs d' = upd_where P f (jobs d)"
  shows "spec_view d' = spec_view d"
proof
  fix i
  have "spec_of (if P s then f s else s) = spec_of s" for s by (simp add: assms(2))
  then show "spec_view d' i = spec_view d i"
    by (cases "find (\<lambda>s. j_ID s = i) (jobs d)") (simp_all add: spec_view_def assms(3) find_upd_where [OF assms(1)])
qed

lemma spec_view_update:
  assumes k: "keys_ok d" and r: "r \<in> set (jobs d)" "P r" and f: "\<And>s. j_ID (f s) = j_ID s"
    and P: "\<And>s. s \<in> set (jobs d) \<Longrightarrow> P s \<Longrightarrow> j_ID s = j_ID r"
    and d': "jobs d' = upd_where P f (jobs d)"
  shows "spec_view d' = (spec_view d)(j_ID r \<mapsto> spec_of (f r))"
proof
  fix i
  note u = find_upd_where [of f i P, OF f]
  show "spec_view d' i = ((spec_view d)(j_ID r \<mapsto> spec_of (f r))) i"
  proof (cases "i = j_ID r")
    case True
    obtain s where s: "find (\<lambda>s. j_ID s = j_ID r) (jobs d) = Some s"
      using r(1) by (cases "find (\<lambda>s. j_ID s = j_ID r) (jobs d)") (auto simp: find_None_iff)
    then have "s \<in> set (jobs d)" "j_ID s = j_ID r" by (auto simp: find_Some_iff)
    then have "s = r" using job_key_unique [OF k _ r(1)] by blast
    with s True r(2) u [of "jobs d"] show ?thesis by (simp add: spec_view_def d')
  next
    case False
    have "\<not> P s" if "find (\<lambda>s. j_ID s = i) (jobs d) = Some s" for s
      using that P [of s] False by (auto simp: find_Some_iff)
    with False show ?thesis by (cases "find (\<lambda>s. j_ID s = i) (jobs d)") (auto simp: spec_view_def d' u)
  qed
qed

lemma spec_view_append:
  assumes "j_ID r \<notin> j_ID ` set (jobs d)" and "jobs d' = jobs d @ [r]"
  shows "spec_view d' = (spec_view d)(j_ID r \<mapsto> spec_of r)"
proof
  fix i
  have a: "find Q (xs @ [y]) = (case find Q xs of None \<Rightarrow> if Q y then Some y else None | Some z \<Rightarrow> Some z)"
    for Q :: "jobs_row \<Rightarrow> bool" and xs y by (induction xs) auto
  show "spec_view d' i = ((spec_view d)(j_ID r \<mapsto> spec_of r)) i"
  proof (cases "i = j_ID r")
    case True
    have "find (\<lambda>s. j_ID s = i) (jobs d) = None" unfolding find_None_iff using assms(1) True by (metis imageI)
    with True show ?thesis by (simp add: spec_view_def assms(2) a)
  qed (simp add: spec_view_def assms(2) a split: option.splits)
qed

section \<open>Every call is a run of the machine\<close>

lemma one_spec_step:
  assumes "allowed a C x" and "spec_step x (spec_view d) m" and "spec_view d' = m"
  shows "(spec_by a C)\<^sup>*\<^sup>* (spec_view d) (spec_view d')"
  using assms by (auto simp: spec_by_def intro!: r_into_rtranclp)

lemma same_view:
  assumes "jobs d' = jobs d"
  shows "(spec_by a C)\<^sup>*\<^sup>* (spec_view d) (spec_view d')"
  using assms by (simp add: spec_view_def [abs_def])

lemma row_ok:
  assumes "db_ok d" and "r \<in> set (jobs d)"
  shows "job_ok r"
  using db_okD(2) [OF assms(1)] assms(2) by (simp add: rows_ok_def)

lemma row_ids [simp]:
  "j_ID (succeed_row now r) = j_ID r" "j_ID (transition_row to now r) = j_ID r"
  "j_ID (retry_row n due m now r) = j_ID r" "j_ID (dead_letter_row n m now r) = j_ID r"
  by (simp_all add: succeed_row_def transition_row_def retry_row_def dead_letter_row_def)

lemma owned_id: "owned_by i wk r \<Longrightarrow> j_ID r = i"
  by (simp add: owned_by_def)

lemma held_row:
  assumes "owned_by i wk r"
  shows "spec_of r = spec_row (Held wk) (j_RetryCount r) (j_MaxRetries r)"
  using assms by (simp add: spec_of_def phase_of_def owned_by_def)

lemma submit_view:
  assumes "j_ID r \<notin> j_ID ` set (jobs d)" and "jobs d' = jobs d @ [r]" and "waiting r"
    and "j_RetryCount r = 0" and "0 \<le> j_MaxRetries r" and "a \<in> {DoCreate, DoRequeue}"
  shows "(spec_by a C)\<^sup>*\<^sup>* (spec_view d) (spec_view d')"
proof (rule one_spec_step [of _ _ Submit])
  have "spec_of r = spec_row Waiting 0 (j_MaxRetries r)"
    using assms(3,4) by (auto simp: spec_of_def phase_of_def waiting_def)
  then show "spec_view d' = (spec_view d)(j_ID r \<mapsto> spec_row Waiting 0 (j_MaxRetries r))"
    using spec_view_append [OF assms(1,2)] by simp
  show "spec_step Submit (spec_view d) \<dots>"
    by (rule spec_step.submit) (use assms in \<open>simp_all add: spec_view_None\<close>)
qed (use assms(6) in \<open>simp add: allowed_def\<close>)

lemma claim_view:
  assumes "db_ok d" and r: "r \<in> set (jobs d)" "waiting r" "j_ID j = j_ID r"
  shows "(spec_by DoClaim C)\<^sup>*\<^sup>* (spec_view d) (spec_view (claim_effect wk ttl now eid j d))"
proof (rule one_spec_step [of _ _ "Take wk"])
  note k = db_okD(1) [OF assms(1)]
  have "spec_view d (j_ID r) = Some (spec_row Waiting (j_RetryCount r) (j_MaxRetries r))"
    using spec_view_in [OF k r(1)] r(2) by (auto simp: spec_of_def phase_of_def waiting_def)
  then show "spec_step (Take wk) (spec_view d)
      ((spec_view d)(j_ID r \<mapsto> spec_row (Held wk) (j_RetryCount r) (j_MaxRetries r)))"
    by (rule spec_step.take_job)
  show "spec_view (claim_effect wk ttl now eid j d) = \<dots>"
    using spec_view_update [OF k r(1), of "\<lambda>s. j_ID s = j_ID r" "claim_row wk ttl now" "claim_effect wk ttl now eid j d"] r(3)
    by (simp add: claim_effect_def claim_row_def spec_of_def phase_of_def)
qed (simp add: allowed_def)

text \<open>A failure of a held job, by its worker or by the recovery.\<close>

lemma failed_rows:
  assumes "job_ok r" and "j_Status r = StatusRunning"
  shows "n = j_RetryCount r + 1 \<Longrightarrow> n \<le> j_MaxRetries r \<Longrightarrow>
      failed_job (j_RetryCount r) (j_MaxRetries r) (spec_of (retry_row n at' m now r))"
    and "n = j_RetryCount r + 1 \<Longrightarrow>
      failed_job (j_RetryCount r) (j_MaxRetries r) (spec_of (dead_letter_row n m now r))"
  using assms failed_job.again [of "j_RetryCount r" "j_MaxRetries r"] failed_job.over [of "j_RetryCount r" "j_MaxRetries r"]
  by (auto simp: job_ok_def spec_of_def phase_of_def retry_row_def dead_letter_row_def)

lemma recover_view:
  assumes "db_ok (w_db w)" and r: "r \<in> set (jobs (w_db w))" "j_Status r = StatusRunning"
    and R: "recover_one reason (scanJob r) w = (Inr u, w')"
  shows "(spec_by DoRecover C)\<^sup>*\<^sup>* (spec_view (w_db w)) (spec_view (w_db w'))"
proof -
  let ?d = "w_db w" and ?P = "\<lambda>s. j_ID s = j_ID r \<and> j_Status s = StatusRunning"
  note k = db_okD(1) [OF assms(1)] and ok = row_ok [OF assms(1) r(1)]
  have s: "j_ID (scanJob r) = j_ID r" "j_RetryCount (scanJob r) = j_RetryCount r"
    "j_MaxRetries (scanJob r) = j_MaxRetries r"
    by (simp_all add: scanJob_def job_cols.defs Job.defs)
  have h: "spec_view ?d (j_ID r) = Some (spec_row (Held (the (j_LockedBy r))) (j_RetryCount r) (j_MaxRetries r))"
    using spec_view_in [OF k r(1)] r(2) by (simp add: spec_of_def phase_of_def)
  have gen: "(spec_by DoRecover C)\<^sup>*\<^sup>* (spec_view ?d) (spec_view (w_db w'))"
    if d': "jobs (w_db w') = upd_where ?P f (jobs ?d)" and f: "\<And>s. j_ID (f s) = j_ID s"
      and x: "failed_job (j_RetryCount r) (j_MaxRetries r) (spec_of (f r))"
        "sj_phase (spec_of (f r)) = Waiting \<or> j_RetryCount r = j_MaxRetries r" for f
    by (rule one_spec_step [OF _ spec_step.expire [where m = "spec_view ?d" and i = "j_ID r", OF h x]])
       (use spec_view_update [OF k r(1), of ?P f] r(2) f d' in \<open>auto simp: allowed_def\<close>)
  from R show ?thesis
  proof (cases rule: recover_one_okE)
    case (retry eid)
    show ?thesis
      by (rule gen [of "retry_row (j_RetryCount r + 1)
            (NextRetryAt (w_clock w (w_ticks w)) (j_RetryBackoffSeconds (scanJob r)) (j_RetryCount r + 1)) reason (w_now w)"])
         (use retry s failed_rows(1) [OF ok r(2)] in \<open>auto simp: recover_retry_def retry_row_def spec_of_def phase_of_def\<close>)
  next
    case (dead did eid)
    show ?thesis
      by (rule gen [of "dead_letter_row (j_RetryCount r + 1) reason (w_now w)"])
         (use dead s failed_rows(2) [OF ok r(2)] ok r(2) in \<open>auto simp: recover_dead_def dead_letter_row_def job_ok_def\<close>)
  qed
qed

lemma operator_view:
  assumes "db_ok (w_db w)" and m: "(from, to) \<in> set service_moves"
    and T: "TransitionJob t i from to w = (Inr u, w')"
  shows "(spec_by DoOperator C)\<^sup>*\<^sup>* (spec_view (w_db w)) (spec_view (w_db w'))"
  using T
proof (cases rule: TransitionJob_okE)
  case (1 eid r)
  let ?d = "w_db w" and ?P = "\<lambda>r. j_TenantID r = t \<and> j_ID r = i \<and> j_Status r \<in> set from"
  note k = db_okD(1) [OF assms(1)] and ok = row_ok [OF assms(1) 1(3)]
  have v: "spec_view (w_db w') = (spec_view ?d)(j_ID r \<mapsto> spec_of (transition_row to (tx_now w) r))"
    by (rule spec_view_update [OF k 1(3), of ?P]) (use 1 in \<open>auto simp: transition_effect_def\<close>)
  have h: "spec_view ?d (j_ID r) = Some (spec_row (phase_of r) (j_RetryCount r) (j_MaxRetries r))"
    using spec_view_in [OF k 1(3)] by (simp add: spec_of_def)
  have f: "j_Status r \<noteq> StatusFailed" using ok by (simp add: job_ok_def)
  from m 1(6) f consider
      (cancel) "to = StatusCancelled" "phase_of r = Waiting \<or> phase_of r = Held (the (j_LockedBy r))"
    | (pause) "to = StatusPaused" "phase_of r = Waiting"
    | (resume) "to = StatusScheduled" "phase_of r = Suspended"
    by (auto simp: service_moves_def phase_of_def)
  then show ?thesis
  proof cases
    case cancel
    show ?thesis
      by (rule one_spec_step [OF _ spec_step.withdraw [where m = "spec_view ?d" and i = "j_ID r", OF h cancel(2)]])
         (simp_all add: allowed_def v cancel(1) transition_row_def spec_of_def phase_of_def)
  next
    case pause
    show ?thesis
      by (rule one_spec_step [OF _ spec_step.suspend [where m = "spec_view ?d" and i = "j_ID r", OF h [unfolded pause(2)]]])
         (simp_all add: allowed_def v pause(1) transition_row_def spec_of_def phase_of_def)
  next
    case resume
    show ?thesis
      by (rule one_spec_step [OF _ spec_step.continue [where m = "spec_view ?d" and i = "j_ID r", OF h [unfolded resume(2)]]])
         (simp_all add: allowed_def v resume(1) transition_row_def spec_of_def phase_of_def)
  qed
qed

lemma complete_view:
  assumes "db_ok (w_db w)" and c: "(wk, j) \<in> C" and F: "CompleteExecution j wk dur res w = (Inr u, w')"
  shows "(spec_by DoFinalize C)\<^sup>*\<^sup>* (spec_view (w_db w)) (spec_view (w_db w'))"
  using F
proof (cases rule: CompleteExecution_okE)
  case (1 eid r a)
  let ?P = "\<lambda>r. owned_by (j_ID j) wk r \<and> j_TenantID r = j_TenantID j"
  note k = db_okD(1) [OF assms(1)]
  have h: "spec_view (w_db w) (j_ID r) = Some (spec_row (Held wk) (j_RetryCount r) (j_MaxRetries r))"
    using spec_view_in [OF k 1(2)] held_row [OF 1(3)] by simp
  have v: "spec_view (w_db w') = (spec_view (w_db w))(j_ID r \<mapsto> spec_of (succeed_row (tx_now w) r))"
    by (rule spec_view_update [OF k 1(2), of ?P])
       (use 1 owned_id [OF 1(3)] owned_id in \<open>auto simp: complete_effect_def\<close>)
  have "wk \<in> fst ` C" using c by force
  then show ?thesis
    by (intro one_spec_step [OF _ spec_step.succeed [where m = "spec_view (w_db w)" and i = "j_ID r", OF h]])
       (simp_all add: allowed_def v succeed_row_def spec_of_def phase_of_def)
qed

lemma fail_view:
  assumes ok: "db_ok (w_db w)" "db_ok (w_db w')" and c: "(wk, j) \<in> C" "current (w_db w) j"
    and F: "FailExecution j wk dur out st (j_RetryCount j + 1) due w = (Inr u, w')"
  shows "(spec_by DoFinalize C)\<^sup>*\<^sup>* (spec_view (w_db w)) (spec_view (w_db w'))"
proof -
  let ?d = "w_db w" and ?P = "owned_by (j_ID j) wk"
  note k = db_okD(1) [OF ok(1)]
  have gen: "(spec_by DoFinalize C)\<^sup>*\<^sup>* (spec_view ?d) (spec_view (w_db w'))"
    if r: "r \<in> set (jobs ?d)" "?P r" and d': "jobs (w_db w') = upd_where ?P f (jobs ?d)"
      and f: "\<And>s. j_ID (f s) = j_ID s"
      and x: "failed_job (j_RetryCount r) (j_MaxRetries r) (spec_of (f r))" for r f
  proof -
    have h: "spec_view ?d (j_ID r) = Some (spec_row (Held wk) (j_RetryCount r) (j_MaxRetries r))"
      using spec_view_in [OF k r(1)] held_row [OF r(2)] by simp
    have "wk \<in> fst ` C" using c(1) by force
    then show ?thesis
      by (intro one_spec_step [OF _ spec_step.fail [where m = "spec_view ?d" and i = "j_ID r", OF h x]])
         (use spec_view_update [OF k r(1), of ?P f] r(2) f d' in \<open>auto simp: allowed_def owned_by_def\<close>)
  qed
  from F show ?thesis
  proof (cases rule: FailExecution_okE)
    case (retry eid eid' r a)
    let ?f = "retry_row (j_RetryCount j + 1) due (x_Message out) (tx_now w)"
    have js: "jobs (w_db w') = upd_where ?P ?f (jobs ?d)" using retry(1) by (simp add: retry_effect_def)
    have n: "j_RetryCount r = j_RetryCount j" using c(2) retry by (auto simp: current_def owned_by_def)
    have "?f r \<in> set (jobs (w_db w'))" using retry js by (auto simp: in_upd_where)
    from row_ok [OF ok(2) this] have "j_RetryCount j + 1 \<le> j_MaxRetries r" by (simp add: job_ok_def retry_row_def)
    then show ?thesis
      using failed_rows(1) [OF row_ok [OF ok(1) retry(6)]] retry(6,7) n
      by (intro gen [OF retry(6,7) js]) (auto simp: owned_by_def retry_row_def)
  next
    case (dead did eid eid' r a)
    let ?f = "dead_letter_row (j_RetryCount j + 1) (x_Message out) (tx_now w)"
    have js: "jobs (w_db w') = upd_where ?P ?f (jobs ?d)" using dead(1) by (simp add: dead_effect_def)
    have n: "j_RetryCount r = j_RetryCount j" using c(2) dead by (auto simp: current_def owned_by_def)
    then show ?thesis
      using failed_rows(2) [OF row_ok [OF ok(1) dead(7)]] dead(7,8)
      by (intro gen [OF dead(7,8) js]) (auto simp: owned_by_def dead_letter_row_def)
  qed
qed

lemma call_view:
  assumes "repo_call a C d d'" and "a \<noteq> DoRelease" and "db_ok d" and "db_ok d'"
    and "\<forall>(wk, j)\<in>C. claim_ok d j \<and> current d j"
  shows "(spec_by a C)\<^sup>*\<^sup>* (spec_view d) (spec_view d')"
  using assms
proof (induction rule: repo_call.induct)
  case (create j w x w' C)
  from create(2) show ?case
  proof (cases rule: Create_okE)
    case (inserted r eid)
    show ?thesis
      by (rule submit_view [of r]) (use inserted create(1,3) in \<open>auto simp: new_job_ok_def acceptable_def waiting_def create_row_def\<close>)
  qed simp
next
  case (operator "from" to t i w w' C)
  then show ?case using operator_view by blast
next
  case (requeue t i due w x w' C)
  from requeue(1) show ?case
  proof (cases rule: RequeueDeadLetter_okE)
    case (1 dl newID st eid)
    show ?thesis
      by (rule submit_view [of "requeue_row dl newID t st due (tx_now w)"])
         (use 1 initialStatus_cases [of due "w_clock w (w_ticks w)"] in
           \<open>auto simp: requeue_effect_def requeue_row_def waiting_def\<close>)
  qed
next
  case (recover reason w n w' C)
  show ?case
    by (rule recover_rel [where R = "\<lambda>d d'. (spec_by DoRecover C)\<^sup>*\<^sup>* (spec_view d) (spec_view d')", OF _ _ _ recover(3,1)])
       (auto intro: recover_view)
next
  case (claim wk n ttl w ys w' C)
  show ?case
    by (rule claim_rel [where R = "\<lambda>d d'. (spec_by DoClaim C)\<^sup>*\<^sup>* (spec_view d) (spec_view d')", OF _ _ _ claim(3,1)])
       (auto intro: claim_view)
next
  case (extend i wk ttl w b w' C)
  from extend(1) show ?case
  proof (cases rule: ExtendLease_okE)
    case (1 now)
    have "spec_view (w_db w') = spec_view (w_db w)"
      by (rule spec_view_unchanged [where P = "owned_by i wk" and f = "\<lambda>r. r\<lparr>j_LockedUntil :=
            Some (now + interval_seconds (duration_Seconds ttl)), j_UpdatedAt := now\<rparr>"])
         (simp_all add: 1(1) spec_of_def phase_of_def)
    then show ?thesis by simp
  qed
next
  case (attempt i wk n w x w' C)
  then have "jobs (w_db w') = jobs (w_db w)"
    by (auto simp: CreateAttempt_def pool_stmt_def tx_simps Let_def split: if_splits option.splits)
  then show ?case by (rule same_view)
next
  case (complete wk j C dur res w w')
  then show ?case using complete_view by blast
next
  case (fail wk j C dur out st due w w')
  then have "current (w_db w) j" by auto
  with fail show ?case using fail_view by blast
next
  case (publish a d d' C)
  then show ?case by (intro same_view) (auto simp: same_but_published_def)
next
  case (clients d d' C)
  then show ?case by (intro same_view) (auto simp: same_but_clients_def)
qed simp_all

text \<open>
  C2: the system implements the abstract machine.  From an empty database and without lock-miss releases,
  each step of the system is a run of abstract steps that its action allows: creations and requeues submit one
  waiting job, claims only take waiting jobs, a worker finishes only what it holds and with one more
  failure or success, recovery only expires held jobs and ends them only at their limit, operators
  withdraw, suspend and continue, and everything else leaves all jobs as they are.
\<close>

theorem system_refines_spec:
  assumes "initial s0" and "budget_step\<^sup>*\<^sup>* s0 s" and "sys_step a s s'" and "a \<noteq> DoRelease"
  shows "spec_view (sy_db s0) = Map.empty \<and>
    (spec_by a (sy_claims s))\<^sup>*\<^sup>* (spec_view (sy_db s)) (spec_view (sy_db s'))"
proof
  show "spec_view (sy_db s0) = Map.empty"
    using assms(1) by (auto simp: initial_def empty_db_def spec_view_def)
  have inv: "budget_inv s" by (rule budget_run_inv [OF assms(1,2)])
  then have ok: "db_ok (sy_db s)" "\<forall>(wk, j)\<in>sy_claims s. claim_ok (sy_db s) j \<and> current (sy_db s) j"
    by (auto simp: budget_inv_def sys_inv_def)
  have "db_ok (sy_db s')" using sys_step_sound [OF assms(3)] inv by (simp add: budget_inv_def sys_inv_def)
  with call_view [OF step_repo_call [OF assms(3)] assms(4) ok(1) _ ok(2)]
  show "(spec_by a (sy_claims s))\<^sup>*\<^sup>* (spec_view (sy_db s)) (spec_view (sy_db s'))" by blast
qed

end
