(* ===== verification/Progress.thy ===== *)
theory Progress
  imports Job_Types Claim_Properties Worker_Properties
begin

text \<open>
  Progress: a due job that a worker claims and whose handler succeeds ends SUCCEEDED, as long as the round
  trips work and nobody takes the job away in the meantime.  Other processes may do anything else.
\<close>

section \<open>What a worker holds\<close>

text \<open>The worker owns the job, its attempt is open, and the next generated event identifier is new.\<close>

definition in_hand :: "Job \<Rightarrow> string \<Rightarrow> uuid \<Rightarrow> db \<Rightarrow> bool" where
  "in_hand j wk eid d \<longleftrightarrow> holds_job d j wk \<and> attempt_open d j \<and> eid \<notin> event_ids d"

text \<open>Transactions of others that leave it to the worker, in every gap of an execution.\<close>

definition leaves :: "(db \<Rightarrow> bool) \<Rightarrow> (db, 'l) gap \<Rightarrow> bool" where
  "leaves P g \<longleftrightarrow> (\<forall>d l. P d \<longrightarrow> P (fst (g (d, l))))"

definition undisturbed :: "(db \<Rightarrow> bool) \<Rightarrow> (db, 'l) execution \<Rightarrow> bool" where
  "undisturbed P ex \<longleftrightarrow>
     leaves P (ex_before ex) \<and> leaves P (ex_after ex) \<and> list_all (leaves P) (ex_ticks ex)"

lemma leaves_gap:
  assumes "leaves P g" and "P (w_db w)" and "apply_gap g (w, l) = (w', l')"
  shows "P (w_db w')" and "no_faults w' = no_faults w" and "next_id w' = next_id w"
  using assms by (auto simp: leaves_def apply_gap_def split: prod.splits) (metis fst_conv)

lemma in_hand_update:
  assumes "in_hand j wk eid d" and "\<And>r. owned_by (j_ID j) wk (f r) = owned_by (j_ID j) wk r"
    and "\<And>r. j_TenantID (f r) = j_TenantID r"
  shows "in_hand j wk eid (d\<lparr>jobs := upd_where P f (jobs d)\<rparr>)"
proof -
  from assms(1) obtain r where r: "r \<in> set (jobs d)" "owned_by (j_ID j) wk r" "j_TenantID r = j_TenantID j"
    by (auto simp: in_hand_def holds_job_def)
  then have "(if P r then f r else r) \<in> set (upd_where P f (jobs d))" by (auto simp: in_upd_where)
  moreover have "owned_by (j_ID j) wk (if P r then f r else r)"
    "j_TenantID (if P r then f r else r) = j_TenantID j"
    using r assms(2,3) by auto
  ultimately have "holds_job (d\<lparr>jobs := upd_where P f (jobs d)\<rparr>) j wk"
    unfolding holds_job_def by (intro bexI) auto
  with assms(1) show ?thesis by (simp add: in_hand_def attempt_open_def)
qed

lemma ExtendLease_in_hand:
  assumes "no_faults w" and "in_hand j wk (next_id w) (w_db w)" and "ExtendLease i wk ttl w = (b, w')"
  shows "no_faults w' \<and> next_id w' = next_id w \<and> in_hand j wk (next_id w) (w_db w')"
proof -
  let ?f = "\<lambda>now r. r\<lparr>j_LockedUntil := Some (now + interval_seconds (duration_Seconds ttl)), j_UpdatedAt := now\<rparr>"
  let ?now = "w_dbclock w (Suc (w_txs w))"
  have "w_db w' = (w_db w)\<lparr>jobs := upd_where (owned_by i wk) (?f ?now) (jobs (w_db w))\<rparr>"
    "w_faults w' = w_faults w" "next_id w' = next_id w"
    using assms(1,3) by (auto simp: ExtendLease_def bind_tx_def new_tx_def run_simps update_jobs_def)
  moreover have "in_hand j wk (next_id w)
      ((w_db w)\<lparr>jobs := upd_where (owned_by i wk) (?f ?now) (jobs (w_db w))\<rparr>)"
    by (rule in_hand_update [OF assms(2)]) (simp_all add: owned_by_def)
  ultimately show ?thesis using assms(1) by (simp add: no_faults_def)
qed

lemma renewLease_in_hand:
  assumes "list_all (leaves (in_hand j wk eid)) gs" and "no_faults w" and "eid = next_id w"
    and "in_hand j wk eid (w_db w)" and "renewLease PostgresRepository lm wk key i ttl gs (w, l) = (c, (w', l'))"
  shows "no_faults w' \<and> next_id w' = eid \<and> in_hand j wk eid (w_db w')"
  using assms
proof (induction gs arbitrary: w l)
  case (Cons g gs)
  obtain w1 l1 where g: "apply_gap g (w, l) = (w1, l1)" by fastforce
  obtain r w2 where e: "ExtendLease i wk ttl w1 = (r, w2)" by fastforce
  note h1 = leaves_gap [where P = "in_hand j wk eid", OF _ Cons.prems(4) g]
  have l: "leaves (in_hand j wk eid) g" using Cons.prems(1) by simp
  have n1: "next_id w1 = eid" and f1: "no_faults w1" using h1(2,3) [OF l] Cons.prems(2,3) by simp_all
  have h2: "no_faults w2 \<and> next_id w2 = eid \<and> in_hand j wk eid (w_db w2)"
    using ExtendLease_in_hand [OF f1 _ e, of j] h1(1) [OF l] unfolding n1 by blast
  have rest: "no_faults w' \<and> next_id w' = eid \<and> in_hand j wk eid (w_db w')"
    if "renewLease PostgresRepository lm wk key i ttl gs (w2, l2) = (c, (w', l'))" for l2
    using that Cons.prems(1) h2 by (intro Cons.IH [of w2 l2]) auto
  show ?case
    using Cons.prems(5) g e h2 rest
    by (simp split: sum.splits bool.splits option.splits prod.splits)
qed simp

section \<open>A successful handler\<close>

definition succeeded :: "Job \<Rightarrow> db \<Rightarrow> bool" where
  "succeeded j d \<longleftrightarrow>
     (\<exists>r\<in>set (jobs d). j_ID r = j_ID j \<and> j_Status r = StatusSucceeded \<and> j_LockedBy r = None) \<and>
     (\<exists>a\<in>set (job_attempts d). a_ID a = j_ActiveAttemptID j \<and> a_Status a = AttemptSucceeded) \<and>
     (\<exists>e\<in>set (job_events d). e_JobID e = j_ID j \<and> e_EventType e = ''job.completed'')"

lemma complete_effect_succeeded:
  assumes "holds_job d j wk" and "attempt_open d j"
  shows "succeeded j (complete_effect j wk dur res now eid d)"
proof -
  from assms(1) obtain r where r: "r \<in> set (jobs d)" "owned_by (j_ID j) wk r" "j_TenantID r = j_TenantID j"
    by (auto simp: holds_job_def)
  then have "succeed_row now r \<in> set (jobs (complete_effect j wk dur res now eid d))"
    by (auto simp: complete_effect_def in_upd_where)
  moreover have "j_ID (succeed_row now r) = j_ID j" "j_Status (succeed_row now r) = StatusSucceeded"
    "j_LockedBy (succeed_row now r) = None"
    using r(2) by (simp_all add: succeed_row_def owned_by_def)
  moreover have "\<exists>a\<in>set (job_attempts (complete_effect j wk dur res now eid d)).
      a_ID a = j_ActiveAttemptID j \<and> a_Status a = AttemptSucceeded"
  proof -
    from assms(2) obtain a where a: "a \<in> set (job_attempts d)" "a_ID a = j_ActiveAttemptID j"
      "a_Status a = AttemptRunning" by (auto simp: attempt_open_def)
    let ?g = "\<lambda>a. a\<lparr>a_Status := AttemptSucceeded, a_CompletedAt := Some now,
      a_ExecutionDurationMS := Some (duration_Milliseconds dur), a_Result := nullableJSON res\<rparr>"
    have "?g a \<in> set (job_attempts (complete_effect j wk dur res now eid d))"
      using a by (auto simp: complete_effect_def in_upd_where intro!: bexI [of _ a])
    with a(2) show ?thesis by (intro bexI [of _ "?g a"]) simp_all
  qed
  moreover have "\<exists>e\<in>set (job_events (complete_effect j wk dur res now eid d)).
      e_JobID e = j_ID j \<and> e_EventType e = ''job.completed''"
    by (simp add: complete_effect_def new_event_def)
  ultimately show ?thesis unfolding succeeded_def by blast
qed

lemma finalize_success:
  assumes "no_faults w" and "in_hand j wk (next_id w) (w_db w)"
  shows "\<exists>w'. finalize PostgresRepository wk j dur (Inr res) w = (Inr (), w') \<and> succeeded j (w_db w')"
proof -
  obtain r w' where C: "CompleteExecution j wk dur res w = (r, w')" by fastforce
  have "r = Inr ()" "succeeded j (w_db w')"
    using CompleteExecution_run [OF assms(1), of j wk dur res] complete_effect_succeeded assms(2) C
    by (simp_all add: in_hand_def)
  with C show ?thesis
    by (simp add: finalize_def bind_tx_def try_tx_def return_tx_def PostgresRepository_def)
qed

lemma ProcessJob_success:
  assumes "no_faults w" and "in_hand j (wk_ID s) (next_id w) (w_db w)" and "j_ActiveAttemptID j \<noteq> uuid_Nil"
    and "undisturbed (in_hand j (wk_ID s) (next_id w)) ex"
    and "\<And>t c. ex_handler ex j t c = Inr res"
    and "lm_Acquire lm (lock_key ustr (j_ID j)) (wk_ID s) (lease_ttl s j) l = (Inr True, l1)"
  shows "\<exists>w' l'. ProcessJob ustr PostgresRepository lm s ex j (w, l) = (Inr (), (w', l')) \<and>
    succeeded j (w_db w')"
proof -
  let ?H = "in_hand j (wk_ID s) (next_id w)" and ?k = "lock_key ustr (j_ID j)" and ?ttl = "lease_ttl s j"
  obtain w1 l2 where 1: "apply_gap (ex_before ex) (w, l1) = (w1, l2)" by fastforce
  note h1 = leaves_gap [where P = ?H, OF _ assms(2) 1]
  have a: "ensure_attempt PostgresRepository (wk_ID s) j w1 = (Inr j, w1)"
    using assms(3) by (simp add: ensure_attempt_def return_tx_def)
  obtain c w2 l3 where 2: "renewLease PostgresRepository lm (wk_ID s) ?k (j_ID j) ?ttl (ex_ticks ex) (w1, l2)
      = (c, (w2, l3))" by (metis prod.exhaust)
  have h2: "no_faults w2 \<and> next_id w2 = next_id w \<and> ?H (w_db w2)"
    by (rule renewLease_in_hand [OF _ _ _ _ 2]) (use h1 assms in \<open>simp_all add: undisturbed_def\<close>)
  then have h2': "?H (w_db w2)" by blast
  obtain w3 l4 where 3: "apply_gap (ex_after ex) (w2, l3) = (w3, l4)" by fastforce
  note h3 = leaves_gap [where P = ?H, OF _ h2' 3]
  obtain w4 where 4: "finalize PostgresRepository (wk_ID s) j (ex_duration ex) (Inr res) w3 = (Inr (), w4)"
    "succeeded j (w_db w4)"
    using finalize_success [of w3 j "wk_ID s" "ex_duration ex" res] h2 h3 assms(4) by (auto simp: undisturbed_def)
  have "execute_locked PostgresRepository lm (wk_ID s) ?k ?ttl ex j (w, l1) = (Inr (), (w4, l4))"
    by (simp add: execute_locked_def 1 2 3 4 a assms(5))
  with 4(2) assms(6) show ?thesis by (auto simp: ProcessJob_def split: prod.splits)
qed

section \<open>A claimed job is in hand\<close>

lemma claim_one_fresh:
  assumes "claim_one wk ttl j w = (Inr y, w')"
  shows "j_ActiveAttemptID y = w_fresh w (w_used w)" and "w_fresh w' = w_fresh w" and "w_used w' = w_used w + 2"
  using assms
  by (auto simp: claim_one_def Let_def tx_simps insert_attempt_def insertJobEvent_def json_Marshal_def
      table_simps claimed_job_def split: if_splits)

abbreviation next_ids :: "nat \<Rightarrow> pg_world \<Rightarrow> uuid set" where
  "next_ids n w \<equiv> w_fresh w ` {w_used w ..< w_used w + n}"

lemma claim_loop_fresh:
  "for_tx (claim_one wk ttl) xs w = (Inr ys, w') \<Longrightarrow> y \<in> set ys \<Longrightarrow>
   j_ActiveAttemptID y \<in> next_ids (2 * length xs) w"
proof (induction xs arbitrary: w ys)
  case (Cons x xs)
  then obtain z zs w1 where z: "claim_one wk ttl x w = (Inr z, w1)"
    and zs: "for_tx (claim_one wk ttl) xs w1 = (Inr zs, w')" "ys = z # zs"
    by (auto simp: tx_simps)
  note f = claim_one_fresh [OF z]
  have "next_ids (2 * length xs) w1 \<subseteq> next_ids (2 * length (x # xs)) w"
    by (rule subsetI) (auto simp: f)
  with Cons.IH [OF zs(1)] Cons.prems(2) f(1) zs(2) show ?case by auto
qed (simp add: tx_simps)

lemma claims_fresh:
  assumes "ClaimDueJobs wk n ttl w = (Inr ys, w')" and "y \<in> set ys"
  shows "j_ActiveAttemptID y \<in> next_ids (2 * length (due_rows n w)) w"
proof -
  from assms(1) obtain w1 w2 where
    "for_tx (claim_one wk ttl) (map scanJob (due_rows n w)) w1 = (Inr ys, w2)"
    "w_fresh w1 = w_fresh w" "w_used w1 = w_used w"
    by (auto simp: ClaimDueJobs_def in_tx_ok tx_simps begun_def split: if_splits)
  with claim_loop_fresh [OF this(1) assms(2)] show ?thesis by simp
qed

lemma claim_batch_in_hand:
  assumes b: "claim_batch wk ttl now (map scanJob rs) ys eids d d'" and rs: "set rs \<subseteq> set (jobs d)"
    and y: "y \<in> set ys"
  shows "holds_job d' y wk" and "attempt_open d' y"
proof -
  from b have L: "list_all2 (\<lambda>j y. \<exists>t aid. y = claimed_job wk ttl t aid j) (map scanJob rs) ys"
    by (simp add: claim_batch_def)
  from y obtain i where i: "i < length ys" "y = ys ! i" by (auto simp: in_set_conv_nth)
  with L obtain t aid where c: "y = claimed_job wk ttl t aid (scanJob (rs ! i))" and l: "i < length rs"
    by (auto simp: list_all2_conv_all_nth)
  let ?r = "rs ! i"
  have id: "j_ID y = j_ID ?r" "j_TenantID y = j_TenantID ?r"
    by (simp_all add: c claimed_job_def scanJob_def job_cols.defs Job.defs)
  have "j_ID ?r \<in> j_ID ` set (map scanJob rs)"
    using l by (intro image_eqI [of _ _ "scanJob ?r"]) (simp_all add: scanJob_def job_cols.defs Job.defs)
  moreover have "?r \<in> set (jobs d)" using rs l by auto
  ultimately have "claim_row wk ttl now ?r \<in> set (jobs d')"
    using b by (auto simp: claim_batch_def in_upd_where intro!: bexI [of _ ?r])
  moreover have "owned_by (j_ID y) wk (claim_row wk ttl now ?r)"
    "j_TenantID (claim_row wk ttl now ?r) = j_TenantID y"
    by (simp_all add: owned_by_def claim_row_def id)
  ultimately show "holds_job d' y wk" unfolding holds_job_def by blast
  show "attempt_open d' y"
    unfolding attempt_open_def
    by (rule bexI [of _ "attempt_of wk now y"])
       (use b y in \<open>auto simp: claim_batch_def attempt_of_def running_attempt_def\<close>)
qed

text \<open>
  Processing the job from the database \<open>d\<close> ends well: in every world with working round trips and a new event
  identifier, with a free lock, a handler that succeeds and transactions of others in all gaps that leave
  the job to the worker.
\<close>

definition completes :: "(uuid \<Rightarrow> string) \<Rightarrow> 'l LockManager \<Rightarrow> worker \<Rightarrow> db \<Rightarrow> Job \<Rightarrow> bool" where
  "completes ustr lm s d j \<longleftrightarrow>
     (\<forall>v ex res l l1. w_db v = d \<and> no_faults v \<and> next_id v \<notin> event_ids d \<and>
        undisturbed (in_hand j (wk_ID s) (next_id v)) ex \<and> (\<forall>t c. ex_handler ex j t c = Inr res) \<and>
        lm_Acquire lm (lock_key ustr (j_ID j)) (wk_ID s) (lease_ttl s j) l = (Inr True, l1) \<longrightarrow>
        (\<exists>v' l'. ProcessJob ustr PostgresRepository lm s ex j (v, l) = (Inr (), (v', l')) \<and>
           succeeded j (w_db v')))"

lemma in_hand_completes:
  assumes "holds_job d j (wk_ID s)" and "attempt_open d j" and "j_ActiveAttemptID j \<noteq> uuid_Nil"
  shows "completes ustr lm s d j"
  unfolding completes_def
proof (intro allI impI, elim conjE)
  fix v l l1 res and ex :: "(db, 'a) execution"
  assume v: "w_db v = d" "next_id v \<notin> event_ids d" and nf: "no_faults v"
    and u: "undisturbed (in_hand j (wk_ID s) (next_id v)) ex" and h: "\<forall>t c. ex_handler ex j t c = Inr res"
    and a: "lm_Acquire lm (lock_key ustr (j_ID j)) (wk_ID s) (lease_ttl s j) l = (Inr True, l1)"
  have "in_hand j (wk_ID s) (next_id v) (w_db v)" using assms(1,2) v by (simp add: in_hand_def)
  from ProcessJob_success [OF nf this assms(3) u _ a] h
  show "\<exists>v' l'. ProcessJob ustr PostgresRepository lm s ex j (v, l) = (Inr (), (v', l')) \<and> succeeded j (w_db v')"
    by blast
qed

text \<open>
  C13: due jobs make progress.  With working round trips and new identifiers a claim returns every selected
  job, and processing each of them completes: with a free lock and a handler that succeeds the job ends
  SUCCEEDED and unlocked, its attempt SUCCEEDED, with a \<open>job.completed\<close> event.  Leases are renewed any number
  of times, and other transactions run in all gaps as long as they leave the job to the worker.
\<close>

theorem due_job_succeeds:
  assumes "db_ok (w_db w)" and "no_faults w" and "0 \<le> n" and "fresh_ids (2 * length (due_rows n w)) w"
    and "\<forall>r\<in>set (due_rows n w). int4 (j_RetryCount r + 1)"
    and "uuid_Nil \<notin> next_ids (2 * length (due_rows n w)) w"
  shows "\<exists>ys w'. ClaimDueJobs (wk_ID s) n ttl w = (Inr ys, w') \<and> map j_ID ys = map j_ID (due_rows n w) \<and>
    (\<forall>j\<in>set ys. completes ustr lm s (w_db w') j)"
proof -
  obtain ys w' where C: "ClaimDueJobs (wk_ID s) n ttl w = (Inr ys, w')"
    using ClaimDueJobs_run [OF assms(2-5)] by blast
  from ClaimDueJobs_batch [OF assms(1) C] obtain eids where
    b: "claim_batch (wk_ID s) ttl (tx_now w) (map scanJob (due_rows n w)) ys eids (w_db w) (w_db w')" by blast
  have ids: "map j_ID ys = map j_ID (due_rows n w)"
    using claim_batch_ids [OF b] by (simp add: comp_def scanJob_def job_cols.defs Job.defs)
  have sub: "set (due_rows n w) \<subseteq> set (jobs (w_db w))" using select_due_sub by fastforce
  have "completes ustr lm s (w_db w') j" if j: "j \<in> set ys" for j
  proof (rule in_hand_completes [OF claim_batch_in_hand [OF b sub j]])
    show "j_ActiveAttemptID j \<noteq> uuid_Nil" using claims_fresh [OF C j] assms(6) by metis
  qed
  with C ids show ?thesis by blast
qed

text \<open>The two due jobs of the sample database, with two renewals.\<close>

lemma new_event_id:
  assumes "length (job_events d) < 1000"
  shows "\<exists>x :: uuid. x \<notin> event_ids d"
proof (rule ccontr)
  assume "\<not> ?thesis"
  then have "event_ids d = UNIV" by blast
  moreover have "card (event_ids d) \<le> length (job_events d)"
    using card_image_le [of "set (job_events d)" e_ID] card_length [of "job_events d"] by simp
  ultimately have "card (UNIV :: uuid set) < 1000" using assms by simp
  then show False by (simp add: card_word)
qed

lemma quiet_undisturbed: "undisturbed P (quiet_execution n res)"
  by (simp add: undisturbed_def leaves_def quiet_execution_def list_all_length)

theorem due_job_succeeds_witness:
  "\<exists>ys w' j v v' l'. ClaimDueJobs (wk_ID sample_worker) 2 Minute (sample_world sample_db) = (Inr ys, w') \<and>
     j \<in> set ys \<and> j_ID j = 11 \<and> w_db v = w_db w' \<and>
     ProcessJob (\<lambda>_. ''11'') PostgresRepository noopLockManager sample_worker
       (quiet_execution 2 (Inr ''{}'')) j (v, ()) = (Inr (), (v', l')) \<and> succeeded j (w_db v')"
proof -
  let ?w = "sample_world sample_db" and ?ex = "quiet_execution 2 (Inr ''{}'') :: (db, unit) execution"
  let ?r = "sample_job 11 StatusScheduled 9"
  have ints: "\<forall>r\<in>{?r, sample_job 10 StatusPending 5}. int4 (j_RetryCount r + 1)"
    by (simp add: sample_job_def int4_def)
  have "{0..<4} = {0, 1, 2, 3 :: nat}" by auto
  then have nil: "uuid_Nil \<notin> next_ids 4 ?w" by simp
  have prem: "db_ok (w_db ?w)" "no_faults ?w" "(0 :: int) \<le> 2" "fresh_ids (2 * length (due_rows 2 ?w)) ?w"
    "\<forall>r\<in>set (due_rows 2 ?w). int4 (j_RetryCount r + 1)" "uuid_Nil \<notin> next_ids (2 * length (due_rows 2 ?w)) ?w"
    using ints nil fresh_ids_sample [OF _ sample_ids, of 4] by (simp_all add: due_rows_sample)
  from due_job_succeeds [OF prem, of sample_worker Minute "\<lambda>_. ''11''"
      "noopLockManager :: unit LockManager"]
  obtain ys w' where C: "ClaimDueJobs (wk_ID sample_worker) 2 Minute ?w = (Inr ys, w')"
    and ids: "map j_ID ys = [11, 10]"
    and P: "\<And>j. j \<in> set ys \<Longrightarrow> completes (\<lambda>_. ''11'') (noopLockManager :: unit LockManager) sample_worker (w_db w') j"
    by (auto simp: due_rows_sample sample_job_def)
  then obtain j where j: "j \<in> set ys" "j_ID j = 11" by (cases ys) auto
  from ClaimDueJobs_batch [OF _ C] obtain eids where
    "claim_batch (wk_ID sample_worker) Minute (tx_now ?w) (map scanJob (due_rows 2 ?w)) ys eids sample_db (w_db w')"
    by auto
  then have "length (job_events (w_db w')) = length (job_events sample_db) + 2"
    by (auto simp: claim_batch_def due_rows_sample dest: list_all2_lengthD)
  then obtain x :: uuid where x: "x \<notin> event_ids (w_db w')"
    using new_event_id [of "w_db w'"] by (auto simp: sample_db_def)
  let ?v = "(sample_world (w_db w'))\<lparr>w_fresh := \<lambda>_. x\<rparr>"
  have "lm_Acquire noopLockManager k own ttl () = (Inr True, ())" for k own ttl by (simp add: noopLockManager_def)
  moreover have "\<forall>t c. ex_handler ?ex j t c = Inr ''{}''" by (simp add: quiet_execution_def)
  ultimately obtain v' l' where "ProcessJob (\<lambda>_. ''11'') PostgresRepository noopLockManager sample_worker ?ex j (?v, ()) =
      (Inr (), (v', l'))" "succeeded j (w_db v')"
    using P [OF j(1), unfolded completes_def, rule_format, of ?v ?ex "''{}''" "()" "()"] x
    by (auto simp: no_faults_def quiet_undisturbed)
  with C j show ?thesis by (intro exI [of _ ys] exI [of _ w'] exI [of _ j] exI [of _ ?v] exI [of _ v']) auto
qed

end
