(* ===== verification/Spec2Isabelle.thy ===== *)
theory Spec2Isabelle
  imports System Claim_Properties Finalize_Properties Tenant_Properties Idempotency_Properties
    Service_Properties Worker_Properties Worker_Run Executor_Properties Outbox_Properties Relay_Process
    Auth_Properties Http_Properties Http_Typing Config Admin Retry_Budget Lifecycle_Log Metrics Processes
    Dashboard_Requests Schema_Conformance Job_Types Job_Spec Progress
begin

text \<open>
  \<^bold>\<open>A verification of the distributed job scheduler.\<close>

  The program is a job scheduler in Go: an HTTP API on which clients of several tenants create and steer
  jobs, workers that claim due jobs and call webhooks, a relay that forwards lifecycle events to Kafka,
  and a command for API keys.  All of them share one PostgreSQL database, which is the only authority;
  Redis adds a second lease per job, heartbeats and rate limits.

  \<^bold>\<open>Foundations.\<close>
  \<^item> \<open>Go_Prelude\<close>: Go's values.  An \<open>int\<close> of Go is a HOL \<open>int\<close>, with \<open>wrap64\<close> where the code can leave
    64 bits; a \<open>time.Duration\<close> is a \<open>64 word\<close> and wraps; a UUID is a \<open>128 word\<close>; an instant counts
    nanoseconds from the zero \<open>time.Time\<close>; a string is its bytes; an error is a \<open>go_error\<close>, with
    \<open>errors.Is\<close> and \<open>Error()\<close>.
  \<^item> \<open>Pg_Tx\<close>: a call is a function from a world to a result or an error and the world after it.  A world
    has the database, clocks, fresh identifiers, the rows other transactions have locked, and a list that
    says which round trips fail.  \<open>in_tx\<close> is \<open>Begin\<close>, body, \<open>Commit\<close> with the deferred \<open>Rollback\<close>;
    \<open>pool_stmt\<close> is one statement outside a transaction.  \<open>now()\<close> is fixed per transaction.
  \<^item> \<open>Engine\<close>, \<open>Job_Model\<close>: internal/scheduler/engine.go, internal/job/model.go, dto.go and the tables of
    migrations/.
  \<^item> \<open>Schema\<close>: the SQL files of migrations/, up and down, as statements on a catalog: tables with their
    columns, defaults, constraints and rows, and indexes.  \<open>exec_ddl\<close> is what PostgreSQL documents for
    them, errors included; a file runs as one transaction.

  \<^bold>\<open>Components.\<close>
  \<^item> \<open>Repository\<close>: every method of internal/job/repository.go, one definition per method and per SQL
    statement of some size.  Uniqueness, references and integer ranges are branches of the inserts.
  \<^item> \<open>Job_Service\<close>: internal/job/service.go and validator.go.  \<open>Auth\<close>: internal/auth.  \<open>Http_Api\<close>:
    internal/job/handler.go, internal/server/server.go, internal/middleware, internal/response.
  \<^item> \<open>Redis_Lock\<close>, \<open>Worker_Registry\<close>, \<open>Executor\<close>, \<open>Worker_Service\<close>, \<open>Worker_Run\<close>: internal/lock and
    internal/worker.  \<open>ProcessJob\<close> takes the handler's result and what other processes do to the database
    at the points where the code waits.
  \<^item> \<open>Outbox\<close>, \<open>Relay_Process\<close>: internal/outbox, internal/kafka and the envelope of internal/events.
  \<^item> \<open>Metrics\<close>: internal/observability, and the operations that call its recorder once more with those
    calls (creation, polling, finalization, publication, the request middleware).  Lemmas of the form
    \<open>plain m f\<close> say that they do to the database what the operations without metrics do.
  \<^item> \<open>Config\<close>, \<open>Processes\<close>, \<open>Admin\<close>: internal/config, internal/logger, internal/postgres, internal/redis,
    the main functions of cmd/api, cmd/worker and cmd/event-relay as traces of effects with Go's \<open>defer\<close>,
    \<open>panic\<close> and \<open>os.Exit\<close>, the health endpoints, and cmd/scheduler-admin.
  \<^item> \<open>Router\<close>: the patterns that the server registers and how a path matches them.  \<open>Dashboard\<close>,
    \<open>Dashboard_Requests\<close>: the API client of web/src/api.ts, and the requests, buttons, page state and forms
    of web/src/App.tsx.
  \<^item> \<open>System\<close>: all of them acting on one database in any order, as a step relation with the claims ever
    handed out.  \<open>System_Calls\<close>: each step as one successful call of a store, or nothing.

  \<^item> \<open>Job_Types\<close>: the reserved types of pkg/types, and the invariant that every stored job, dead letter and
    claim is a request that the validator accepts and the executor can run.

  \<^bold>\<open>Interfaces.\<close>  The locale \<open>worker_repository\<close> is what the worker relies on in a repository; it is
  interpreted on the model of \<open>PostgresRepository\<close>.  \<open>http_router\<close> is what the documentation of the router
  promises, whichever matching pattern it prefers.  \<open>lease_manager\<close> is the contract of a lock manager and
  \<open>redis_server\<close>, \<open>registry_server\<close>, \<open>kafka_client\<close> and \<open>prometheus_client\<close> are the documented behaviour of
  the servers and of the metrics library; they are interpreted on executable stores with expiring keys, on
  a topic whose writes may fail, on the collectors of a process and on a first-match router.

  \<^bold>\<open>What is shown.\<close>
  \<^item> \<open>Repo_Effects\<close> and \<open>Repo_Total\<close> compute what each method does when it succeeds and that it does succeed
    when nothing fails; \<open>Repo_Invariant\<close> has the invariant \<open>db_ok\<close> and that every method keeps it,
    moves jobs along the transition table, appends to the event log and never reopens an attempt.
    The properties of this theory lift that to every run of the system.
  \<^item> \<open>Retry_Budget\<close>, \<open>Lifecycle_Log\<close>: over whole runs, the retry counter and the attempts of a job against
    its recorded failures, and the events of a job as a lifecycle that ends with its status.  Both leave
    out runs in which a worker releases a claim after missing the Redis lock: \<open>ReleaseClaim\<close> writes no
    event and leaves the attempt open.
  \<^item> \<open>Job_Spec\<close>: an abstract machine of waiting, suspended, held and finished jobs with counted failures, and
    the simulation of every step of the system by it, in the same runs.  \<open>Progress\<close>: a claimed job whose
    handler succeeds ends SUCCEEDED, with lease renewals and whatever else runs beside it.
  \<^item> \<open>Claim_Properties\<close>, \<open>Finalize_Properties\<close>: claiming, completing, failing, cancelling and recovering, as
    equations on the tables; fencing of workers that lost their job; atomicity under failing round trips.
  \<^item> \<open>Tenant_Properties\<close>, \<open>Idempotency_Properties\<close>, \<open>Service_Properties\<close>: isolation of tenants, paging,
    idempotent creation, requeueing, validation, operator transitions and backoff.
  \<^item> \<open>Worker_Properties\<close>, \<open>Worker_Run\<close>, \<open>Executor_Properties\<close>: mutual exclusion of the lock, soundness of
    job processing with interleaved transactions, recorded failures, lost leases, the slots of the run
    loop, its termination in fair runs after a cancellation, and the network policy, headers and
    classification of webhooks.
  \<^item> \<open>Outbox_Properties\<close>, \<open>Relay_Process\<close>: published events were accepted, a healthy relay delivers, leases
    separate relays.
  \<^item> \<open>Auth_Properties\<close>, \<open>Http_Properties\<close>, \<open>Http_Typing\<close>: revocation, the token bucket, who
    may change anything through the API, what an error answer means and the type of every answer.
  \<^item> \<open>Router\<close>, \<open>Dashboard_Requests\<close>: registered patterns never overlap, every request of the dashboard reaches
    its route, and the client unwraps what the page asked for or an error of the server.
  \<^item> \<open>Metrics\<close>, \<open>Config\<close>, \<open>Processes\<close>, \<open>Admin\<close>: counters against the event log, counted requests, normalised
    settings, startup order and cleanup of the processes, generated keys and failing administrative
    commands.

  \<^item> \<open>Schema_Migration\<close>, \<open>Schema_Conformance\<close>: every statement keeps the constraints; the tenancy migration
    succeeds on every database of the old schema, keeps its rows and is undone by its down file; the
    rows that the program writes meet the constraints of the migrated schema in every reachable state.

  \<^bold>\<open>Bounds.\<close>  There is no fuel: every loop of the model recurses on the list of rows, ticks or arguments
  it works through, and the endless loops of \<open>Run\<close> are step relations or take the list of their ticks.
  Theorems that say that a call succeeds assume that no round trip fails (\<open>no_faults\<close>), that generated
  identifiers are new (\<open>fresh_ids\<close>) and that numbers fit their columns (\<open>int4\<close>).

  \<^bold>\<open>Parameters.\<close>  SHA-256, the validity of JSON and its decoding, URL parsing, DNS, the HTTP exchange of a
  webhook, case folding, parsing and printing of UUIDs and of RFC 3339 times, the choice of the router
  among matching patterns (the matched route is part of a request), the random source, the order of rows
  that \<open>UPDATE ... RETURNING\<close> gives back, the answers of the rate limiter and of the registry within one
  HTTP request, the route pattern and the measured durations of the request metrics, and the outcomes of opening connections,
  listening and working in the main functions.

  \<^bold>\<open>Simplifications.\<close>  A \<open>Commit\<close> that returns an error did not commit.  \<open>jsonb\<close> keeps the text it was
  given, and timestamps keep nanoseconds.  \<open>int(d.Seconds())\<close> is exact, as in Go below about 97 days.  The
  token bucket computes in exact rationals where Lua uses doubles.  Foreign keys to jobs cannot fail since
  rows are never deleted.  A request for an unknown route is answered by the router without the middlewares
  of the API group.  The overflow of integer columns by \<open>retry_count + 1\<close> inside SQL is not modelled.
  Metrics count in exact integers and rationals where Prometheus uses doubles.

  \<^bold>\<open>Not modelled.\<close>  The lines that are only logged, the endpoint that prints the metrics (the library's),
  the middleware that rewrites the remote address (the library's; nothing reads it), the ranges of
  integer columns in the schema (they are branches of the inserts), \<open>events.New\<close> (nothing in the program
  calls it), and the markup, styles and query cache of the dashboard.
\<close>

section \<open>The whole system\<close>

text \<open>A system in mid-flight: the sample database, with worker w1 holding its claim.\<close>

definition sample_system :: system where
  "sample_system = \<lparr>sy_db = sample_db, sy_claims = {(''w1'', sample_claim)}\<rparr>"

lemma sample_system_inv: "sys_inv sample_system"
  by (simp add: sys_inv_def sample_system_def)

lemma sample_system_sel [simp]: "sy_db sample_system = sample_db"
  by (simp add: sample_system_def)

text \<open>The first step of a fresh installation: a client creates a job.\<close>

lemma sample_creation:
  "\<exists>s0 s. initial s0 \<and> sys_step DoCreate s0 s \<and> length (jobs (sy_db s)) = 1"
proof -
  let ?d = "empty_db (tenants sample_db) []"
  let ?s = "\<lparr>sy_db = ?d, sy_claims = {}\<rparr>"
  have "sample_ready ?d" by (simp add: sample_ready_def empty_db_def)
  then obtain r w' where C: "Service_Create (\<lambda>_. True) fst sample_service None (sample_request ''a'')
      (sample_world ?d) = (r, w')" and j: "length (jobs (w_db w')) = 1"
    using sample_create [of ?d fst] by (auto simp: empty_db_def)
  have "sys_step DoCreate ?s (?s\<lparr>sy_db := w_db w'\<rparr>)"
    using sys_step.create [of "sample_world ?d" ?s, OF _ C] by simp
  moreover have "initial ?s" by (auto simp: initial_def)
  ultimately show ?thesis using j by (intro exI [of _ ?s] exI [of _ "?s\<lparr>sy_db := w_db w'\<rparr>"]) simp
qed

lemma sample_first_step: "\<exists>s. reachable s \<and> length (jobs (sy_db s)) = 1"
proof -
  obtain s0 s where s: "initial s0" "sys_step DoCreate s0 s" "length (jobs (sy_db s)) = 1"
    using sample_creation by blast
  then have "any_step\<^sup>*\<^sup>* s0 s" unfolding any_step_def by (intro r_into_rtranclp exI)
  with s show ?thesis unfolding reachable_def by blast
qed

theorem system_refines_spec_witness:
  "\<exists>s0 s. initial s0 \<and> sys_step DoCreate s0 s \<and> length (jobs (sy_db s)) = 1 \<and>
     (spec_by DoCreate (sy_claims s0))\<^sup>*\<^sup>* Map.empty (spec_view (sy_db s))"
proof -
  obtain s0 s where s: "initial s0" "sys_step DoCreate s0 s" "length (jobs (sy_db s)) = 1"
    using sample_creation by blast
  have a: "DoCreate \<noteq> DoRelease" by simp
  note R = system_refines_spec [OF s(1) rtranclp.rtrancl_refl s(2) a]
  have "(spec_by DoCreate (sy_claims s0))\<^sup>*\<^sup>* Map.empty (spec_view (sy_db s))"
    using conjunct2 [OF R] unfolding conjunct1 [OF R] .
  with s show ?thesis by blast
qed


text \<open>The job of worker w1 is cancelled; then worker w2 claims.\<close>

lemma sample_cancel_step:
  "\<exists>s'. any_step sample_system s' \<and> (\<exists>r\<in>set (jobs (sy_db s')). j_ID r = 12 \<and> j_Status r = StatusCancelled)
     \<and> (\<exists>a\<in>set (job_attempts (sy_db s')). a_ID a = 20 \<and> a_Status a \<noteq> AttemptRunning)
     \<and> job_events (sy_db s') \<noteq> []"
proof -
  let ?from = "[StatusPending, StatusScheduled, StatusRetryScheduled, StatusRunning]"
  obtain w' where T: "TransitionJob 1 12 ?from StatusCancelled (sample_world sample_db) = (Inr (), w')"
      and d: "w_db w' = transition_effect 1 12 ?from StatusCancelled sample_now 1000 sample_db"
    by (simp add: TransitionJob_def run_simps statement_defs rows_affected_def jval_ok_def sample_defs
        transition_effect_def)
  have "any_step sample_system (sample_system\<lparr>sy_db := w_db w'\<rparr>)"
    using sys_step.operator [of "sample_world sample_db" sample_system, OF _ _ T]
    by (auto simp: any_step_def service_moves_def)
  then show ?thesis
    by (intro exI [of _ "sample_system\<lparr>sy_db := w_db w'\<rparr>"])
       (simp add: d transition_effect_def transition_row_def cancel_attempt_row_def sample_defs)
qed

lemma sample_claim_step: "\<exists>s'. any_step s s'"
proof -
  obtain r w' where "ClaimDueJobs ''w2'' 5 Second (sample_world (sy_db s)) = (r, w')" by fastforce
  from sys_step.claim [OF _ this, of s] show ?thesis by (auto simp: any_step_def)
qed

lemma sample_run:
  obtains s1 s2 r a where "any_step sample_system s1" and "any_step s1 s2" and "sys_inv s1"
    and "any_step\<^sup>*\<^sup>* s1 s2"
    and "r \<in> set (jobs (sy_db s1))" and "j_ID r = 12" and "j_Status r = StatusCancelled"
    and "a \<in> set (job_attempts (sy_db s1))" and "a_ID a = 20" and "a_Status a \<noteq> AttemptRunning"
    and "job_events (sy_db s1) \<noteq> []"
proof -
  obtain s1 where s1: "any_step sample_system s1"
      "\<exists>r\<in>set (jobs (sy_db s1)). j_ID r = 12 \<and> j_Status r = StatusCancelled"
      "\<exists>a\<in>set (job_attempts (sy_db s1)). a_ID a = 20 \<and> a_Status a \<noteq> AttemptRunning"
      "job_events (sy_db s1) \<noteq> []"
    using sample_cancel_step by blast
  moreover obtain s2 where "any_step s1 s2" using sample_claim_step by blast
  moreover have "sys_inv s1" using steps_inv [OF r_into_rtranclp] s1(1) sample_system_inv by blast
  ultimately show thesis using that by (meson r_into_rtranclp)
qed

text \<open>
  C1: every state the system can reach, with any number of API processes, workers, relays and
  administrators acting in any order and any call failing, has a well-formed database, and every
  claim a worker ever received still names a job and an attempt of it with an unspent retry count.
\<close>

theorem reachable_well_formed:
  assumes "reachable s"
  shows "db_ok (sy_db s) \<and> (\<forall>(wk, j)\<in>sy_claims s. claim_ok (sy_db s) j)"
  using reachable_inv [OF assms] by (simp add: sys_inv_def)

theorem reachable_well_formed_witness:
  "\<exists>s. reachable s \<and> length (jobs (sy_db s)) = 1 \<and> db_ok (sy_db s)"
  using reachable_well_formed sample_first_step by blast

text \<open>
  C17: a step of a well-formed system loses no job and changes neither its identity, its request nor
  its limits; its status stays or takes one edge of the transition table of the scheduling engine,
  and never the edge out of DEAD_LETTERED.
\<close>

theorem jobs_follow_transitions:
  assumes "sys_inv s" and "sys_step a s s'" and "r \<in> set (jobs (sy_db s))"
  shows "\<exists>r'\<in>set (jobs (sy_db s')). job_const r' = job_const r \<and>
     (j_Status r' = j_Status r \<or>
      CanTransition (status_string (j_Status r)) (status_string (j_Status r')) \<and>
      j_Status r \<noteq> StatusDeadLettered)"
  using sys_step_sound [OF assms(2,1)] assms(3)
  by (auto simp: sound_call_def moves_def can_move_def)

theorem jobs_follow_transitions_witness:
  "\<exists>a s'. sys_step a sample_system s' \<and>
     (\<exists>r'\<in>set (jobs (sy_db s')). job_const r' = job_const (sample_running 12 ''w1'' (sample_now + 4000)) \<and>
      (j_Status r' = StatusRunning \<or> CanTransition ''RUNNING'' (status_string (j_Status r'))))"
proof -
  obtain a s' where step: "sys_step a sample_system s'"
    using sample_run unfolding any_step_def by blast
  have "sample_running 12 ''w1'' (sample_now + 4000) \<in> set (jobs (sy_db sample_system))"
    by (simp add: sample_db_def)
  from jobs_follow_transitions [OF sample_system_inv step this] show ?thesis
    using step by (fastforce simp: sample_running_def sample_job_def)
qed

text \<open>
  A job that is SUCCEEDED, CANCELLED or DEAD_LETTERED stays so through every run of the system.
\<close>

theorem final_states_absorbing:
  assumes "sys_inv s" and "any_step\<^sup>*\<^sup>* s s'" and "r \<in> set (jobs (sy_db s))" and "is_final (j_Status r)"
  shows "\<exists>r'\<in>set (jobs (sy_db s')). job_const r' = job_const r \<and> j_Status r' = j_Status r"
  using steps_final [OF assms(2,1,3,4)] .

theorem final_states_absorbing_witness:
  "\<exists>s1 s2. any_step sample_system s1 \<and> any_step s1 s2 \<and>
     (\<exists>r'\<in>set (jobs (sy_db s2)). j_ID r' = 12 \<and> j_Status r' = StatusCancelled)"
proof -
  obtain s1 s2 r where s: "any_step sample_system s1" "any_step s1 s2" "sys_inv s1" "any_step\<^sup>*\<^sup>* s1 s2"
      and r: "r \<in> set (jobs (sy_db s1))" "j_ID r = 12" "j_Status r = StatusCancelled"
    using sample_run by metis
  then obtain r' where "r' \<in> set (jobs (sy_db s2))" "job_const r' = job_const r" "j_Status r' = j_Status r"
    using final_states_absorbing [OF s(3) s(4) r(1)] by (auto simp: is_final_def)
  with s r show ?thesis by (auto simp: job_const_def)
qed



text \<open>
  C28: an attempt is finished at most once.  Once it is no longer RUNNING its row never changes
  again, whatever late completions, failures, cancellations and recoveries follow.
\<close>

theorem attempts_finish_once:
  assumes "sys_inv s" and "any_step\<^sup>*\<^sup>* s s'" and "a \<in> set (job_attempts (sy_db s))"
    and "a_Status a \<noteq> AttemptRunning"
  shows "a \<in> set (job_attempts (sy_db s'))"
  using steps_settled [OF assms(2,1)] assms(3,4) by (auto simp: settled_def)

theorem attempts_finish_once_witness:
  "\<exists>s1 s2. any_step sample_system s1 \<and> any_step s1 s2 \<and>
     (\<exists>a\<in>set (job_attempts (sy_db s2)). a_ID a = 20 \<and> a_Status a \<noteq> AttemptRunning)"
proof -
  obtain s1 s2 a where s: "any_step sample_system s1" "any_step s1 s2" "sys_inv s1" "any_step\<^sup>*\<^sup>* s1 s2"
      and a: "a \<in> set (job_attempts (sy_db s1))" "a_ID a = 20" "a_Status a \<noteq> AttemptRunning"
    using sample_run by metis
  with attempts_finish_once [OF s(3) s(4) a(1,3)] show ?thesis by blast
qed


text \<open>
  C12: the retry budget.  In every run of the system in which no worker gives a claim back after missing
  the Redis lock, the retry counter of a job is the number of its recorded failures and expired
  executions, a job is attempted at most \<open>max_retries + 1\<close> times, and a job that failed that often is
  DEAD_LETTERED.
\<close>

theorem retry_budget:
  assumes "initial s0" and "budget_step\<^sup>*\<^sup>* s0 s" and "r \<in> set (jobs (sy_db s))"
  shows "j_RetryCount r = int (failures (sy_db s) (j_ID r)) \<and>
     int (tries (sy_db s) (j_ID r)) \<le> j_MaxRetries r + 1 \<and>
     int (failures (sy_db s) (j_ID r)) \<le> j_MaxRetries r + 1 \<and>
     (int (failures (sy_db s) (j_ID r)) = j_MaxRetries r + 1 \<longrightarrow> j_Status r = StatusDeadLettered)"
proof -
  have "budget_inv s" by (rule budget_run_inv [OF assms(1,2)])
  with assms(3) have "accounted (sy_db s) r" "job_ok r"
    by (simp_all add: budget_inv_def books_ok_def sys_inv_def db_ok_def rows_ok_def)
  then show ?thesis
    by (auto simp: accounted_def job_ok_def tries_due_def split: if_splits)
qed

theorem retry_budget_witness:
  "\<exists>s0 s. initial s0 \<and> budget_step\<^sup>*\<^sup>* s0 s \<and>
     (\<exists>r\<in>set (jobs (sy_db s)). j_RetryCount r = int (failures (sy_db s) (j_ID r)) \<and>
        int (tries (sy_db s) (j_ID r)) \<le> j_MaxRetries r + 1)"
proof -
  obtain s0 s where s: "initial s0" "sys_step DoCreate s0 s" "length (jobs (sy_db s)) = 1"
    using sample_creation by blast
  then obtain r where "r \<in> set (jobs (sy_db s))" by (cases "jobs (sy_db s)") auto
  moreover from s(2) have "budget_step\<^sup>*\<^sup>* s0 s"
    unfolding budget_step_def by (intro r_into_rtranclp exI [of _ DoCreate]) simp
  ultimately show ?thesis using s(1) retry_budget by meson
qed


text \<open>
  C3: the event log tells the lifecycle of every job.  In every run of the system in which no worker gives
  a claim back after missing the Redis lock, the events of a job, in the order of the log, begin with its
  creation or its requeueing, follow each other as the lifecycle allows, and end with the event of the
  status that the job has.
\<close>

theorem log_tells_lifecycle:
  assumes "initial s0" and "logged_step\<^sup>*\<^sup>* s0 s" and "r \<in> set (jobs (sy_db s))"
  shows "\<exists>t ts. history (sy_db s) (j_ID r) = t # ts \<and> t \<in> {''job.created'', ''job.requeued''} \<and>
     successively followed_by (t # ts) \<and> tells (last (t # ts)) (j_Status r)"
proof -
  from logged_run [OF assms(1,2)] assms(3) have "lifecycle (history (sy_db s) (j_ID r)) (j_Status r)"
    by (simp add: log_ok_def)
  then show ?thesis by (cases "history (sy_db s) (j_ID r)") (simp_all add: lifecycle_def)
qed

theorem log_tells_lifecycle_witness:
  "\<exists>s0 s. initial s0 \<and> logged_step\<^sup>*\<^sup>* s0 s \<and> (\<exists>r\<in>set (jobs (sy_db s)). \<exists>t ts.
     history (sy_db s) (j_ID r) = t # ts \<and> t \<in> {''job.created'', ''job.requeued''} \<and>
     tells (last (t # ts)) (j_Status r))"
proof -
  obtain s0 s where s: "initial s0" "sys_step DoCreate s0 s" "length (jobs (sy_db s)) = 1"
    using sample_creation by blast
  then obtain r where "r \<in> set (jobs (sy_db s))" by (cases "jobs (sy_db s)") auto
  moreover from s(2) have "logged_step\<^sup>*\<^sup>* s0 s"
    unfolding logged_step_def by (intro r_into_rtranclp exI [of _ DoCreate]) simp
  ultimately show ?thesis using s(1) log_tells_lifecycle [of s0 s r] by blast
qed

end
